(* ===== verification/Prelude.thy ===== *)
theory Prelude
  imports Main "HOL-Library.Word" "HOL-Library.List_Lexorder" "HOL-Library.Multiset"
begin

text \<open>
  The vocabulary the components share.  Go's bytes are \<open>8 word\<close>; a Go slice whose nil-ness the
  code observes is a \<open>list option\<close> (\<open>None\<close> is the nil slice).  A call that can return an error or
  panic yields an \<open>outcome\<close>: a panic is kept apart from an error, because the callers' checks
  \<open>if err != nil\<close> see the one and never the other.  The theory also holds the big-endian
  numerals that both the BER transcoder and \<open>encoding/asn1\<close> use for length octets.
\<close>

unbundle bit_operations_syntax

named_theorems outcome_simps "inversion of outcomes that are known to be Ok, Err or Panic"

type_synonym byte = "8 word"
type_synonym bytes = "byte list"
type_synonym oid = "nat list"
type_synonym 'a slice = "'a list option"

subsection \<open>Errors, panics and outcomes\<close>

datatype go_error =
    ASN1Error string
  | ErrWrongType
  | ErrNoCertificate
  | ErrUnsupportedHash
  | ErrUnsupportedKey
  | SyntaxError string
  | StructuralError string
  | ErrorString string
  | osStatus int
  | errCode "64 word"
  | securityStatus "64 word"
  | Wrapped string go_error

datatype go_panic = IndexOutOfRange | NilDereference | PanicMsg string

datatype 'a outcome = Ok 'a | Err go_error | Panic go_panic

abbreviation ErrUnsupported :: go_error where
  "ErrUnsupported \<equiv> ASN1Error ''unsupported type or version''"

abbreviation ErrTrailingData :: go_error where
  "ErrTrailingData \<equiv> ASN1Error ''unexpected trailing data''"

fun obind :: "'a outcome \<Rightarrow> ('a \<Rightarrow> 'b outcome) \<Rightarrow> 'b outcome" where
  "obind (Ok x) f = f x"
| "obind (Err e) f = Err e"
| "obind (Panic p) f = Panic p"

text \<open>The wrapping \<open>if err != nil { return errors.Wrap(err, msg) }\<close>: panics pass through.\<close>

fun wrap :: "string \<Rightarrow> 'a outcome \<Rightarrow> 'a outcome" where
  "wrap msg (Ok x) = Ok x"
| "wrap msg (Err e) = Err (Wrapped msg e)"
| "wrap msg (Panic p) = Panic p"

fun is_ok :: "'a outcome \<Rightarrow> bool" where
  "is_ok (Ok _) = True"
| "is_ok _ = False"

fun panics :: "'a outcome \<Rightarrow> bool" where
  "panics (Panic _) = True"
| "panics _ = False"

lemma obind_cong [fundef_cong]:
  "m = m' \<Longrightarrow> (\<And>x. m' = Ok x \<Longrightarrow> f x = g x) \<Longrightarrow> obind m f = obind m' g"
  by (cases m') auto

lemma obind_Ok_iff [outcome_simps]: "obind m f = Ok y \<longleftrightarrow> (\<exists>x. m = Ok x \<and> f x = Ok y)"
  by (cases m) auto

lemma obind_Err_iff [outcome_simps]:
  "obind m f = Err e \<longleftrightarrow> m = Err e \<or> (\<exists>x. m = Ok x \<and> f x = Err e)"
  by (cases m) auto

lemma obind_Panic_iff [outcome_simps]:
  "obind m f = Panic p \<longleftrightarrow> m = Panic p \<or> (\<exists>x. m = Ok x \<and> f x = Panic p)"
  by (cases m) auto

lemma wrap_Ok_iff [outcome_simps]: "wrap msg m = Ok x \<longleftrightarrow> m = Ok x"
  by (cases m) auto

lemma wrap_Err_iff [outcome_simps]: "wrap msg m = Err e \<longleftrightarrow> (\<exists>e'. m = Err e' \<and> e = Wrapped msg e')"
  by (cases m) auto

lemma wrap_Panic_iff [outcome_simps]: "wrap msg m = Panic p \<longleftrightarrow> m = Panic p"
  by (cases m) auto

lemma obind_right_unit [simp]: "obind m Ok = m"
  by (cases m) auto

lemma obind_assoc: "obind (obind m f) g = obind m (\<lambda>x. obind (f x) g)"
  by (cases m) auto

lemma panics_iff: "panics m \<longleftrightarrow> (\<exists>p. m = Panic p)"
  by (cases m) auto

lemma is_ok_iff: "is_ok m \<longleftrightarrow> (\<exists>x. m = Ok x)"
  by (cases m) auto

text \<open>A loop that applies a fallible step to each element and stops at the first failure.\<close>

fun traverse :: "('a \<Rightarrow> 'b outcome) \<Rightarrow> 'a list \<Rightarrow> 'b list outcome" where
  "traverse f [] = Ok []"
| "traverse f (x # xs) = obind (f x) (\<lambda>y. obind (traverse f xs) (\<lambda>ys. Ok (y # ys)))"

lemma traverse_cong [fundef_cong]:
  "xs = ys \<Longrightarrow> (\<And>x. x \<in> set ys \<Longrightarrow> f x = g x) \<Longrightarrow> traverse f xs = traverse g ys"
  by (induction ys arbitrary: xs) auto

lemma traverse_Ok_length: "traverse f xs = Ok ys \<Longrightarrow> length ys = length xs"
  by (induction xs arbitrary: ys) (auto simp: outcome_simps)

lemma traverse_map_Ok: "(\<And>x. x \<in> set xs \<Longrightarrow> f x = Ok (g x)) \<Longrightarrow> traverse f xs = Ok (map g xs)"
  by (induction xs) auto

lemma traverse_Ok_nth: "traverse f xs = Ok ys \<Longrightarrow> i < length xs \<Longrightarrow> f (xs ! i) = Ok (ys ! i)"
proof (induction xs arbitrary: ys i)
  case (Cons x xs)
  then show ?case by (cases i) (auto simp: outcome_simps)
qed simp

lemma traverse_append:
  "traverse f (xs @ ys) = obind (traverse f xs) (\<lambda>us. obind (traverse f ys) (\<lambda>vs. Ok (us @ vs)))"
proof (induction xs)
  case Nil
  show ?case by (cases "traverse f ys") auto
next
  case (Cons x xs)
  show ?case
    by (cases "f x"; cases "traverse f xs"; cases "traverse f ys") (simp_all add: Cons.IH)
qed

text \<open>
  A method that mutates its receiver and may fail returns the receiver together with the outcome: what
  was changed before the failure stays changed.
\<close>

fun attempt :: "'s \<Rightarrow> 'a outcome \<Rightarrow> ('a \<Rightarrow> 's \<times> 'b outcome) \<Rightarrow> 's \<times> 'b outcome" where
  "attempt s (Ok x) f = f x"
| "attempt s (Err e) f = (s, Err e)"
| "attempt s (Panic p) f = (s, Panic p)"

lemma attempt_Ok_iff [outcome_simps]:
  "attempt s m f = (s', Ok y) \<longleftrightarrow> (\<exists>x. m = Ok x \<and> f x = (s', Ok y))"
  by (cases m) auto

lemma stateful_bind_Ok_iff [outcome_simps]:
  "(case m of (s, r) \<Rightarrow> (s, obind r f)) = (s', Ok y) \<longleftrightarrow> (\<exists>x. m = (s', Ok x) \<and> f x = Ok y)"
  by (cases m) (auto simp: obind_Ok_iff)

lemma attempt_cong [fundef_cong]:
  "s = s' \<Longrightarrow> m = m' \<Longrightarrow> (\<And>x. m' = Ok x \<Longrightarrow> f x = g x) \<Longrightarrow> attempt s m f = attempt s' m' g"
  by (cases m') auto

lemma attempt_split:
  assumes "attempt w m f = (w', r)"
  obtains x where "m = Ok x" "f x = (w', r)" | "w' = w" "\<not> is_ok r"
  using assms by (cases m) auto

lemma fst_attempt: "P s \<Longrightarrow> (\<And>x. m = Ok x \<Longrightarrow> P (fst (f x))) \<Longrightarrow> P (fst (attempt s m f))"
  by (cases m) auto

subsection \<open>Slices\<close>

text \<open>\<open>elems\<close> forgets whether a slice was nil, as \<open>len\<close>, \<open>range\<close> and \<open>append\<close> do.\<close>

definition elems :: "'a slice \<Rightarrow> 'a list" where
  "elems s = (case s of None \<Rightarrow> [] | Some xs \<Rightarrow> xs)"

lemma elems_simps [simp]: "elems None = []" "elems (Some xs) = xs"
  by (simp_all add: elems_def)

text \<open>\<open>append(s, xs...)\<close> of a nil slice and nothing is still nil.\<close>

definition go_append :: "'a slice \<Rightarrow> 'a list \<Rightarrow> 'a slice" where
  "go_append s xs = (if xs = [] then s else Some (elems s @ xs))"

lemma elems_go_append [simp]: "elems (go_append s xs) = elems s @ xs"
  by (cases s) (auto simp: go_append_def)

text \<open>\<open>b[i]\<close> panics out of range; \<open>b[i:j]\<close> for bounds the code has already checked.\<close>

definition byte_at :: "'a list \<Rightarrow> nat \<Rightarrow> 'a outcome" where
  "byte_at xs i = (if i < length xs then Ok (xs ! i) else Panic IndexOutOfRange)"

definition subslice :: "'a list \<Rightarrow> nat \<Rightarrow> nat \<Rightarrow> 'a list" where
  "subslice xs i j = take (j - i) (drop i xs)"

lemma byte_at_Ok_iff [outcome_simps]: "byte_at xs i = Ok b \<longleftrightarrow> i < length xs \<and> b = xs ! i"
  by (auto simp: byte_at_def)

lemma byte_at_not_Err [simp]: "byte_at xs i \<noteq> Err e"
  by (simp add: byte_at_def)

lemma byte_at_Panic_iff [outcome_simps]:
  "byte_at xs i = Panic p \<longleftrightarrow> length xs \<le> i \<and> p = IndexOutOfRange"
  by (auto simp: byte_at_def)

lemma byte_at_append_here [simp]: "byte_at (pre @ x # post) (length pre) = Ok x"
  by (simp add: byte_at_def)

lemma subslice_append_here [simp]:
  "subslice (pre @ xs @ post) (length pre) (length pre + length xs) = xs"
  by (simp add: subslice_def)

lemma length_subslice: "j \<le> length xs \<Longrightarrow> length (subslice xs i j) = j - i"
  by (simp add: subslice_def)

subsection \<open>Decimal printing\<close>

text \<open>\<open>strconv.Itoa\<close> and \<open>%d\<close> on the naturals.\<close>

fun show_nat :: "nat \<Rightarrow> string" where
  "show_nat n = (if n < 10 then [char_of (48 + n)] else show_nat (n div 10) @ [char_of (48 + n mod 10)])"

declare show_nat.simps [simp del]

lemma of_char_digit [simp]: "n < 10 \<Longrightarrow> of_char (char_of (48 + n)) = 48 + (n :: nat)"
  by simp

lemma show_nat_digits: "c \<in> set (show_nat n) \<Longrightarrow> of_char c \<in> {48 ..< 58 :: nat}"
proof (induction n rule: show_nat.induct)
  case (1 n)
  have "n mod 10 < 10" by simp
  then have "of_char (char_of (48 + n mod 10)) = 48 + n mod 10" by (rule of_char_digit)
  then show ?case
    using 1 \<open>n mod 10 < 10\<close> by (subst (asm) (2) show_nat.simps) (auto split: if_splits)
qed

lemma show_nat_not_Nil [simp]: "show_nat n \<noteq> []"
  by (subst show_nat.simps) simp

definition decimal_value :: "string \<Rightarrow> nat" where
  "decimal_value s = foldl (\<lambda>a c. a * 10 + (of_char c - 48)) 0 s"

lemma decimal_value_show_nat [simp]: "decimal_value (show_nat n) = n"
proof (induction n rule: show_nat.induct)
  case (1 n)
  have d: "of_char (char_of (48 + n mod 10)) = 48 + n mod 10" by (rule of_char_digit) simp
  show ?case
  proof (cases "n < 10")
    case True
    then show ?thesis by (subst show_nat.simps) (simp add: decimal_value_def)
  next
    case False
    then have "decimal_value (show_nat n) = decimal_value (show_nat (n div 10)) * 10 + n mod 10"
      by (subst show_nat.simps) (simp add: decimal_value_def d del: of_char_of)
    then show ?thesis using 1 False by simp
  qed
qed

lemma show_nat_eq_iff [simp]: "show_nat m = show_nat n \<longleftrightarrow> m = n"
  by (metis decimal_value_show_nat)

end
