(* ===== verification/Big_Endian.thy ===== *)
theory Big_Endian
  imports Prelude
begin

text \<open>
  Big-endian base-256 numerals, as they stand in long-form length octets.  \<open>be_value\<close> reads a
  byte string, \<open>be_bytes\<close> is the shortest non-empty byte string for a number.  The Go loops that
  write and read lengths (in \<open>ber.go\<close> and in \<open>encoding/asn1\<close>) are proved equal to these two.
\<close>

text \<open>Go's conversion \<open>byte(n)\<close>: the low eight bits.\<close>

definition octet :: "nat \<Rightarrow> byte" where
  "octet n = word_of_nat n"

lemma unat_byte_less [simp]: "unat (b :: byte) < 256"
  using unsigned_less [of b] by simp

lemma unat_octet: "unat (octet n) = n mod 256"
  by (simp add: octet_def unat_of_nat)

lemma unat_octet_small [simp]: "n < 256 \<Longrightarrow> unat (octet n) = n"
  by (simp add: unat_octet)

lemma byte_eqI_unat: "unat (v :: byte) = unat w \<Longrightarrow> v = w"
  by (rule unsigned_word_eqI)

lemma octet_unat [simp]: "octet (unat b) = b"
  by (simp add: octet_def)

lemma octet_add_mult [simp]: "octet (k * 256 + unat b) = b" "octet (unat b + k * 256) = b"
  by (rule byte_eqI_unat, simp add: unat_octet)+

lemma octet_eq_iff: "m < 256 \<Longrightarrow> n < 256 \<Longrightarrow> octet m = octet n \<longleftrightarrow> m = n"
  by (metis unat_octet_small)

lemma octet_0 [simp]: "octet 0 = 0"
  by (simp add: octet_def)

definition be_value :: "bytes \<Rightarrow> nat" where
  "be_value bs = foldl (\<lambda>a b. a * 256 + unat b) 0 bs"

fun be_bytes :: "nat \<Rightarrow> bytes" where
  "be_bytes n = (if n < 256 then [octet n] else be_bytes (n div 256) @ [octet n])"

declare be_bytes.simps [simp del]

lemma be_bytes_small: "n < 256 \<Longrightarrow> be_bytes n = [octet n]"
  by (subst be_bytes.simps) simp

lemma be_bytes_large: "256 \<le> n \<Longrightarrow> be_bytes n = be_bytes (n div 256) @ [octet n]"
  by (subst be_bytes.simps) simp

lemma be_value_Nil [simp]: "be_value [] = 0"
  by (simp add: be_value_def)

lemma be_value_snoc [simp]: "be_value (bs @ [b]) = be_value bs * 256 + unat b"
  by (simp add: be_value_def)

lemma be_value_append: "be_value (xs @ ys) = be_value xs * 256 ^ length ys + be_value ys"
proof (induction ys rule: rev_induct)
  case (snoc y ys)
  then show ?case
    by (simp add: append_assoc [symmetric] algebra_simps del: append_assoc)
qed simp

lemma be_value_singleton [simp]: "be_value [b] = unat b"
  by (simp add: be_value_def)

lemma be_value_Cons: "be_value (b # bs) = unat b * 256 ^ length bs + be_value bs"
  using be_value_append [of "[b]" bs] by simp

lemma be_value_bound: "be_value bs < 256 ^ length bs"
proof (induction bs rule: rev_induct)
  case (snoc b bs)
  have "be_value bs * 256 + unat b < (be_value bs + 1) * 256"
    using unat_byte_less [of b] by simp
  also have "\<dots> \<le> 256 ^ length bs * 256"
    using snoc.IH by (intro mult_right_mono) auto
  finally show ?case by (simp add: mult.commute)
qed simp

lemma be_bytes_not_Nil [simp]: "be_bytes n \<noteq> []"
  by (subst be_bytes.simps) simp

lemma be_value_be_bytes [simp]: "be_value (be_bytes n) = n"
proof (induction n rule: be_bytes.induct)
  case (1 n)
  then show ?case
    by (cases "n < 256") (simp_all add: be_bytes_small be_bytes_large unat_octet)
qed

lemma hd_be_bytes_eq_0_iff: "hd (be_bytes n) = 0 \<longleftrightarrow> n = 0"
proof (induction n rule: be_bytes.induct)
  case (1 n)
  show ?case
  proof (cases "n < 256")
    case True
    then have "octet n = 0 \<longleftrightarrow> n = 0"
      using octet_eq_iff [of n 0] by simp
    then show ?thesis using True by (simp add: be_bytes_small)
  next
    case False
    then show ?thesis using 1 by (simp add: be_bytes_large)
  qed
qed

lemma length_be_bytes_le: "n < 256 ^ k \<Longrightarrow> 0 < k \<Longrightarrow> length (be_bytes n) \<le> k"
proof (induction n arbitrary: k rule: be_bytes.induct)
  case (1 n)
  show ?case
  proof (cases "n < 256")
    case True
    then show ?thesis using "1.prems" by (simp add: be_bytes_small)
  next
    case False
    then obtain j where k: "k = Suc j" and "0 < j"
      using "1.prems" by (cases k; cases "k - 1") auto
    have "n div 256 < 256 ^ j"
      using "1.prems" k by (simp add: less_mult_imp_div_less mult.commute)
    then have "length (be_bytes (n div 256)) \<le> j"
      using "1.IH" False \<open>0 < j\<close> by simp
    then show ?thesis using False k by (simp add: be_bytes_large)
  qed
qed

text \<open>The shortest numeral is the only one without a leading zero octet.\<close>

lemma be_bytes_be_value:
  "bs \<noteq> [] \<Longrightarrow> hd bs \<noteq> 0 \<or> length bs = 1 \<Longrightarrow> be_bytes (be_value bs) = bs"
proof (induction bs rule: rev_induct)
  case (snoc b bs)
  show ?case
  proof (cases "bs = []")
    case True
    then show ?thesis by (simp add: be_bytes_small)
  next
    case False
    then have "hd bs \<noteq> 0" using snoc.prems by (cases bs) auto
    then have "be_bytes (be_value bs) = bs" using snoc.IH False by blast
    then have "be_value bs \<noteq> 0"
      using hd_be_bytes_eq_0_iff [of "be_value bs"] \<open>hd bs \<noteq> 0\<close> by simp
    then show ?thesis
      using \<open>be_bytes (be_value bs) = bs\<close> by (simp add: be_bytes_large)
  qed
qed simp

end
