(* ===== verification/Go_Asn1.thy ===== *)
theory Go_Asn1
  imports Big_Endian
begin

text \<open>
  The part of Go's \<open>encoding/asn1\<close> the repository calls: the reader and writer of identifier and
  length octets, \<open>RawValue\<close>, OBJECT IDENTIFIERs, INTEGERs, and \<open>parseField\<close>, the step that matches
  one field of a struct against the next element (its \<open>optional\<close>, \<open>explicit\<close>, \<open>set\<close> and \<open>tag\<close>
  parameters included).  Readers take the bytes that are left and return the bytes after the element,
  where Go passes the whole input and an offset.  Lengths are below \<open>2 ^ 31\<close> by the reader's own
  check, so \<open>nat\<close> loses nothing.
\<close>

subsection \<open>Identifier and length octets\<close>

record tag_and_length =
  tl_class :: nat
  tl_tag :: nat
  tl_length :: nat
  tl_compound :: bool

fun parseBase128Int_loop :: "nat \<Rightarrow> nat \<Rightarrow> bytes \<Rightarrow> (nat \<times> bytes) outcome" where
  "parseBase128Int_loop shifted ret [] = Err (SyntaxError ''truncated base 128 integer'')"
| "parseBase128Int_loop shifted ret (b # bs) =
     (if shifted = 5 then Err (StructuralError ''base 128 integer too large'')
      else if shifted = 0 \<and> b = 0x80 then Err (SyntaxError ''integer is not minimally encoded'')
      else let ret' = ret * 128 + unat b mod 128 in
        if unat b < 128
        then (if ret' > 2147483647 then Err (StructuralError ''base 128 integer too large'')
              else Ok (ret', bs))
        else parseBase128Int_loop (Suc shifted) ret' bs)"

definition parseBase128Int :: "bytes \<Rightarrow> (nat \<times> bytes) outcome" where
  "parseBase128Int bs = parseBase128Int_loop 0 0 bs"

fun parse_length_octets :: "nat \<Rightarrow> nat \<Rightarrow> bytes \<Rightarrow> (nat \<times> bytes) outcome" where
  "parse_length_octets 0 len bs = Ok (len, bs)"
| "parse_length_octets (Suc n) len [] = Err (SyntaxError ''truncated tag or length'')"
| "parse_length_octets (Suc n) len (b # bs) =
     (if len \<ge> 2 ^ 23 then Err (StructuralError ''length too large'')
      else let len' = len * 256 + unat b in
        if len' = 0 then Err (StructuralError ''superfluous leading zeros in length'')
        else parse_length_octets n len' bs)"

fun parse_length :: "bytes \<Rightarrow> (nat \<times> bytes) outcome" where
  "parse_length [] = Err (SyntaxError ''truncated tag or length'')"
| "parse_length (b # bs) =
     (if unat b < 128 then Ok (unat b, bs)
      else if unat b = 128 then Err (SyntaxError ''indefinite length found (not DER)'')
      else obind (parse_length_octets (unat b - 128) 0 bs) (\<lambda>(len, rest).
        if len < 128 then Err (StructuralError ''non-minimal length'') else Ok (len, rest)))"

fun parseTagAndLength :: "bytes \<Rightarrow> (tag_and_length \<times> bytes) outcome" where
  "parseTagAndLength [] = Err (ErrorString ''asn1: internal error in parseTagAndLength'')"
| "parseTagAndLength (b # bs) =
     obind (if unat b mod 32 = 31
            then obind (parseBase128Int bs) (\<lambda>(tag, rest).
              if tag < 31 then Err (SyntaxError ''non-minimal tag'') else Ok (tag, rest))
            else Ok (unat b mod 32, bs))
       (\<lambda>(tag, rest). obind (parse_length rest) (\<lambda>(len, rest').
          Ok (\<lparr>tl_class = unat b div 64, tl_tag = tag, tl_length = len,
               tl_compound = odd (unat b div 32)\<rparr>, rest')))"

fun base128_hi :: "nat \<Rightarrow> bytes" where
  "base128_hi n = (if n = 0 then [] else base128_hi (n div 128) @ [octet (128 + n mod 128)])"

declare base128_hi.simps [simp del]

definition appendBase128Int :: "nat \<Rightarrow> bytes" where
  "appendBase128Int n = base128_hi (n div 128) @ [octet (n mod 128)]"

definition length_octets :: "nat \<Rightarrow> bytes" where
  "length_octets n = (if n < 128 then [octet n]
     else octet (128 + length (be_bytes n)) # be_bytes n)"

definition appendTagAndLength :: "tag_and_length \<Rightarrow> bytes" where
  "appendTagAndLength t =
     (let b = tl_class t * 64 + (if tl_compound t then 32 else 0) in
      if tl_tag t \<ge> 31 then octet (b + 31) # appendBase128Int (tl_tag t)
      else [octet (b + tl_tag t)]) @ length_octets (tl_length t)"

subsection \<open>RawValue\<close>

record raw_value =
  rv_Class :: nat
  rv_Tag :: nat
  rv_IsCompound :: bool
  rv_Bytes :: "byte slice"
  rv_FullBytes :: "byte slice"

definition nil_raw :: raw_value where
  "nil_raw = \<lparr>rv_Class = 0, rv_Tag = 0, rv_IsCompound = False, rv_Bytes = None, rv_FullBytes = None\<rparr>"

definition marshal_raw :: "raw_value \<Rightarrow> bytes" where
  "marshal_raw rv =
     (if elems (rv_FullBytes rv) \<noteq> [] then elems (rv_FullBytes rv)
      else appendTagAndLength \<lparr>tl_class = rv_Class rv, tl_tag = rv_Tag rv,
             tl_length = length (elems (rv_Bytes rv)), tl_compound = rv_IsCompound rv\<rparr>
           @ elems (rv_Bytes rv))"

text \<open>The element whose header \<open>t\<close> has been read; \<open>bs\<close> is the input from its first byte.\<close>

definition take_element :: "bytes \<Rightarrow> tag_and_length \<Rightarrow> bytes \<Rightarrow> (raw_value \<times> bytes) outcome" where
  "take_element bs t rest =
     (if tl_length t > length rest then Err (SyntaxError ''data truncated'')
      else let after = drop (tl_length t) rest in
        Ok (\<lparr>rv_Class = tl_class t, rv_Tag = tl_tag t, rv_IsCompound = tl_compound t,
             rv_Bytes = Some (take (tl_length t) rest),
             rv_FullBytes = Some (take (length bs - length after) bs)\<rparr>, after))"

text \<open>\<open>asn1.Unmarshal(b, &rv)\<close> for a \<open>RawValue\<close>: any element, no parameters.\<close>

definition unmarshal_raw :: "bytes \<Rightarrow> (raw_value \<times> bytes) outcome" where
  "unmarshal_raw bs =
     (if bs = [] then Err (SyntaxError ''sequence truncated'')
      else obind (parseTagAndLength bs) (\<lambda>(t, rest). take_element bs t rest))"

subsection \<open>Reading what was written: base 128\<close>

definition base128_value :: "nat \<Rightarrow> bytes \<Rightarrow> nat" where
  "base128_value a bs = foldl (\<lambda>a b. a * 128 + unat b mod 128) a bs"

lemma base128_value_simps [simp]:
  "base128_value a [] = a"
  "base128_value a (b # bs) = base128_value (a * 128 + unat b mod 128) bs"
  "base128_value a (bs @ [c]) = base128_value a bs * 128 + unat c mod 128"
  by (simp_all add: base128_value_def)

lemma base128_hi_0 [simp]: "base128_hi 0 = []"
  by (subst base128_hi.simps) simp

lemma base128_hi_pos:
  "0 < n \<Longrightarrow> base128_hi n = base128_hi (n div 128) @ [octet (128 + n mod 128)]"
  by (subst base128_hi.simps) simp

lemma base128_hi_Nil_iff [simp]: "base128_hi n = [] \<longleftrightarrow> n = 0"
  by (cases "n = 0") (simp_all add: base128_hi_pos)

lemma unat_continuation_octet [simp]: "unat (octet (128 + n mod 128)) = 128 + n mod 128"
  using mod_less_divisor [of 128 n] by (intro unat_octet_small) linarith

lemma base128_hi_octets: "b \<in> set (base128_hi n) \<Longrightarrow> 128 \<le> unat b"
proof (induction n rule: base128_hi.induct)
  case (1 n)
  then show ?case by (cases "n = 0") (auto simp: base128_hi_pos)
qed

lemma base128_value_base128_hi [simp]: "base128_value 0 (base128_hi n) = n"
proof (induction n rule: base128_hi.induct)
  case (1 n)
  have "(128 + n mod 128) mod 128 = n mod 128" by simp
  with 1 show ?case by (cases "n = 0") (simp_all add: base128_hi_pos)
qed

lemma hd_base128_hi: "0 < n \<Longrightarrow> hd (base128_hi n) \<noteq> 0x80"
proof (induction n rule: base128_hi.induct)
  case (1 n)
  show ?case
  proof (cases "n div 128 = 0")
    case True
    then have "n < 128" by simp
    have "octet (128 + n) \<noteq> octet 128"
      using \<open>n < 128\<close> \<open>0 < n\<close> by (subst octet_eq_iff) auto
    then show ?thesis using True \<open>0 < n\<close> by (auto simp: base128_hi_pos octet_def)
  next
    case False
    then have "hd (base128_hi n) = hd (base128_hi (n div 128))"
      using \<open>0 < n\<close> by (subst base128_hi_pos) (simp_all add: hd_append)
    then show ?thesis using "1.IH" \<open>0 < n\<close> False by simp
  qed
qed

lemma length_base128_hi: "n < 128 ^ k \<Longrightarrow> length (base128_hi n) \<le> k"
proof (induction k arbitrary: n)
  case (Suc k)
  show ?case
  proof (cases "n = 0")
    case False
    have "n div 128 < 128 ^ k"
      using Suc.prems by (simp add: less_mult_imp_div_less mult.commute)
    then show ?thesis using Suc.IH False by (simp add: base128_hi_pos)
  qed simp
qed simp

lemma parseBase128Int_loop_continuation:
  "\<forall>b \<in> set xs. 128 \<le> unat b \<Longrightarrow> s + length xs \<le> 5 \<Longrightarrow> (s = 0 \<Longrightarrow> xs = [] \<or> hd xs \<noteq> 0x80) \<Longrightarrow>
   parseBase128Int_loop s a (xs @ bs) = parseBase128Int_loop (s + length xs) (base128_value a xs) bs"
proof (induction xs arbitrary: s a)
  case (Cons x xs)
  have "parseBase128Int_loop s a ((x # xs) @ bs)
      = parseBase128Int_loop (Suc s) (a * 128 + unat x mod 128) (xs @ bs)"
    using Cons.prems by (auto simp: Let_def)
  also have "\<dots> = parseBase128Int_loop (Suc s + length xs)
      (base128_value (a * 128 + unat x mod 128) xs) bs"
    using Cons.prems by (intro Cons.IH) auto
  finally show ?case by simp
qed simp

lemma parseBase128Int_append [simp]:
  assumes "n \<le> 2147483647"
  shows "parseBase128Int (appendBase128Int n @ rest) = Ok (n, rest)"
proof -
  let ?m = "n div 128" and ?c = "octet (n mod 128)"
  have c: "unat ?c = n mod 128"
    using mod_less_divisor [of 128 n] by (intro unat_octet_small) linarith
  have len: "length (base128_hi ?m) \<le> 4"
    using assms by (intro length_base128_hi) simp
  have "?c \<noteq> 0x80"
    using octet_eq_iff [of "n mod 128" 128] mod_less_divisor [of 128 n]
    by (auto simp: octet_def)
  have "parseBase128Int (appendBase128Int n @ rest)
      = parseBase128Int_loop (length (base128_hi ?m)) ?m (?c # rest)"
    unfolding parseBase128Int_def appendBase128Int_def append_assoc
    using len base128_hi_octets hd_base128_hi [of ?m]
    by (subst parseBase128Int_loop_continuation) auto
  also have "\<dots> = Ok (n, rest)"
    using assms len c \<open>?c \<noteq> 0x80\<close> by (simp add: Let_def)
  finally show ?thesis .
qed

lemma high_octet:
  assumes "128 \<le> unat (b :: byte)"
  shows "128 + unat b mod 128 = unat b"
proof -
  have "128 + x mod 128 = x" if "128 \<le> x" "x < 256" for x :: nat
    using that by (simp add: le_mod_geq)
  from this [OF assms unat_byte_less] show ?thesis .
qed

lemma base128_hi_base128_value:
  "\<forall>b \<in> set xs. 128 \<le> unat b \<Longrightarrow> xs = [] \<or> hd xs \<noteq> 0x80 \<Longrightarrow> base128_hi (base128_value 0 xs) = xs"
proof (induction xs rule: rev_induct)
  case (snoc b xs)
  have b: "128 + unat b mod 128 = unat b"
    using snoc.prems by (intro high_octet) simp
  have "octet (128 + (base128_value 0 xs * 128 + unat b mod 128) mod 128) = b"
    by (simp add: b)
  moreover have "0 < base128_value 0 xs * 128 + unat b mod 128"
  proof (cases "xs = []")
    case True
    have "unat b \<noteq> unat (0x80 :: byte)"
      using snoc.prems True byte_eqI_unat [of b "0x80"] by auto
    then show ?thesis using b True by simp
  next
    case False
    then have "base128_hi (base128_value 0 xs) = xs" using snoc by (cases xs) auto
    then show ?thesis using False by (metis base128_hi_0 add_gr_0 nat_0_less_mult_iff zero_less_numeral neq0_conv)
  qed
  moreover have "base128_hi (base128_value 0 xs) = xs" using snoc by (cases xs) auto
  ultimately show ?case by (simp add: base128_hi_pos)
qed simp

lemma parseBase128Int_loop_Ok:
  "parseBase128Int_loop s a bs = Ok (n, rest) \<Longrightarrow>
   \<exists>xs c. bs = xs @ c # rest \<and> (\<forall>b \<in> set xs. 128 \<le> unat b) \<and> unat c < 128
     \<and> (s = 0 \<longrightarrow> hd (xs @ [c]) \<noteq> 0x80) \<and> n = base128_value a xs * 128 + unat c \<and> n \<le> 2147483647"
proof (induction s a bs rule: parseBase128Int_loop.induct)
  case (2 s a b bs)
  show ?case
  proof (cases "unat b < 128")
    case True
    then have "bs = rest" and "n = a * 128 + unat b" and "n \<le> 2147483647"
      and "s = 0 \<longrightarrow> b \<noteq> 0x80"
      using "2.prems" by (auto simp: Let_def split: if_splits)
    then show ?thesis using True by (intro exI [of _ "[]"] exI [of _ b]) simp
  next
    case False
    then have "s = 0 \<longrightarrow> b \<noteq> 0x80"
      and "\<exists>xs c. bs = xs @ c # rest \<and> (\<forall>b \<in> set xs. 128 \<le> unat b) \<and> unat c < 128
        \<and> n = base128_value (a * 128 + unat b mod 128) xs * 128 + unat c \<and> n \<le> 2147483647"
      using "2.prems" "2.IH" by (auto simp: Let_def split: if_splits)
    then obtain xs c where "bs = xs @ c # rest" "\<forall>b \<in> set xs. 128 \<le> unat b" "unat c < 128"
      "n = base128_value (a * 128 + unat b mod 128) xs * 128 + unat c" "n \<le> 2147483647"
      "s = 0 \<longrightarrow> b \<noteq> 0x80" by blast
    then show ?thesis using False by (intro exI [of _ "b # xs"] exI [of _ c]) simp
  qed
qed simp

text \<open>Reading accepts only the shortest encoding, so what was read is what would be written.\<close>

lemma parseBase128Int_canonical:
  assumes "parseBase128Int bs = Ok (n, rest)"
  shows "bs = appendBase128Int n @ rest" and "n \<le> 2147483647"
proof -
  from assms obtain xs c where *: "bs = xs @ c # rest" "\<forall>b \<in> set xs. 128 \<le> unat b"
      "unat c < 128" "hd (xs @ [c]) \<noteq> 0x80" "n = base128_value 0 xs * 128 + unat c"
    and n: "n \<le> 2147483647"
    unfolding parseBase128Int_def by (auto dest: parseBase128Int_loop_Ok)
  from * have "n div 128 = base128_value 0 xs" by simp
  moreover have "xs = [] \<or> hd xs \<noteq> 0x80" using * by (cases xs) auto
  ultimately have "base128_hi (n div 128) = xs"
    using * by (simp only: base128_hi_base128_value)
  then show "bs = appendBase128Int n @ rest"
    using * by (simp add: appendBase128Int_def)
  show "n \<le> 2147483647" by (rule n)
qed

subsection \<open>Reading what was written: lengths and headers\<close>

lemma parse_length_octets_append:
  "(len * 256 ^ length xs + be_value xs) div 256 < 2 ^ 23 \<Longrightarrow> xs = [] \<or> 0 < len \<or> hd xs \<noteq> 0 \<Longrightarrow>
   parse_length_octets (length xs) len (xs @ rest) = Ok (len * 256 ^ length xs + be_value xs, rest)"
proof (induction xs arbitrary: len)
  case (Cons b xs)
  let ?len = "len * 256 + unat b"
  have step: "len * 256 ^ length (b # xs) + be_value (b # xs) = ?len * 256 ^ length xs + be_value xs"
    by (simp add: be_value_Cons algebra_simps)
  have "len * 1 \<le> len * 256 ^ length xs" by (rule mult_le_mono2) simp
  then have "len * 256 \<le> len * 256 ^ length xs * 256" by simp
  also have "\<dots> \<le> len * 256 ^ length (b # xs) + be_value (b # xs)" by simp
  finally have "len \<le> (len * 256 ^ length (b # xs) + be_value (b # xs)) div 256"
    by (simp only: less_eq_div_iff_mult_less_eq zero_less_numeral)
  then have small: "len < 2 ^ 23" using Cons.prems(1) by linarith
  have pos: "0 < ?len"
    using Cons.prems(2) by (auto simp: unat_gt_0)
  have "parse_length_octets (length xs) ?len (xs @ rest) = Ok (?len * 256 ^ length xs + be_value xs, rest)"
    using Cons.prems(1) pos unfolding step by (intro Cons.IH) simp_all
  then show ?case using small pos unfolding step by (simp add: Let_def)
qed simp

lemma length_octets_small: "n < 128 \<Longrightarrow> length_octets n = [octet n]"
  by (simp add: length_octets_def)

lemma parse_length_length_octets [simp]:
  assumes "n < 2 ^ 31"
  shows "parse_length (length_octets n @ rest) = Ok (n, rest)"
proof (cases "n < 128")
  case False
  let ?bs = "be_bytes n"
  have len: "length ?bs \<le> 4" using assms by (intro length_be_bytes_le) simp_all
  have "parse_length_octets (length ?bs) 0 (?bs @ rest) = Ok (n, rest)"
    using assms False hd_be_bytes_eq_0_iff [of n]
    by (subst parse_length_octets_append) (auto simp: less_mult_imp_div_less)
  moreover have "0 < length ?bs" by simp
  ultimately show ?thesis
    using False len by (simp add: length_octets_def del: length_greater_0_conv)
qed (simp add: length_octets_def)

lemma parse_length_octets_Ok:
  "parse_length_octets k len bs = Ok (n, rest) \<Longrightarrow>
   \<exists>xs. bs = xs @ rest \<and> length xs = k \<and> n = len * 256 ^ k + be_value xs
     \<and> (0 < k \<longrightarrow> len < 2 ^ 23 \<and> n < 2 ^ 31 \<and> (len = 0 \<longrightarrow> hd xs \<noteq> 0))"
proof (induction k len bs rule: parse_length_octets.induct)
  case (3 k len b bs)
  let ?len = "len * 256 + unat b"
  have small: "len < 2 ^ 23" and pos: "?len \<noteq> 0"
    and "parse_length_octets k ?len bs = Ok (n, rest)"
    using "3.prems" by (auto simp: Let_def split: if_splits)
  then obtain xs where xs: "bs = xs @ rest" "length xs = k" "n = ?len * 256 ^ k + be_value xs"
      "0 < k \<longrightarrow> n < 2 ^ 31"
    using "3.IH" by (auto simp: Let_def)
  have "n < 2 ^ 31"
  proof (cases "k = 0")
    case True
    then have "n = ?len" using xs by simp
    also have "\<dots> < 2 ^ 23 * 256" using small unat_byte_less [of b] by linarith
    finally show ?thesis by simp
  qed (use xs in simp)
  moreover have "len = 0 \<longrightarrow> b \<noteq> 0" using pos by auto
  ultimately show ?case using xs small
    by (intro exI [of _ "b # xs"]) (simp add: be_value_Cons algebra_simps)
qed simp_all

lemma parse_length_canonical:
  assumes "parse_length bs = Ok (n, rest)"
  shows "bs = length_octets n @ rest" and "n < 2 ^ 31"
proof -
  from assms obtain b cs where bs: "bs = b # cs" by (cases bs) auto
  have "bs = length_octets n @ rest \<and> n < 2 ^ 31"
  proof (cases "unat b < 128")
    case True
    then show ?thesis using assms bs by (auto simp: length_octets_def)
  next
    case False
    then have k: "0 < unat b - 128" and "128 \<le> n"
      and "parse_length_octets (unat b - 128) 0 cs = Ok (n, rest)"
      using assms bs by (auto simp: outcome_simps split: if_splits prod.splits)
    then obtain xs where xs: "cs = xs @ rest" "length xs = unat b - 128" "n = be_value xs"
      "n < 2 ^ 31" "hd xs \<noteq> 0"
      using parse_length_octets_Ok by fastforce
    then have "be_bytes n = xs" using k be_bytes_be_value [of xs] by fastforce
    moreover have "octet (128 + length xs) = b" using xs k by simp
    ultimately show ?thesis using xs bs \<open>128 \<le> n\<close> by (simp add: length_octets_def)
  qed
  then show "bs = length_octets n @ rest" "n < 2 ^ 31" by auto
qed

text \<open>The headers that both directions handle: two class bits, an \<open>int32\<close> tag, a 31-bit length.\<close>

definition wf_header :: "tag_and_length \<Rightarrow> bool" where
  "wf_header t \<longleftrightarrow> tl_class t < 4 \<and> tl_tag t \<le> 2147483647 \<and> tl_length t < 2 ^ 31"

definition identifier_octet :: "nat \<Rightarrow> bool \<Rightarrow> nat \<Rightarrow> nat" where
  "identifier_octet class compound tag = class * 64 + (if compound then 32 else 0) + tag"

lemma identifier_octet_fields:
  assumes "class < 4" "tag < 32"
  shows "identifier_octet class compound tag < 256"
    and "identifier_octet class compound tag mod 32 = tag"
    and "identifier_octet class compound tag div 64 = class"
    and "odd (identifier_octet class compound tag div 32) = compound"
proof -
  define c where "c = (if compound then 1 else 0 :: nat)"
  have c: "c < 2" "compound \<longleftrightarrow> odd c" by (auto simp: c_def)
  have eq: "identifier_octet class compound tag = (class * 2 + c) * 32 + tag"
    by (simp add: identifier_octet_def c_def)
  have div32: "((class * 2 + c) * 32 + tag) div 32 = class * 2 + c"
    using assms by (simp add: div_mult_self3)
  show "identifier_octet class compound tag < 256"
  proof -
    have "class \<le> 3" "c \<le> 1" "tag \<le> 31" using assms c(1) by simp_all
    then show ?thesis unfolding eq by simp
  qed
  show "identifier_octet class compound tag mod 32 = tag"
    unfolding eq by (simp only: mod_mult_self3 mod_less [OF assms(2)])
  show "odd (identifier_octet class compound tag div 32) = compound"
    unfolding eq div32 using c by simp
  have "m div 64 = m div 32 div 2" for m :: nat by (simp add: div_mult2_eq [symmetric])
  then have "identifier_octet class compound tag div 64 = (class * 2 + c) div 2"
    by (simp only: eq div32)
  then show "identifier_octet class compound tag div 64 = class"
    using c by simp
qed

lemma identifier_octet_of_fields:
  assumes "n < 256"
  shows "identifier_octet (n div 64) (odd (n div 32)) (n mod 32) = n"
proof -
  have "q div 2 * 64 + (if odd q then 32 else 0) = q * 32" for q :: nat
    by (cases "odd q") (auto elim!: oddE evenE)
  from this [of "n div 32"] show ?thesis
    by (simp add: identifier_octet_def div_mult2_eq [symmetric])
qed

lemma appendTagAndLength_eq:
  "appendTagAndLength t =
     (if tl_tag t \<ge> 31
      then octet (identifier_octet (tl_class t) (tl_compound t) 31) # appendBase128Int (tl_tag t)
      else [octet (identifier_octet (tl_class t) (tl_compound t) (tl_tag t))])
     @ length_octets (tl_length t)"
  by (simp add: appendTagAndLength_def identifier_octet_def)

text \<open>Printing then parsing a header gives it back; parsing accepts printed headers only.\<close>

lemma parseTagAndLength_append [simp]:
  assumes "wf_header t"
  shows "parseTagAndLength (appendTagAndLength t @ rest) = Ok (t, rest)"
  using assms
  by (auto simp: appendTagAndLength_eq wf_header_def identifier_octet_fields)

lemma parseTagAndLength_canonical:
  assumes "parseTagAndLength bs = Ok (t, rest)"
  shows "bs = appendTagAndLength t @ rest" and "wf_header t"
proof -
  from assms obtain b cs where bs: "bs = b # cs" by (cases bs) auto
  let ?n = "unat b"
  have b: "octet (identifier_octet (?n div 64) (odd (?n div 32)) (?n mod 32)) = b"
    by (simp add: identifier_octet_of_fields)
  have cls: "?n div 64 < 4" using unat_byte_less [of b] by (simp add: less_mult_imp_div_less)
  from assms bs obtain ds where t: "tl_class t = ?n div 64" "tl_compound t = odd (?n div 32)"
    and len: "parse_length ds = Ok (tl_length t, rest)"
    and tag: "(?n mod 32 = 31 \<and> parseBase128Int cs = Ok (tl_tag t, ds) \<and> 31 \<le> tl_tag t)
      \<or> (?n mod 32 \<noteq> 31 \<and> tl_tag t = ?n mod 32 \<and> ds = cs)"
    by (auto simp: outcome_simps split: if_splits prod.splits)
  have ds: "ds = length_octets (tl_length t) @ rest" "tl_length t < 2 ^ 31"
    using parse_length_canonical [OF len] by auto
  have "bs = appendTagAndLength t @ rest \<and> wf_header t"
  proof (cases "?n mod 32 = 31")
    case True
    then have "cs = appendBase128Int (tl_tag t) @ ds" "tl_tag t \<le> 2147483647" "31 \<le> tl_tag t"
      using tag parseBase128Int_canonical by blast+
    then show ?thesis using b t True ds bs cls
      by (simp add: appendTagAndLength_eq wf_header_def)
  next
    case False
    then have "tl_tag t = ?n mod 32" "ds = cs" "?n mod 32 < 31"
      using tag mod_less_divisor [of 32 ?n] by linarith+
    then show ?thesis using b t ds bs cls
      by (simp add: appendTagAndLength_eq wf_header_def)
  qed
  then show "bs = appendTagAndLength t @ rest" "wf_header t" by auto
qed

subsection \<open>Raw values: the codec\<close>

text \<open>
  \<open>tlv\<close> is the DER encoding of one element, \<open>raw_of\<close> the \<open>RawValue\<close> it decodes to.  Everything
  \<open>Unmarshal\<close> accepts is a \<open>tlv\<close> followed by the rest of the input, so a decoded raw value marshals
  back to the very bytes it was read from.
\<close>

definition tlv :: "nat \<Rightarrow> nat \<Rightarrow> bool \<Rightarrow> bytes \<Rightarrow> bytes" where
  "tlv cls tag compound body =
     appendTagAndLength \<lparr>tl_class = cls, tl_tag = tag, tl_length = length body,
       tl_compound = compound\<rparr> @ body"

definition raw_of :: "nat \<Rightarrow> nat \<Rightarrow> bool \<Rightarrow> bytes \<Rightarrow> raw_value" where
  "raw_of cls tag compound body =
     \<lparr>rv_Class = cls, rv_Tag = tag, rv_IsCompound = compound, rv_Bytes = Some body,
      rv_FullBytes = Some (tlv cls tag compound body)\<rparr>"

definition wf_tlv :: "nat \<Rightarrow> nat \<Rightarrow> bytes \<Rightarrow> bool" where
  "wf_tlv cls tag body \<longleftrightarrow> cls < 4 \<and> tag \<le> 2147483647 \<and> length body < 2 ^ 31"

lemma raw_of_sel [simp]:
  "rv_Class (raw_of c t k body) = c" "rv_Tag (raw_of c t k body) = t"
  "rv_IsCompound (raw_of c t k body) = k" "rv_Bytes (raw_of c t k body) = Some body"
  "rv_FullBytes (raw_of c t k body) = Some (tlv c t k body)"
  by (simp_all add: raw_of_def)

lemma length_octets_not_Nil [simp]: "length_octets n \<noteq> []"
  by (simp add: length_octets_def)

lemma appendTagAndLength_not_Nil [simp]: "appendTagAndLength t \<noteq> []"
  by (simp add: appendTagAndLength_def Let_def)

lemma tlv_not_Nil [simp]: "tlv c t k body \<noteq> []"
  by (simp add: tlv_def)

lemma take_element_tlv:
  "take_element (tlv c t k body @ rest) \<lparr>tl_class = c, tl_tag = t, tl_length = length body, tl_compound = k\<rparr>
     (body @ rest) = Ok (raw_of c t k body, rest)"
  by (simp add: take_element_def raw_of_def Let_def)

lemma unmarshal_raw_tlv [simp]:
  assumes "wf_tlv c t body"
  shows "unmarshal_raw (tlv c t k body @ rest) = Ok (raw_of c t k body, rest)"
proof -
  let ?t = "\<lparr>tl_class = c, tl_tag = t, tl_length = length body, tl_compound = k\<rparr>"
  have "parseTagAndLength (tlv c t k body @ rest) = Ok (?t, body @ rest)"
    using assms unfolding tlv_def append_assoc
    by (intro parseTagAndLength_append) (simp add: wf_header_def wf_tlv_def)
  then show ?thesis by (simp add: unmarshal_raw_def take_element_tlv)
qed

lemma unmarshal_raw_canonical:
  assumes "unmarshal_raw bs = Ok (rv, rest)"
  obtains c t k body where "bs = tlv c t k body @ rest" "rv = raw_of c t k body" "wf_tlv c t body"
proof -
  from assms obtain t inner where hdr: "parseTagAndLength bs = Ok (t, inner)"
    and el: "take_element bs t inner = Ok (rv, rest)"
    by (auto simp: unmarshal_raw_def outcome_simps split: if_splits)
  let ?body = "take (tl_length t) inner"
  have bs: "bs = appendTagAndLength t @ inner" and wf: "wf_header t"
    using parseTagAndLength_canonical [OF hdr] .
  have len: "length ?body = tl_length t" and rest: "rest = drop (tl_length t) inner"
    using el by (auto simp: take_element_def Let_def split: if_splits)
  have t: "t = \<lparr>tl_class = tl_class t, tl_tag = tl_tag t, tl_length = length ?body,
      tl_compound = tl_compound t\<rparr>"
    using len by simp
  have bs': "bs = tlv (tl_class t) (tl_tag t) (tl_compound t) ?body @ rest"
    using bs rest t unfolding tlv_def by (metis append_assoc append_take_drop_id)
  moreover have "rv = raw_of (tl_class t) (tl_tag t) (tl_compound t) ?body"
  proof -
    have "take_element bs t inner
        = Ok (raw_of (tl_class t) (tl_tag t) (tl_compound t) ?body, rest)"
      using bs' t rest take_element_tlv by (metis append_take_drop_id)
    then show ?thesis using el by simp
  qed
  moreover have "wf_tlv (tl_class t) (tl_tag t) ?body"
    using wf len by (simp add: wf_tlv_def wf_header_def)
  ultimately show ?thesis using that by blast
qed

lemma marshal_raw_raw_of [simp]: "marshal_raw (raw_of c t k body) = tlv c t k body"
  by (simp add: marshal_raw_def)

lemma marshal_raw_fresh:
  "elems (rv_FullBytes rv) = [] \<Longrightarrow>
   marshal_raw rv = tlv (rv_Class rv) (rv_Tag rv) (rv_IsCompound rv) (elems (rv_Bytes rv))"
  by (simp add: marshal_raw_def tlv_def)

lemma marshal_unmarshal_raw: "unmarshal_raw bs = Ok (rv, rest) \<Longrightarrow> marshal_raw rv @ rest = bs"
  by (auto elim!: unmarshal_raw_canonical)

lemma unmarshal_raw_shorter: "unmarshal_raw bs = Ok (rv, rest) \<Longrightarrow> length rest < length bs"
  by (auto elim!: unmarshal_raw_canonical)

lemma unmarshal_raw_not_panics [simp]: "unmarshal_raw bs \<noteq> Panic p"
proof -
  have loop: "parseBase128Int_loop s a xs \<noteq> Panic p" for s a xs
    by (induction s a xs rule: parseBase128Int_loop.induct) (auto simp: Let_def)
  have octs: "parse_length_octets k l xs \<noteq> Panic p" for k l xs
    by (induction k l xs rule: parse_length_octets.induct) (auto simp: Let_def)
  have "parse_length xs \<noteq> Panic p" for xs
    by (cases xs) (auto simp: outcome_simps octs split: prod.splits)
  then have "parseTagAndLength xs \<noteq> Panic p" for xs
    by (cases xs) (auto simp: outcome_simps loop parseBase128Int_def split: prod.splits)
  then show ?thesis
    by (auto simp: unmarshal_raw_def take_element_def outcome_simps Let_def split: prod.splits)
qed

end
