(* ===== verification/Ber.thy ===== *)
theory Ber
  imports Go_Asn1
begin

text \<open>
  \<open>ietf-cms/protocol/ber.go\<close>: transcoding BER to DER.  \<open>readObject\<close> reads one element into a tree of
  \<open>asn1Object\<close>s, \<open>encodeTo\<close> writes a tree with minimal definite lengths, \<open>BER2DER\<close> composes the two.
  Every indexing \<open>ber[offset]\<close> is a \<open>byte_at\<close> that panics out of range, as in the source.  Offsets
  are \<open>nat\<close>: a length is below \<open>2 ^ 31\<close> (at most four octets, the first at most \<open>0x7F\<close> when there
  are four), so \<open>offset + length\<close> cannot wrap in Go's 64-bit \<open>int\<close>.  The package counter
  \<open>encodeIndent\<close>, read only by commented-out tracing, is left out.
\<close>

subsection \<open>Writing\<close>

datatype asn1Object =
    asn1Primitive (tagBytes: bytes) (obj_length: nat) (obj_content: bytes)
  | asn1Structured (tagBytes: bytes) (sub_objects: "asn1Object list")

function lengthLength_loop :: "nat \<Rightarrow> nat \<Rightarrow> nat" where
  "lengthLength_loop numBytes i =
     (if i > 255 then lengthLength_loop (numBytes + 1) (drop_bit 8 i) else numBytes)"
  by pat_completeness auto
termination
  by (relation "measure snd") (auto simp: drop_bit_eq_div)

declare lengthLength_loop.simps [simp del]

definition lengthLength :: "nat \<Rightarrow> nat" where
  "lengthLength i = lengthLength_loop 1 i"

fun marshalLongLength_loop :: "bytes \<Rightarrow> nat \<Rightarrow> nat \<Rightarrow> bytes" where
  "marshalLongLength_loop out i 0 = out"
| "marshalLongLength_loop out i (Suc n) =
     marshalLongLength_loop (out @ [octet (drop_bit (n * 8) i)]) i n"

definition marshalLongLength :: "bytes \<Rightarrow> nat \<Rightarrow> bytes" where
  "marshalLongLength out i = marshalLongLength_loop out i (lengthLength i)"

definition encodeLength :: "bytes \<Rightarrow> nat \<Rightarrow> bytes" where
  "encodeLength out len =
     (if len \<ge> 128
      then marshalLongLength (out @ [0x80 OR octet (lengthLength len)]) len
      else out @ [octet len])"

fun encodeTo :: "asn1Object \<Rightarrow> bytes \<Rightarrow> bytes" where
  "encodeTo (asn1Structured tag content) out =
     (let inner = fold encodeTo content [] in encodeLength (out @ tag) (length inner) @ inner)"
| "encodeTo (asn1Primitive tag len content) out = encodeLength (out @ tag) len @ content"

subsection \<open>Reading\<close>

text \<open>The multi-octet tag loop.  The byte arithmetic on \<open>tag\<close> wraps; its value is never used.\<close>

function readTag_loop :: "bytes \<Rightarrow> byte \<Rightarrow> nat \<Rightarrow> (byte \<times> nat) outcome" where
  "readTag_loop ber tag offset =
     obind (byte_at ber offset) (\<lambda>b.
       if b \<ge> 0x80 then readTag_loop ber (tag * 128 + b - 0x80) (offset + 1)
       else Ok (tag * 128 + b - 0x80, offset + 1))"
  by pat_completeness auto
termination
  by (relation "measure (\<lambda>(ber, tag, offset). length ber - offset)") (auto simp: outcome_simps)

declare readTag_loop.simps [simp del]

fun readLength_loop :: "bytes \<Rightarrow> nat \<Rightarrow> nat \<Rightarrow> nat \<Rightarrow> (nat \<times> nat) outcome" where
  "readLength_loop ber 0 len offset = Ok (len, offset)"
| "readLength_loop ber (Suc n) len offset =
     obind (byte_at ber offset) (\<lambda>b. readLength_loop ber n (len * 256 + unat b) (offset + 1))"

text \<open>Length octets: the length, whether the form is indefinite, and the offset of the content.\<close>

definition readLength :: "bytes \<Rightarrow> nat \<Rightarrow> (nat \<times> bool \<times> nat) outcome" where
  "readLength ber offset =
     obind (byte_at ber offset) (\<lambda>l.
       let offset = offset + 1 in
       if l > 0x80 then
         let numberOfBytes = unat (l AND 0x7F) in
         if numberOfBytes > 4 then Err (ASN1Error ''ber2der: BER tag length too long'')
         else obind (if numberOfBytes = 4
                     then obind (byte_at ber offset) (\<lambda>b. Ok (unat b > 0x7F)) else Ok False)
           (\<lambda>negative.
             if negative then Err (ASN1Error ''ber2der: BER tag length is negative'')
             else obind (byte_at ber offset) (\<lambda>b.
               if b = 0 then Err (ASN1Error ''ber2der: BER tag length has leading zero'')
               else obind (readLength_loop ber numberOfBytes 0 offset) (\<lambda>(len, offset).
                 Ok (len, False, offset))))
       else if l = 0x80 then Ok (0, True, offset)
       else Ok (unat l, False, offset))"

definition isIndefiniteTermination :: "bytes \<Rightarrow> nat \<Rightarrow> bool outcome" where
  "isIndefiniteTermination ber offset =
     (if int (length ber) - int offset < 2 then Err (ASN1Error ''ber2der: Invalid BER format'')
      else Ok (take 2 (drop offset ber) = [0, 0]))"

text \<open>Identifier and length octets of the element at \<open>offset\<close>: where its tag ends, the
  constructed bit, and the result of \<open>readLength\<close>.\<close>

definition readHeader :: "bytes \<Rightarrow> nat \<Rightarrow> (nat \<times> byte \<times> nat \<times> bool \<times> nat) outcome" where
  "readHeader ber offset =
     obind (byte_at ber offset) (\<lambda>b.
       let offset = offset + 1; tag = b AND 0x1F in
       obind (if tag = 0x1F then readTag_loop ber 0 offset else Ok (tag, offset))
         (\<lambda>(tag, tagEnd).
           obind (readLength ber tagEnd) (\<lambda>(len, indefinite, offset).
             Ok (tagEnd, b AND 0x20, len, indefinite, offset))))"

lemma readTag_loop_Ok:
  "readTag_loop ber tag offset = Ok (tag', offset') \<Longrightarrow> offset < offset' \<and> offset' \<le> length ber"
proof (induction ber tag offset rule: readTag_loop.induct)
  case (1 ber tag offset)
  then show ?case
    by (subst (asm) readTag_loop.simps) (fastforce simp: outcome_simps split: if_splits)
qed

lemma readLength_loop_Ok:
  "readLength_loop ber n len offset = Ok (len', offset') \<Longrightarrow> offset \<le> length ber \<Longrightarrow>
   offset' = offset + n \<and> offset' \<le> length ber
     \<and> len' = len * 256 ^ n + be_value (subslice ber offset offset')"
proof (induction ber n len offset rule: readLength_loop.induct)
  case (2 ber n len offset)
  then have off: "offset < length ber"
    and loop: "readLength_loop ber n (len * 256 + unat (ber ! offset)) (offset + 1) = Ok (len', offset')"
    by (auto simp: outcome_simps)
  with 2 have *: "offset' = offset + 1 + n" "offset' \<le> length ber"
    "len' = (len * 256 + unat (ber ! offset)) * 256 ^ n + be_value (subslice ber (offset + 1) offset')"
    by (auto simp: outcome_simps)
  have "subslice ber offset offset' = ber ! offset # subslice ber (offset + 1) offset'"
    using off *(1) by (simp add: subslice_def Cons_nth_drop_Suc [symmetric])
  moreover have "length (subslice ber (offset + 1) offset') = n"
    using * by (simp add: length_subslice)
  ultimately show ?case
    using * by (simp add: be_value_Cons algebra_simps)
qed (simp add: subslice_def)

lemma readLength_Ok:
  "readLength ber offset = Ok (len, indefinite, offset') \<Longrightarrow> offset < offset' \<and> offset' \<le> length ber"
  by (fastforce simp: readLength_def Let_def outcome_simps dest: readLength_loop_Ok split: if_splits)

lemma readHeader_Ok:
  "readHeader ber offset = Ok (tagEnd, kind, len, indefinite, offset') \<Longrightarrow>
   offset < tagEnd \<and> tagEnd < offset' \<and> offset' \<le> length ber"
  by (fastforce simp: readHeader_def Let_def outcome_simps
      dest: readLength_Ok readTag_loop_Ok split: if_splits)

function readObject :: "bytes \<Rightarrow> nat \<Rightarrow> (asn1Object \<times> nat) outcome"
  and readSubObjects :: "bytes \<Rightarrow> nat \<Rightarrow> nat \<Rightarrow> bool \<Rightarrow> asn1Object list \<Rightarrow> (asn1Object list \<times> nat) outcome"
where
  "readObject ber tagStart =
     obind (readHeader ber tagStart) (\<lambda>(tagEnd, kind, len, indefinite, offset).
       let contentEnd = offset + len in
       if contentEnd > length ber
       then Err (ASN1Error ''ber2der: BER tag length is more than available data'')
       else if indefinite \<and> kind = 0
       then Err (ASN1Error ''ber2der: Indefinite form tag must have constructed encoding'')
       else if kind = 0
       then Ok (asn1Primitive (subslice ber tagStart tagEnd) len (subslice ber offset contentEnd), contentEnd)
       else obind (readSubObjects ber offset contentEnd indefinite [])
         (\<lambda>(subObjects, offset).
           Ok (asn1Structured (subslice ber tagStart tagEnd) subObjects,
               if indefinite then offset + 2 else contentEnd)))"
| "readSubObjects ber offset contentEnd indefinite subObjects =
     (if offset < contentEnd \<or> indefinite
      then obind (readObject ber offset) (\<lambda>(subObj, offset).
        if indefinite
        then obind (isIndefiniteTermination ber offset) (\<lambda>terminated.
          if terminated then Ok (subObjects @ [subObj], offset)
          else readSubObjects ber offset contentEnd indefinite (subObjects @ [subObj]))
        else readSubObjects ber offset contentEnd indefinite (subObjects @ [subObj]))
      else Ok (subObjects, offset))"
  by pat_completeness auto

text \<open>Partial correctness first: every call that returns has moved forward.\<close>

lemma readObject_progress_partial:
  "readObject_readSubObjects_dom (Inl (ber, offset)) \<Longrightarrow>
     readObject ber offset = Ok (obj, offset') \<Longrightarrow> offset < length ber \<and> offset + 2 \<le> offset'"
  "readObject_readSubObjects_dom (Inr (ber, offset, contentEnd, indefinite, subs)) \<Longrightarrow>
     readSubObjects ber offset contentEnd indefinite subs = Ok (subs', offset') \<Longrightarrow> offset \<le> offset'"
proof (induction arbitrary: obj offset' and subs' offset' rule: readObject_readSubObjects.pinduct)
  case (1 ber tagStart)
  from "1.prems" obtain tagEnd kind len indefinite off
    where hdr: "readHeader ber tagStart = Ok (tagEnd, kind, len, indefinite, off)"
    by (auto simp: readObject.psimps [OF "1.hyps"] outcome_simps)
  then have "tagStart < tagEnd" "tagEnd < off" "off \<le> length ber"
    using readHeader_Ok by blast+
  moreover have "off \<le> offset'"
    using "1.prems" hdr "1.IH" [OF hdr refl refl refl refl refl]
    by (fastforce simp: readObject.psimps [OF "1.hyps"] outcome_simps Let_def split: if_splits)
  ultimately show ?case by linarith
next
  case (2 ber offset contentEnd indefinite subObjects)
  then show ?case
    by (fastforce simp: readSubObjects.psimps outcome_simps split: if_splits)
qed

termination readObject
proof (relation "measure (\<lambda>x. case x of
      Inl (ber, offset) \<Rightarrow> 2 * (length ber + 1 - offset)
    | Inr (ber, offset, _) \<Rightarrow> 2 * (length ber + 1 - offset) + 1)", goal_cases)
  case 1
  show ?case by simp
next
  case (2 ber tagStart)
  then show ?case by (auto dest!: readHeader_Ok)
next
  case (3 ber offset)
  then show ?case by simp
next
  case (4 ber offset)
  then show ?case by (auto dest!: readObject_progress_partial(1))
next
  case (5 ber offset)
  then show ?case by (auto dest!: readObject_progress_partial(1))
qed

declare readObject.simps [simp del] readSubObjects.simps [simp del]

lemma readObject_forward:
  "readObject ber offset = Ok (obj, offset') \<Longrightarrow> offset < length ber \<and> offset + 2 \<le> offset'"
  "readSubObjects ber offset contentEnd indefinite subs = Ok (subs', offset') \<Longrightarrow> offset \<le> offset'"
proof (induction ber offset and ber offset contentEnd indefinite subs
    arbitrary: obj offset' and subs' offset' rule: readObject_readSubObjects.induct)
  case (1 ber tagStart)
  from "1.prems" obtain tagEnd kind len indefinite off
    where hdr: "readHeader ber tagStart = Ok (tagEnd, kind, len, indefinite, off)"
    by (auto simp: readObject.simps [of ber] outcome_simps)
  then have "tagStart < tagEnd" "tagEnd < off" "off \<le> length ber"
    using readHeader_Ok by blast+
  moreover have "off \<le> offset'"
    using "1.prems" hdr "1.IH" [OF hdr refl refl refl refl refl]
    by (fastforce simp: readObject.simps [of ber] outcome_simps Let_def split: if_splits)
  ultimately show ?case by linarith
next
  case (2 ber offset contentEnd indefinite subObjects)
  then show ?case
    by (fastforce simp: readSubObjects.simps [of ber offset] outcome_simps split: if_splits)
qed

text \<open>The lengths of Go are \<open>int\<close>s: a buffer that would outgrow them panics.\<close>

definition max_int :: int where
  "max_int = 9223372036854775807"

definition BER2DER :: "bytes \<Rightarrow> bytes outcome" where
  "BER2DER ber =
     (if length ber = 0 then Err (ASN1Error ''ber2der: input ber is empty'')
      else obind (readObject ber 0) (\<lambda>(obj, _).
        let out = encodeTo obj [] in
        if int (length out) > max_int then Panic (PanicMsg ''bytes.Buffer: too large'') else Ok out))"

lemma BER2DER_readObject:
  assumes "readObject ber 0 = Ok (obj, offset)" "length (encodeTo obj []) < 2 ^ 63" "ber \<noteq> []"
  shows "BER2DER ber = Ok (encodeTo obj [])"
  using assms by (simp add: BER2DER_def max_int_def)

subsection \<open>Minimal lengths\<close>

lemma lengthLength_loop_eq: "lengthLength_loop k i = k + length (be_bytes i) - 1"
proof (induction k i rule: lengthLength_loop.induct)
  case (1 k i)
  have "0 < length (be_bytes (i div 256))" by simp
  with 1 show ?case
    by (subst lengthLength_loop.simps, subst be_bytes.simps)
      (simp add: drop_bit_eq_div del: length_greater_0_conv)
qed

lemma lengthLength_eq: "lengthLength i = length (be_bytes i)"
  by (simp add: lengthLength_def lengthLength_loop_eq)

lemma octet_shift_append:
  "be_bytes i = map (\<lambda>k. octet (drop_bit (k * 8) i)) (rev [0..<length (be_bytes i)])"
proof (induction i rule: be_bytes.induct)
  case (1 i)
  show ?case
  proof (cases "i < 256")
    case True
    then show ?thesis by (simp add: be_bytes_small)
  next
    case False
    let ?n = "length (be_bytes (i div 256))"
    have "drop_bit (k * 8) (i div 256) = drop_bit (Suc k * 8) i" for k
      by (simp add: drop_bit_eq_div div_mult2_eq [symmetric] power_add)
    then have "be_bytes (i div 256) = map (\<lambda>k. octet (drop_bit (k * 8) i)) (rev (map Suc [0..<?n]))"
      using 1 False by (simp add: rev_map o_def)
    moreover have "rev [0..<Suc ?n] = rev (map Suc [0..<?n]) @ [0]"
      by (simp add: map_Suc_upt upt_conv_Cons del: upt_Suc)
    ultimately show ?thesis using False by (simp add: be_bytes_large del: upt_Suc)
  qed
qed

lemma marshalLongLength_loop_eq:
  "marshalLongLength_loop out i n = out @ map (\<lambda>k. octet (drop_bit (k * 8) i)) (rev [0..<n])"
  by (induction n arbitrary: out) simp_all

lemma marshalLongLength_eq: "marshalLongLength out i = out @ be_bytes i"
  using octet_shift_append [of i]
  by (simp add: marshalLongLength_def marshalLongLength_loop_eq lengthLength_eq)

lemma set_high_bit: "n < 128 \<Longrightarrow> 0x80 OR octet n = octet (128 + n)"
proof (rule byte_eqI_unat)
  assume n: "n < 128"
  have "bit (128 :: nat) k \<longleftrightarrow> k = 7" for k
    using bit_exp_iff [of 7 k, where 'a = nat] by simp
  moreover have "\<not> bit n 7" using n by (simp add: bit_iff_odd)
  ultimately have "128 OR n = 128 + n"
    by (intro disjunctive_add [symmetric]) auto
  then show "unat (0x80 OR octet n) = unat (octet (128 + n))"
    using n by (simp add: unsigned_or_eq)
qed

text \<open>\<open>encodeLength\<close> writes exactly the shortest DER length octets, for every length of a Go slice.\<close>

lemma encodeLength_eq:
  assumes "len < 2 ^ 63"
  shows "encodeLength out len = out @ length_octets len"
proof -
  have "length (be_bytes len) \<le> 8" using assms by (intro length_be_bytes_le) simp_all
  then show ?thesis
    by (simp add: encodeLength_def length_octets_def marshalLongLength_eq lengthLength_eq set_high_bit)
qed

end
