(* ===== verification/Ber_Spec.thy ===== *)
theory Ber_Spec
  imports Ber
begin

text \<open>
  What \<open>BER2DER\<close> promises.  \<open>ber_encodes bs obj\<close> is the X.690 relation "\<open>bs\<close> is a BER encoding of
  the tree \<open>obj\<close>" for what the code supports: primitive, definite constructed (minimal or long-form
  lengths up to four octets without a leading zero) or indefinite constructed with at least one element.
  \<open>der obj\<close> is the DER encoding.  \<open>BER2DER\<close> maps such an encoding of a tree to its DER encoding; what it returns is well formed, and running it again changes nothing.
\<close>

subsection \<open>The specification\<close>

fun der :: "asn1Object \<Rightarrow> bytes" where
  "der (asn1Primitive tag len content) = tag @ length_octets len @ content"
| "der (asn1Structured tag content) =
     tag @ length_octets (length (concat (map der content))) @ concat (map der content)"

definition wf_tag :: "bytes \<Rightarrow> bool \<Rightarrow> bool" where
  "wf_tag tag constructed \<longleftrightarrow> tag \<noteq> [] \<and> (hd tag AND 0x20 \<noteq> 0) = constructed \<and>
     (if hd tag AND 0x1F = 0x1F
      then length tag \<ge> 2 \<and> last tag < 0x80 \<and> (\<forall>b \<in> set (butlast (tl tag)). b \<ge> 0x80)
      else length tag = 1)"

definition ber_length :: "bytes \<Rightarrow> nat \<Rightarrow> bool" where
  "ber_length ls n \<longleftrightarrow> (n < 128 \<and> ls = [octet n]) \<or>
     (\<exists>bs. ls = octet (128 + length bs) # bs \<and> bs \<noteq> [] \<and> length bs \<le> 4 \<and> hd bs \<noteq> 0
        \<and> (length bs = 4 \<longrightarrow> unat (hd bs) < 128) \<and> n = be_value bs)"

abbreviation end_of_contents :: asn1Object where
  "end_of_contents \<equiv> asn1Primitive [0] 0 []"

inductive ber_encodes :: "bytes \<Rightarrow> asn1Object \<Rightarrow> bool"
  and ber_encodes_all :: "bytes \<Rightarrow> asn1Object list \<Rightarrow> bool"
where
  primitive: "wf_tag tag False \<Longrightarrow> ber_length ls (length content) \<Longrightarrow>
     ber_encodes (tag @ ls @ content) (asn1Primitive tag (length content) content)"
| definite: "wf_tag tag True \<Longrightarrow> ber_encodes_all body objs \<Longrightarrow> ber_length ls (length body) \<Longrightarrow>
     ber_encodes (tag @ ls @ body) (asn1Structured tag objs)"
| indefinite: "wf_tag tag True \<Longrightarrow> ber_encodes_all body objs \<Longrightarrow> objs \<noteq> [] \<Longrightarrow>
     end_of_contents \<notin> set objs \<Longrightarrow> ber_encodes (tag @ [0x80] @ body @ [0, 0]) (asn1Structured tag objs)"
| none: "ber_encodes_all [] []"
| more: "ber_encodes bs obj \<Longrightarrow> ber_encodes_all body objs \<Longrightarrow> ber_encodes_all (bs @ body) (obj # objs)"

text \<open>The trees \<open>readObject\<close> builds.\<close>

fun wf_object :: "asn1Object \<Rightarrow> bool" where
  "wf_object (asn1Primitive tag len content) \<longleftrightarrow> wf_tag tag False \<and> len = length content \<and> len < 2 ^ 31"
| "wf_object (asn1Structured tag content) \<longleftrightarrow> wf_tag tag True \<and> (\<forall>obj \<in> set content. wf_object obj)"

subsection \<open>Writing is DER\<close>

lemma encodeLength_append: "encodeLength (out @ tag) len = out @ encodeLength tag len"
  by (simp add: encodeLength_def marshalLongLength_eq)

lemma fold_append_eq:
  "(\<And>x out. x \<in> set xs \<Longrightarrow> f x out = out @ g x) \<Longrightarrow> fold f xs out = out @ concat (map g xs)"
  by (induction xs arbitrary: out) simp_all

lemma encodeTo_append: "encodeTo obj out = out @ encodeTo obj []"
proof (induction obj arbitrary: out)
  case (asn1Structured tag content)
  show ?case by (simp add: Let_def encodeLength_append)
qed (simp add: encodeLength_append)

lemma encodeTo_Structured:
  "encodeTo (asn1Structured tag content) [] =
     encodeLength tag (length (concat (map (\<lambda>obj. encodeTo obj []) content)))
       @ concat (map (\<lambda>obj. encodeTo obj []) content)"
  using fold_append_eq [of content encodeTo "\<lambda>obj. encodeTo obj []" "[]", OF encodeTo_append]
  by (simp add: Let_def)

fun small_object :: "asn1Object \<Rightarrow> bool" where
  "small_object (asn1Primitive tag len content) \<longleftrightarrow> len < 2 ^ 63"
| "small_object (asn1Structured tag content) \<longleftrightarrow>
     length (concat (map der content)) < 2 ^ 63 \<and> (\<forall>obj \<in> set content. small_object obj)"

lemma encodeTo_der: "small_object obj \<Longrightarrow> encodeTo obj [] = der obj"
proof (induction obj)
  case (asn1Structured tag content)
  then have "map (\<lambda>obj. encodeTo obj []) content = map der content" by simp
  with asn1Structured.prems show ?case
    by (simp only: encodeTo_Structured) (simp add: encodeLength_eq)
qed (simp add: encodeLength_eq)

lemma length_der_le: "obj \<in> set objs \<Longrightarrow> length (der obj) \<le> length (concat (map der objs))"
  by (induction objs) auto

lemma small_object_der: "wf_object obj \<Longrightarrow> length (der obj) < 2 ^ 63 \<Longrightarrow> small_object obj"
proof (induction obj)
  case (asn1Structured tag content)
  then have "length (concat (map der content)) < 2 ^ 63" by simp
  moreover have "length (der obj) < 2 ^ 63" if "obj \<in> set content" for obj
    using length_der_le [OF that] \<open>length (concat (map der content)) < 2 ^ 63\<close> by linarith
  ultimately show ?case using asn1Structured by simp
qed simp

lemma wf_encodeTo_der: "wf_object obj \<Longrightarrow> length (der obj) < 2 ^ 63 \<Longrightarrow> encodeTo obj [] = der obj"
  by (intro encodeTo_der small_object_der)

subsection \<open>Reading a header\<close>

lemma readTag_loop_complete:
  "\<forall>b \<in> set xs. b \<ge> 0x80 \<Longrightarrow> c < 0x80 \<Longrightarrow>
   \<exists>tag'. readTag_loop (pre @ xs @ c # post) tag (length pre) = Ok (tag', length pre + length xs + 1)"
proof (induction xs arbitrary: pre tag)
  case Nil
  then show ?case by (subst readTag_loop.simps) (auto simp: not_le)
next
  case (Cons x xs)
  obtain tag' where "readTag_loop ((pre @ [x]) @ xs @ c # post) (tag * 128 + x - 0x80) (length (pre @ [x]))
      = Ok (tag', length (pre @ [x]) + length xs + 1)"
    using Cons by (meson list.set_intros(2))
  then show ?case using Cons.prems by (subst readTag_loop.simps) simp
qed

lemma readLength_loop_complete:
  "readLength_loop (pre @ xs @ post) (length xs) len (length pre)
     = Ok (len * 256 ^ length xs + be_value xs, length pre + length xs)"
proof (induction xs arbitrary: pre len)
  case (Cons x xs)
  from Cons [of "pre @ [x]" "len * 256 + unat x"] show ?case
    by (simp add: be_value_Cons algebra_simps)
qed simp

lemma unat_and_7F: "unat (b AND (0x7F :: byte)) = unat b mod 128"
proof -
  have "b AND 0x7F = take_bit 7 b"
    by (simp only: take_bit_eq_mask) (simp add: mask_eq_exp_minus_1)
  then show ?thesis by (simp only: unsigned_take_bit_eq) (simp add: take_bit_eq_mod)
qed

lemma byte_less_iff: "v < w \<longleftrightarrow> unat (v :: byte) < unat w"
  by (simp add: word_less_nat_alt)

lemma readLength_complete:
  assumes "ber_length ls n"
  shows "readLength (pre @ ls @ post) (length pre) = Ok (n, False, length pre + length ls)"
  using assms unfolding ber_length_def
proof (elim disjE conjE exE)
  assume "n < 128" "ls = [octet n]"
  then show ?thesis
    by (auto simp: readLength_def Let_def byte_less_iff dest: arg_cong [where f = unat])
next
  fix bs
  assume ls: "ls = octet (128 + length bs) # bs" and bs: "bs \<noteq> []" "length bs \<le> 4" "hd bs \<noteq> 0"
    "length bs = 4 \<longrightarrow> unat (hd bs) < 128" and n: "n = be_value bs"
  let ?l = "octet (128 + length bs)" and ?pre = "pre @ [octet (128 + length bs)]"
  let ?ber = "pre @ ls @ post"
  have l: "unat ?l = 128 + length bs" using bs by (intro unat_octet_small) simp
  obtain b ds where b: "bs = b # ds" using bs by (cases bs) auto
  have at: "byte_at ?ber (length pre) = Ok ?l" "byte_at ?ber (length pre + 1) = Ok b"
    by (simp_all add: ls b byte_at_def nth_append)
  have loop: "readLength_loop ?ber (length bs) 0 (length pre + 1) = Ok (n, length pre + length ls)"
    using readLength_loop_complete [of ?pre bs post 0] by (simp add: ls n)
  have "0x80 < ?l" using l bs by (simp add: byte_less_iff)
  define k where "k = length bs"
  have k: "unat (?l AND 0x7F) = k" "k \<le> 4" "k = 4 \<longrightarrow> unat b < 128" "b \<noteq> 0"
    using l bs(2-4) b by (simp_all add: unat_and_7F le_mod_geq k_def)
  show ?thesis
    using \<open>0x80 < ?l\<close> at k loop [folded k_def]
    by (cases "k = 4") (simp_all add: readLength_def)
qed

lemma wf_tag_multi:
  assumes "wf_tag tag constructed" "hd tag AND 0x1F = 0x1F"
  obtains b xs c where "tag = b # xs @ [c]" "\<forall>x \<in> set xs. x \<ge> 0x80" "c < 0x80"
proof -
  from assms have "length tag \<ge> 2" by (simp add: wf_tag_def)
  then obtain b ts where tag: "tag = b # ts" and "ts \<noteq> []" by (cases tag; cases "tl tag") auto
  then show ?thesis
    using assms that [of b "butlast ts" "last ts"] by (simp add: wf_tag_def)
qed

lemma readHeader_complete:
  assumes "wf_tag tag constructed" "ber_length ls n \<or> ls = [0x80]"
  shows "readHeader (pre @ tag @ ls @ post) (length pre) =
    Ok (length pre + length tag, hd tag AND 0x20, if ls = [0x80] then 0 else n, ls = [0x80],
        length pre + length tag + length ls)"
proof -
  let ?ber = "pre @ tag @ ls @ post"
  have b: "byte_at ?ber (length pre) = Ok (hd tag)"
    using assms by (cases tag) (auto simp: wf_tag_def)
  have "\<exists>t. (if hd tag AND 0x1F = 0x1F then readTag_loop ?ber 0 (length pre + 1)
      else Ok (hd tag AND 0x1F, length pre + 1)) = Ok (t, length (pre @ tag))"
  proof (cases "hd tag AND 0x1F = 0x1F")
    case True
    then obtain b xs c where tag: "tag = b # xs @ [c]" "\<forall>x \<in> set xs. x \<ge> 0x80" "c < 0x80"
      using assms wf_tag_multi by blast
    then obtain t where "readTag_loop ((pre @ [b]) @ xs @ c # (ls @ post)) 0 (length (pre @ [b]))
        = Ok (t, length (pre @ [b]) + length xs + 1)"
      using readTag_loop_complete by blast
    then show ?thesis using True tag by simp
  next
    case False
    then show ?thesis using assms by (simp add: wf_tag_def)
  qed
  then obtain t where t: "(if hd tag AND 0x1F = 0x1F then readTag_loop ?ber 0 (length pre + 1)
      else Ok (hd tag AND 0x1F, length pre + 1)) = Ok (t, length (pre @ tag))" ..
  have "readLength ((pre @ tag) @ ls @ post) (length (pre @ tag)) =
    Ok (if ls = [0x80] then 0 else n, ls = [0x80], length (pre @ tag) + length ls)"
  proof (cases "ls = [0x80]")
    case True
    then show ?thesis by (simp add: readLength_def Let_def byte_at_def nth_append)
  next
    case False
    then show ?thesis using assms readLength_complete [of ls n "pre @ tag" post] by simp
  qed
  then show ?thesis
    by (simp only: readHeader_def b t obind.simps Let_def prod.case length_append append_assoc)
qed

subsection \<open>Every BER encoding is read\<close>

lemma wf_tag_kind: "wf_tag tag constructed \<Longrightarrow> (hd tag AND 0x20 = 0) \<longleftrightarrow> \<not> constructed"
  by (auto simp: wf_tag_def)

lemma indefinite_octet_not_length: "\<not> ber_length [0x80] n"
  by (auto simp: ber_length_def byte_less_iff dest!: arg_cong [where f = unat])

text \<open>An element that starts with two zero octets is the end-of-contents marker itself.\<close>

lemma ber_encodes_length: "ber_encodes bs obj \<Longrightarrow> 2 \<le> length bs"
  by (auto elim!: ber_encodes.cases simp: wf_tag_def ber_length_def Suc_le_eq split: if_splits)

lemma ber_length_hd_0: "ber_length ls n \<Longrightarrow> hd ls = 0 \<Longrightarrow> n = 0 \<and> ls = [0]"
proof -
  assume ls: "ber_length ls n" "hd ls = 0"
  have "octet (128 + k) \<noteq> 0" if "k \<le> 4" for k :: nat
    using octet_eq_iff [of "128 + k" 0] that by simp
  with ls show ?thesis
    using octet_eq_iff [of n 0] by (auto simp: ber_length_def)
qed

lemma ber_encodes_eoc: "ber_encodes bs obj \<Longrightarrow> take 2 bs = [0, 0] \<Longrightarrow> obj = end_of_contents"
proof (erule ber_encodes.cases)
  fix tag ls content
  assume *: "bs = tag @ ls @ content" "obj = asn1Primitive tag (length content) content"
    "wf_tag tag False" "ber_length ls (length content)" "take 2 bs = [0, 0]"
  then have tag: "tag = [0]" by (cases tag) (auto simp: wf_tag_def split: if_splits)
  moreover have "hd ls = 0" "ls \<noteq> []"
    using * tag by (cases ls; auto simp: ber_length_def)+
  ultimately show ?thesis using * ber_length_hd_0 [OF *(4)] by simp
qed (auto simp: wf_tag_def split: if_splits; case_tac tag; auto)+

inductive_cases ber_encodes_all_ConsE: "ber_encodes_all body (obj # objs)"
inductive_simps ber_encodes_all_Nil [simp]: "ber_encodes_all body []"

lemma isIndefiniteTermination_after:
  assumes "ber_encodes_all body objs" "end_of_contents \<notin> set objs"
  shows "isIndefiniteTermination (pre @ body @ [0, 0] @ post) (length pre) = Ok (objs = [])"
proof (cases objs)
  case Nil
  then show ?thesis using assms by (simp add: isIndefiniteTermination_def)
next
  case (Cons obj objs')
  then obtain bs body' where body: "body = bs @ body'" and bs: "ber_encodes bs obj"
    using assms by (auto elim: ber_encodes_all_ConsE)
  have "take 2 (body @ [0, 0] @ post) = take 2 bs"
    using ber_encodes_length [OF bs] by (simp add: body)
  moreover have "take 2 bs \<noteq> [0, 0]"
    using ber_encodes_eoc [OF bs] assms Cons by auto
  ultimately show ?thesis using Cons by (simp add: isIndefiniteTermination_def)
qed

definition reads_all :: "bytes \<Rightarrow> asn1Object list \<Rightarrow> bool" where
  "reads_all body objs \<longleftrightarrow>
     (\<forall>pre post acc. readSubObjects (pre @ body @ post) (length pre) (length pre + length body) False acc
        = Ok (acc @ objs, length pre + length body)) \<and>
     (objs \<noteq> [] \<and> end_of_contents \<notin> set objs \<longrightarrow>
        (\<forall>pre post e acc. readSubObjects (pre @ body @ [0, 0] @ post) (length pre) e True acc
           = Ok (acc @ objs, length pre + length body)))"

lemma reads_all_definite:
  "reads_all body objs \<Longrightarrow>
   readSubObjects (pre @ body @ post) (length pre) (length pre + length body) False acc
     = Ok (acc @ objs, length pre + length body)"
  by (auto simp: reads_all_def)

lemma reads_all_indefinite:
  "reads_all body objs \<Longrightarrow> objs \<noteq> [] \<Longrightarrow> end_of_contents \<notin> set objs \<Longrightarrow>
   readSubObjects (pre @ body @ [0, 0] @ post) (length pre) e True acc
     = Ok (acc @ objs, length pre + length body)"
  by (auto simp: reads_all_def)

lemma readObject_constructed:
  assumes "wf_tag tag True" "ber_length ls (length body)" "reads_all body objs"
  shows "readObject (pre @ (tag @ ls @ body) @ post) (length pre)
    = Ok (asn1Structured tag objs, length pre + length (tag @ ls @ body))"
proof -
  let ?ber = "pre @ (tag @ ls @ body) @ post"
  have "readHeader ?ber (length pre) = Ok (length pre + length tag, hd tag AND 0x20, length body, False,
      length pre + length tag + length ls)"
    using assms readHeader_complete [of tag True ls "length body" pre "body @ post"]
    by (auto simp: indefinite_octet_not_length)
  moreover have "readSubObjects ?ber (length pre + length tag + length ls)
      (length pre + length tag + length ls + length body) False []
    = Ok (objs, length pre + length tag + length ls + length body)"
    using reads_all_definite [OF assms(3), of "pre @ tag @ ls" post "[]"] by (simp add: add.assoc)
  ultimately show ?thesis
    using assms(1) by (subst readObject.simps) (simp add: Let_def wf_tag_kind add.assoc)
qed

lemma readObject_indefinite:
  assumes "wf_tag tag True" "reads_all body objs" "objs \<noteq> []" "end_of_contents \<notin> set objs"
  shows "readObject (pre @ (tag @ [0x80] @ body @ [0, 0]) @ post) (length pre)
    = Ok (asn1Structured tag objs, length pre + length (tag @ [0x80] @ body @ [0, 0]))"
proof -
  let ?ber = "pre @ (tag @ [0x80] @ body @ [0, 0]) @ post"
  have "readHeader ?ber (length pre) = Ok (length pre + length tag, hd tag AND 0x20, 0, True,
      length pre + length tag + 1)"
    using assms readHeader_complete [of tag True "[0x80]" 0 pre "body @ [0, 0] @ post"] by simp
  moreover have "readSubObjects ?ber (length pre + length tag + 1) (length pre + length tag + 1) True []
    = Ok (objs, length pre + length tag + 1 + length body)"
    using reads_all_indefinite [OF assms(2-4), of "pre @ tag @ [0x80]" post _ "[]"]
    by (simp add: add.assoc)
  ultimately show ?thesis
    using assms(1) by (subst readObject.simps) (simp add: Let_def wf_tag_kind add.assoc)
qed

lemma readObject_primitive:
  assumes "wf_tag tag False" "ber_length ls (length content)"
  shows "readObject (pre @ (tag @ ls @ content) @ post) (length pre)
    = Ok (asn1Primitive tag (length content) content, length pre + length (tag @ ls @ content))"
proof -
  let ?ber = "pre @ (tag @ ls @ content) @ post"
  have "readHeader ?ber (length pre) = Ok (length pre + length tag, hd tag AND 0x20, length content, False,
      length pre + length tag + length ls)"
    using assms readHeader_complete [of tag False ls "length content" pre "content @ post"]
    by (auto simp: indefinite_octet_not_length)
  moreover have "subslice ?ber (length pre + length tag + length ls)
      (length pre + length tag + length ls + length content) = content"
    using subslice_append_here [of "pre @ tag @ ls" content post] by (simp add: add.assoc)
  ultimately show ?thesis
    using assms(1) by (subst readObject.simps) (simp add: Let_def wf_tag_kind add.assoc)
qed

lemma reads_all_Nil: "reads_all [] []"
  by (simp add: reads_all_def readSubObjects.simps)

lemma reads_all_Cons:
  assumes bs: "ber_encodes bs obj" and body: "ber_encodes_all body objs" and IH: "reads_all body objs"
    and read: "\<And>pre post. readObject (pre @ bs @ post) (length pre) = Ok (obj, length pre + length bs)"
  shows "reads_all (bs @ body) (obj # objs)"
  unfolding reads_all_def
proof (intro conjI allI impI)
  fix pre post acc
  have "bs \<noteq> []" using ber_encodes_length [OF bs] by (cases bs) simp_all
  moreover have "readObject (pre @ (bs @ body) @ post) (length pre) = Ok (obj, length pre + length bs)"
    using read [of pre "body @ post"] by simp
  ultimately show "readSubObjects (pre @ (bs @ body) @ post) (length pre)
      (length pre + length (bs @ body)) False acc
    = Ok (acc @ obj # objs, length pre + length (bs @ body))"
    using reads_all_definite [OF IH, of "pre @ bs" post "acc @ [obj]"]
    by (subst readSubObjects.simps) (simp add: add.assoc)
next
  fix pre post e acc
  assume "obj # objs \<noteq> [] \<and> end_of_contents \<notin> set (obj # objs)"
  then have eoc: "end_of_contents \<notin> set objs" by simp
  let ?ber = "pre @ (bs @ body) @ [0, 0] @ post"
  have "readObject ?ber (length pre) = Ok (obj, length pre + length bs)"
    using read [of pre "body @ [0, 0] @ post"] by simp
  moreover have "isIndefiniteTermination ?ber (length pre + length bs) = Ok (objs = [])"
    using isIndefiniteTermination_after [OF body eoc, of "pre @ bs" post] by simp
  ultimately show "readSubObjects ?ber (length pre) e True acc
    = Ok (acc @ obj # objs, length pre + length (bs @ body))"
    using reads_all_indefinite [OF IH _ eoc, of "pre @ bs" post e "acc @ [obj]"] body
    by (cases "objs = []"; subst readSubObjects.simps) (simp_all add: add.assoc)
qed

lemma readObject_complete_aux:
  "ber_encodes bs obj \<Longrightarrow>
     (\<forall>pre post. readObject (pre @ bs @ post) (length pre) = Ok (obj, length pre + length bs))"
  "ber_encodes_all body objs \<Longrightarrow> reads_all body objs"
proof (induction rule: ber_encodes_ber_encodes_all.inducts)
  case primitive
  then show ?case by (blast intro: readObject_primitive)
next
  case definite
  then show ?case by (blast intro: readObject_constructed)
next
  case indefinite
  then show ?case by (blast intro: readObject_indefinite)
next
  case none
  show ?case by (rule reads_all_Nil)
next
  case more
  then show ?case by (blast intro: reads_all_Cons)
qed

lemma readObject_complete:
  "ber_encodes bs obj \<Longrightarrow> readObject (pre @ bs @ post) (length pre) = Ok (obj, length pre + length bs)"
  using readObject_complete_aux by blast

lemma BER2DER_of_encoding:
  assumes "ber_encodes bs obj" and "small_object obj" and "length (der obj) < 2 ^ 63"
  shows "BER2DER (bs @ junk) = Ok (der obj)"
proof -
  have "readObject (bs @ junk) 0 = Ok (obj, length bs)"
    using readObject_complete [OF assms(1), of "[]" junk] by simp
  moreover have "bs \<noteq> []" using ber_encodes_length [OF assms(1)] by auto
  ultimately show ?thesis
    using BER2DER_readObject [of "bs @ junk" obj "length bs"] assms(2,3) by (simp add: encodeTo_der)
qed

subsection \<open>What is read is well formed, and DER is a fixed point\<close>

lemma readTag_loop_octets:
  "readTag_loop ber tag offset = Ok (tag', offset') \<Longrightarrow>
   \<exists>xs c. subslice ber offset offset' = xs @ [c] \<and> (\<forall>x \<in> set xs. x \<ge> 0x80) \<and> c < 0x80"
proof (induction ber tag offset rule: readTag_loop.induct)
  case (1 ber tag offset)
  then have off: "offset < length ber"
    by (subst (asm) readTag_loop.simps) (auto simp: outcome_simps)
  have "offset < offset'" using readTag_loop_Ok "1.prems" by blast
  then have cons: "subslice ber offset offset' = ber ! offset # subslice ber (offset + 1) offset'"
    using off by (simp add: subslice_def Cons_nth_drop_Suc [symmetric] take_Cons')
  show ?case
  proof (cases "ber ! offset \<ge> 0x80")
    case True
    with "1.prems" off have "readTag_loop ber (tag * 128 + ber ! offset - 0x80) (offset + 1) = Ok (tag', offset')"
      by (subst (asm) readTag_loop.simps) (auto simp: outcome_simps)
    then obtain xs c where "subslice ber (offset + 1) offset' = xs @ [c]"
      "\<forall>x \<in> set xs. x \<ge> 0x80" "c < 0x80"
      using "1.IH" True off by (auto simp: byte_at_def)
    then show ?thesis using True cons by (intro exI [of _ "ber ! offset # xs"] exI [of _ c]) simp
  next
    case False
    with "1.prems" off have "offset' = offset + 1"
      by (subst (asm) readTag_loop.simps) (auto simp: outcome_simps)
    then show ?thesis using False cons
      by (intro exI [of _ "[]"] exI [of _ "ber ! offset"]) (simp add: subslice_def not_le)
  qed
qed

lemma readHeader_wf_tag:
  assumes "readHeader ber offset = Ok (tagEnd, kind, len, indefinite, offset')"
  shows "wf_tag (subslice ber offset tagEnd) (kind \<noteq> 0)"
proof -
  let ?b = "ber ! offset"
  from assms have off: "offset < length ber" and kind: "kind = ?b AND 0x20"
    and tag: "(?b AND 0x1F = 0x1F \<and> (\<exists>t. readTag_loop ber 0 (offset + 1) = Ok (t, tagEnd)))
      \<or> (?b AND 0x1F \<noteq> 0x1F \<and> tagEnd = offset + 1)"
    by (auto simp: readHeader_def Let_def outcome_simps split: if_splits)
  have "offset < tagEnd" using readHeader_Ok [OF assms] by simp
  then have cons: "subslice ber offset tagEnd = ?b # subslice ber (offset + 1) tagEnd"
    using off by (simp add: subslice_def Cons_nth_drop_Suc [symmetric] take_Cons')
  show ?thesis
  proof (cases "?b AND 0x1F = 0x1F")
    case True
    then obtain xs c where "subslice ber (offset + 1) tagEnd = xs @ [c]"
      "\<forall>x \<in> set xs. x \<ge> 0x80" "c < 0x80"
      using tag readTag_loop_octets by blast
    then show ?thesis using True cons kind by (simp add: wf_tag_def)
  next
    case False
    then show ?thesis using tag cons kind by (simp add: wf_tag_def subslice_def)
  qed
qed

lemma readLength_bound: "readLength ber offset = Ok (len, indefinite, offset') \<Longrightarrow> len < 2 ^ 31"
proof -
  assume read: "readLength ber offset = Ok (len, indefinite, offset')"
  let ?l = "ber ! offset" and ?n = "unat (ber ! offset AND 0x7F)"
  show "len < 2 ^ 31"
  proof (cases "?l > 0x80")
    case False
    then have "len = 0 \<or> len = unat ?l \<and> unat ?l < 128"
      using read byte_eqI_unat [of ?l "0x80"]
      by (auto simp: readLength_def Let_def outcome_simps byte_less_iff split: if_splits)
    then show ?thesis by auto
  next
    case True
    from read True have n: "?n \<le> 4" and off: "offset + 1 < length ber"
      and hd: "?n = 4 \<longrightarrow> unat (ber ! (offset + 1)) \<le> 127"
      and loop: "readLength_loop ber ?n 0 (offset + 1) = Ok (len, offset')"
      by (auto simp: readLength_def Let_def outcome_simps split: if_splits)
    let ?bs = "subslice ber (offset + 1) offset'"
    have len: "len = be_value ?bs" and off': "offset' = offset + 1 + ?n" "offset' \<le> length ber"
      using readLength_loop_Ok [OF loop] off by auto
    then have n': "length ?bs = ?n" by (simp add: length_subslice)
    show ?thesis
    proof (cases "?n = 4")
      case False
      then have "be_value ?bs < 256 ^ ?n" "(256 :: nat) ^ ?n \<le> 256 ^ 3"
        using be_value_bound [of ?bs] n n' by (simp, intro power_increasing) auto
      then show ?thesis using len by simp
    next
      case True
      then have cons: "?bs = ber ! (offset + 1) # subslice ber (offset + 2) offset'"
        using off off' by (simp add: subslice_def Cons_nth_drop_Suc [symmetric] take_Cons')
      have "length (subslice ber (offset + 2) offset') = 3"
        using True off' by (simp add: length_subslice)
      then have "len < unat (ber ! (offset + 1)) * 256 ^ 3 + 256 ^ 3"
        using be_value_bound [of "subslice ber (offset + 2) offset'"]
        unfolding len cons by (simp add: be_value_Cons)
      then show ?thesis using True hd by simp
    qed
  qed
qed

lemma readHeader_bound:
  "readHeader ber offset = Ok (tagEnd, kind, len, indefinite, offset') \<Longrightarrow> len < 2 ^ 31"
  by (auto simp: readHeader_def Let_def outcome_simps dest: readLength_bound)

text \<open>A principle for what \<open>readObject\<close> returns, in terms of the elements it can build.\<close>

definition builds :: "bytes \<Rightarrow> (asn1Object \<Rightarrow> bool) \<Rightarrow> bool" where
  "builds ber P \<longleftrightarrow>
     (\<forall>tag content. wf_tag tag False \<longrightarrow> length content < 2 ^ 31 \<longrightarrow> length content + 2 \<le> length ber \<longrightarrow>
        P (asn1Primitive tag (length content) content)) \<and>
     (\<forall>tag subs. wf_tag tag True \<longrightarrow> (\<forall>obj \<in> set subs. P obj) \<longrightarrow> P (asn1Structured tag subs))"

lemma readObject_builds:
  "readObject ber offset = Ok (obj, offset') \<Longrightarrow> builds ber P \<Longrightarrow> P obj"
  "readSubObjects ber offset contentEnd indefinite subs = Ok (subs', offset') \<Longrightarrow> builds ber P \<Longrightarrow>
     \<forall>obj \<in> set subs. P obj \<Longrightarrow> \<forall>obj \<in> set subs'. P obj"
proof (induction ber offset and ber offset contentEnd indefinite subs
    arbitrary: obj offset' and subs' offset' rule: readObject_readSubObjects.induct)
  case (1 ber tagStart)
  from "1.prems" obtain tagEnd kind len indefinite off
    where hdr: "readHeader ber tagStart = Ok (tagEnd, kind, len, indefinite, off)"
    by (auto simp: readObject.simps [of ber] outcome_simps)
  show ?case
  proof (cases "kind = 0")
    case True
    then have obj: "obj = asn1Primitive (subslice ber tagStart tagEnd) len (subslice ber off (off + len))"
      "off + len \<le> length ber"
      using "1.prems" hdr by (auto simp: readObject.simps [of ber] Let_def split: if_splits)
    then have "length (subslice ber off (off + len)) = len" by (simp add: length_subslice)
    moreover have "len + 2 \<le> length ber" using obj(2) readHeader_Ok [OF hdr] by linarith
    ultimately show ?thesis
      using readHeader_wf_tag [OF hdr] readHeader_bound [OF hdr] True "1.prems"(2) unfolding builds_def obj(1)
      by (metis (full_types))
  next
    case False
    then obtain subs off' where obj: "obj = asn1Structured (subslice ber tagStart tagEnd) subs"
      "readSubObjects ber off (off + len) indefinite [] = Ok (subs, off')" "off + len \<le> length ber"
      using "1.prems"(1) hdr by (auto simp: readObject.simps [of ber] Let_def outcome_simps split: if_splits)
    then have "\<forall>obj \<in> set subs. P obj"
      using "1.IH" [OF hdr refl refl refl refl refl] "1.prems"(2) False by simp
    moreover have "wf_tag (subslice ber tagStart tagEnd) True"
      using readHeader_wf_tag [OF hdr] False by simp
    ultimately show ?thesis using "1.prems"(2) unfolding builds_def obj(1) by blast
  qed
next
  case (2 ber offset contentEnd indefinite subs)
  show ?case
  proof (cases "offset < contentEnd \<or> indefinite")
    case True
    then obtain sub off where sub: "readObject ber offset = Ok (sub, off)"
      using "2.prems" by (auto simp: readSubObjects.simps [of ber] outcome_simps)
    then have "P sub" by (rule "2.IH"(1) [OF True _ "2.prems"(2)])
    then have wf: "\<forall>obj \<in> set (subs @ [sub]). P obj" using "2.prems" by auto
    consider "subs' = subs @ [sub]"
      | "indefinite" "isIndefiniteTermination ber off = Ok False"
        "readSubObjects ber off contentEnd indefinite (subs @ [sub]) = Ok (subs', offset')"
      | "\<not> indefinite"
        "readSubObjects ber off contentEnd indefinite (subs @ [sub]) = Ok (subs', offset')"
      using "2.prems" True sub
      by (auto simp: readSubObjects.simps [of ber offset] outcome_simps split: if_splits)
    then show ?thesis
    proof cases
      case 1
      then show ?thesis using wf by simp
    next
      case 2
      then show ?thesis using "2.IH"(2) [OF True sub refl 2(1,2)] wf "2.prems"(2) by simp
    next
      case 3
      then show ?thesis using "2.IH"(3) [OF True sub refl 3(1)] wf "2.prems"(2) by simp
    qed
  next
    case False
    then show ?thesis using "2.prems" by (simp add: readSubObjects.simps)
  qed
qed

lemma readObject_wf: "readObject ber offset = Ok (obj, offset') \<Longrightarrow> wf_object obj"
  by (erule readObject_builds) (simp add: builds_def)

lemma ber_length_length_octets:
  assumes "n < 2 ^ 31"
  shows "ber_length (length_octets n) n"
proof (cases "n < 128")
  case False
  obtain b bs where b: "be_bytes n = b # bs" by (cases "be_bytes n") auto
  have len: "length (be_bytes n) \<le> 4" using assms by (intro length_be_bytes_le) simp_all
  have "unat b < 128" if "length (be_bytes n) = 4"
  proof -
    have "unat b * 256 ^ 3 + be_value bs < 128 * 256 ^ 3"
      using that b assms be_value_be_bytes [of n] by (simp add: be_value_Cons)
    then show ?thesis by simp
  qed
  moreover have "hd (be_bytes n) \<noteq> 0" using False hd_be_bytes_eq_0_iff [of n] by simp
  ultimately show ?thesis
    using False len b be_value_be_bytes [of n] unfolding ber_length_def length_octets_def
    by (intro disjI2 exI [of _ "be_bytes n"]) (simp del: be_value_be_bytes)
qed (simp add: ber_length_def length_octets_def)

lemma ber_encodes_all_concat:
  "(\<And>obj. obj \<in> set objs \<Longrightarrow> ber_encodes (f obj) obj) \<Longrightarrow> ber_encodes_all (concat (map f objs)) objs"
  by (induction objs) (auto intro: ber_encodes_ber_encodes_all.intros)

lemma ber_encodes_der: "wf_object obj \<Longrightarrow> length (der obj) < 2 ^ 31 \<Longrightarrow> ber_encodes (der obj) obj"
proof (induction obj)
  case (asn1Primitive tag len content)
  then have "ber_encodes (tag @ length_octets len @ content) (asn1Primitive tag (length content) content)"
    by (intro primitive) (auto intro: ber_length_length_octets)
  then show ?case using asn1Primitive by simp
next
  case (asn1Structured tag content)
  let ?body = "concat (map der content)"
  have len: "length ?body < 2 ^ 31" using asn1Structured.prems by simp
  have "ber_encodes (der obj) obj" if "obj \<in> set content" for obj
    using asn1Structured that length_der_le [OF that] len by simp
  then have "ber_encodes_all ?body content" by (rule ber_encodes_all_concat)
  then show ?case
    using asn1Structured.prems len by (auto intro!: definite ber_length_length_octets)
qed

lemma ber_encodes_wf_object: "ber_encodes bs obj \<Longrightarrow> wf_object obj"
  using readObject_complete [of bs obj "[]" "[]"] readObject_wf by fastforce

text \<open>Every result of \<open>BER2DER\<close> is the DER encoding of a well-formed tree.\<close>

lemma BER2DER_Ok:
  assumes "BER2DER ber = Ok out"
  obtains obj offset where "readObject ber 0 = Ok (obj, offset)" "wf_object obj" "out = encodeTo obj []"
    "length out < 2 ^ 63"
proof -
  from assms obtain obj offset where "readObject ber 0 = Ok (obj, offset)" "out = encodeTo obj []"
    "int (length out) \<le> max_int"
    by (auto simp: BER2DER_def outcome_simps Let_def split: if_splits)
  moreover from this have "wf_object obj" "length out < 2 ^ 63"
    by (auto simp: max_int_def dest: readObject_wf)
  ultimately show ?thesis using that by blast
qed

lemma length_encodeLength: "length tag < length (encodeLength tag len)"
  by (simp add: encodeLength_def marshalLongLength_eq)

lemma small_object_encodeTo: "wf_object obj \<Longrightarrow> length (encodeTo obj []) < 2 ^ 63 \<Longrightarrow> small_object obj"
proof (induction obj)
  case (asn1Structured tag content)
  let ?body = "concat (map (\<lambda>obj. encodeTo obj []) content)"
  have len: "length ?body < 2 ^ 63"
    using asn1Structured.prems length_encodeLength [of tag "length ?body"]
    by (simp add: encodeTo_Structured del: encodeTo.simps)
  have "length (encodeTo obj []) \<le> length ?body" if "obj \<in> set content" for obj
    using that by (induction content) auto
  then have small: "\<forall>obj \<in> set content. small_object obj"
    using asn1Structured len by fastforce
  then have "map (\<lambda>obj. encodeTo obj []) content = map der content"
    by (simp add: encodeTo_der)
  with len small show ?case by simp
qed simp

lemma BER2DER_Ok_der:
  assumes "BER2DER ber = Ok out"
  obtains obj offset where "readObject ber 0 = Ok (obj, offset)" "wf_object obj" "out = der obj"
    "length out < 2 ^ 63"
proof -
  from assms obtain obj offset where obj: "readObject ber 0 = Ok (obj, offset)" "wf_object obj"
    "out = encodeTo obj []" and len: "length out < 2 ^ 63" by (rule BER2DER_Ok)
  then have "encodeTo obj [] = der obj"
    by (intro encodeTo_der small_object_encodeTo) simp_all
  with obj len show ?thesis using that by simp
qed

subsection \<open>One element, nothing after it\<close>

lemma parseBase128Int_loop_stop:
  "\<forall>x \<in> set xs. 0x80 \<le> x \<Longrightarrow> c < 0x80 \<Longrightarrow> parseBase128Int_loop s a (xs @ c # post) = Ok (n, rest) \<Longrightarrow> rest = post"
  by (induction xs arbitrary: s a)
    (auto simp: Let_def byte_less_iff word_le_nat_alt split: if_splits)

lemma unat_and_1F: "unat (b AND (0x1F :: byte)) = unat b mod 32"
proof -
  have "b AND 0x1F = take_bit 5 b"
    by (simp only: take_bit_eq_mask) (simp add: mask_eq_exp_minus_1)
  then show ?thesis by (simp only: unsigned_take_bit_eq) (simp add: take_bit_eq_mod)
qed

lemma length_octets_prefix:
  assumes "length_octets n @ xs = length_octets m @ ys" "n < 2 ^ 63" "m < 2 ^ 63"
  shows "n = m \<and> xs = ys"
proof -
  have len: "length (be_bytes k) \<le> 8" if "k < 2 ^ 63" for k
    using that by (intro length_be_bytes_le) simp_all
  consider "n < 128" "m < 128" | "n < 128" "128 \<le> m" | "128 \<le> n" "m < 128" | "128 \<le> n" "128 \<le> m"
    by linarith
  then show ?thesis
  proof cases
    case 1
    then have eq: "octet n = octet m" "xs = ys" using assms(1) by (simp_all add: length_octets_def)
    have "n = unat (octet n)" using 1(1) by simp
    also have "\<dots> = m" unfolding eq(1) using 1(2) by simp
    finally have "n = m" .
    with eq show ?thesis by simp
  next
    case 2
    then have "unat (octet n) = unat (octet (128 + length (be_bytes m)))"
      using assms(1) by (simp add: length_octets_def)
    with 2 len [OF assms(3)] show ?thesis by simp
  next
    case 3
    then have "unat (octet (128 + length (be_bytes n))) = unat (octet m)"
      using assms(1) by (simp add: length_octets_def)
    with 3 len [OF assms(2)] show ?thesis by simp
  next
    case 4
    then have eq: "octet (128 + length (be_bytes n)) # be_bytes n @ xs = octet (128 + length (be_bytes m)) # be_bytes m @ ys"
      using assms(1) by (simp add: length_octets_def)
    then have "unat (octet (128 + length (be_bytes n))) = unat (octet (128 + length (be_bytes m)))" by simp
    then have "length (be_bytes n) = length (be_bytes m)" using len [OF assms(2)] len [OF assms(3)] by simp
    with eq have "be_bytes n = be_bytes m" "xs = ys" by simp_all
    then show ?thesis by (metis be_value_be_bytes)
  qed
qed

lemma parse_length_octets_eq:
  assumes "parse_length (length_octets n @ body) = Ok (m, rest)" "n < 2 ^ 63"
  shows "m = n \<and> rest = body"
proof -
  have "length_octets n @ body = length_octets m @ rest" "m < 2 ^ 63"
    using parse_length_canonical [OF assms(1)] by simp_all
  then show ?thesis using length_octets_prefix assms(2) by blast
qed

lemma parseTagAndLength_wf_tag:
  assumes tag: "wf_tag tag constructed" and n: "n < 2 ^ 63"
    and parse: "parseTagAndLength (tag @ length_octets n @ body) = Ok (t, rest)"
  shows "rest = body" and "tl_length t = n"
proof -
  obtain b ts where ts: "tag = b # ts" using tag by (cases tag) (auto simp: wf_tag_def)
  have b: "unat b mod 32 = 31 \<longleftrightarrow> b AND 0x1F = 0x1F"
    using unat_and_1F [of b] byte_eqI_unat [of "b AND 0x1F" "0x1F"] by auto
  from parse ts obtain ds where len: "parse_length ds = Ok (tl_length t, rest)"
    and hdr: "(if unat b mod 32 = 31 then \<exists>v. parseBase128Int (ts @ length_octets n @ body) = Ok (v, ds)
       else ds = ts @ length_octets n @ body)"
    by (auto simp: outcome_simps split: if_splits prod.splits)
  have "ds = length_octets n @ body"
  proof (cases "b AND 0x1F = 0x1F")
    case True
    then obtain xs c where "ts = xs @ [c]" "\<forall>x \<in> set xs. 0x80 \<le> x" "c < 0x80"
      using wf_tag_multi [OF tag] ts by auto
    then show ?thesis
      using hdr b True parseBase128Int_loop_stop by (fastforce simp: parseBase128Int_def)
  next
    case False
    then show ?thesis using hdr b tag ts by (simp add: wf_tag_def)
  qed
  then show "rest = body" "tl_length t = n" using parse_length_octets_eq len n by blast+
qed

lemma der_header:
  assumes "wf_object obj" "length (der obj) < 2 ^ 31" "parseTagAndLength (der obj) = Ok (t, rest)"
  shows "tl_length t = length rest"
proof (cases obj)
  case (asn1Primitive tag len content)
  then show ?thesis using assms parseTagAndLength_wf_tag [of tag False len content t rest] by simp
next
  case (asn1Structured tag content)
  let ?body = "concat (map der content)"
  show ?thesis
    using assms asn1Structured parseTagAndLength_wf_tag [of tag True "length ?body" ?body t rest] by simp
qed

text \<open>
  The interface the parsers rest on: a transcoder whose output is one element and nothing more, and
  is its own transcoding.  \<open>ParseContentInfo\<close> and \<open>ParseResponse\<close> hand the output straight to
  \<open>asn1.Unmarshal\<close>.
\<close>

locale der_transcoder =
  fixes transcode :: "bytes \<Rightarrow> bytes outcome"
  assumes one_element: "transcode ber = Ok out \<Longrightarrow> length out < 2 ^ 31 \<Longrightarrow>
      parseTagAndLength out = Ok (t, rest) \<Longrightarrow> tl_length t = length rest"
    and fixed_point: "transcode ber = Ok out \<Longrightarrow> length out < 2 ^ 31 \<Longrightarrow> transcode out = Ok out"
    and not_empty: "transcode ber = Ok out \<Longrightarrow> out \<noteq> []"
begin

lemma unmarshal_raw_all:
  assumes "transcode ber = Ok out" "length out < 2 ^ 31" "unmarshal_raw out = Ok (rv, rest)"
  shows "rest = []"
  using assms(3) one_element [OF assms(1,2)]
  by (auto simp: unmarshal_raw_def outcome_simps take_element_def Let_def split: if_splits)

end

lemma BER2DER_der:
  assumes "wf_object obj" "length (der obj) < 2 ^ 31"
  shows "BER2DER (der obj @ junk) = Ok (der obj)"
  using assms by (intro BER2DER_of_encoding ber_encodes_der small_object_der) simp_all

interpretation ber: der_transcoder BER2DER
proof
  fix ber out t rest
  assume ber: "BER2DER ber = Ok out" and len: "length out < 2 ^ 31"
  from ber obtain obj offset where obj: "wf_object obj" "out = der obj" by (rule BER2DER_Ok_der)
  show "BER2DER out = Ok out" using BER2DER_der [of obj "[]"] obj len by simp
  show "tl_length t = length rest" if "parseTagAndLength out = Ok (t, rest)"
    using der_header obj len that by blast
next
  fix ber out
  assume "BER2DER ber = Ok out"
  then show "out \<noteq> []"
  proof (rule BER2DER_Ok)
    fix obj :: asn1Object and offset :: nat
    assume "out = encodeTo obj []"
    moreover have "encodeLength tag len \<noteq> []" for tag len
      using length_encodeLength [of tag len] by auto
    ultimately show ?thesis by (cases obj) (simp_all add: Let_def)
  qed
qed

subsection \<open>Properties\<close>

text \<open>
  C4: \<open>BER2DER\<close> maps an encoding of a tree in the sense of \<open>ber_encodes\<close> to the DER encoding of the same
  tree, as long as that is shorter than 2^63 octets; bytes that follow the encoding are ignored. The
  encodings are those with tags of any number of octets, with lengths in the short form or in a long form
  of at most four octets that has no leading zero and is below 2^31, or with indefinite length for a
  constructed element that has elements, none of them end-of-contents octets. What else X.690 allows the
  code refuses: longer or zero-padded lengths, and empty elements of indefinite length
  (\<open>BER2DER_empty_indefinite\<close>).
\<close>

theorem BER2DER_complete:
  assumes "ber_encodes bs obj" and "length (der obj) < 2 ^ 63"
  shows "BER2DER (bs @ junk) = Ok (der obj)"
  using assms by (intro BER2DER_of_encoding small_object_der ber_encodes_wf_object) simp_all

lemma ber_encodes_example:
  "ber_encodes ([0x30] @ [0x80] @ (([0x04] @ [octet (128 + length [3 :: byte]), 3] @ [1, 2, 3]) @ []) @ [0, 0])
     (asn1Structured [0x30] [asn1Primitive [0x04] (length [1, 2, 3 :: byte]) [1, 2, 3]])"
proof (intro indefinite more primitive none)
  show "wf_tag [0x30] True" "wf_tag [0x04] False" by (simp_all add: wf_tag_def)
  show "ber_length [octet (128 + length [3 :: byte]), 3] (length [1, 2, 3 :: byte])"
    unfolding ber_length_def by (intro disjI2 exI [of _ "[3]"]) simp
qed simp_all

theorem BER2DER_complete_witness:
  "BER2DER ([0x30, 0x80, 0x04, 0x81, 3, 1, 2, 3, 0, 0] @ [7]) = Ok [0x30, 5, 0x04, 3, 1, 2, 3]"
  using BER2DER_complete [OF ber_encodes_example, of "[7]"]
  by (simp add: length_octets_def octet_def)

text \<open>C25: \<open>BER2DER\<close> is idempotent: its output is already DER and is returned unchanged.\<close>

theorem BER2DER_idempotent:
  assumes "BER2DER ber = Ok out" and "length out < 2 ^ 31"
  shows "BER2DER out = Ok out"
  using assms by (rule ber.fixed_point)

theorem BER2DER_idempotent_witness:
  "BER2DER [0x30, 5, 0x04, 3, 1, 2, 3] = Ok [0x30, 5, 0x04, 3, 1, 2, 3]"
  by (rule BER2DER_idempotent [OF BER2DER_complete_witness]) simp

text \<open>C39: The bounds \<open>readObject\<close> checks are those of the whole buffer, not of the enclosing element:
  a constructed element whose first child is longer than the declared length \<open>k\<close> is accepted, and
  the declared length leaves no trace in the output.\<close>

theorem BER2DER_child_overrun:
  assumes "wf_tag tag True" and "ber_length ls k" and "0 < k" and "k \<le> length bs"
    and "ber_encodes bs obj" and "length (der (asn1Structured tag [obj])) < 2 ^ 63"
  shows "BER2DER (tag @ ls @ bs) = Ok (der (asn1Structured tag [obj]))"
proof -
  let ?ber = "tag @ ls @ bs" and ?off = "length tag + length ls"
  have hdr: "readHeader ?ber 0 = Ok (length tag, hd tag AND 0x20, k, False, ?off)"
    using readHeader_complete [of tag True ls k "[]" bs] assms indefinite_octet_not_length by auto
  have "readObject ?ber ?off = Ok (obj, ?off + length bs)"
    using readObject_complete [OF assms(5), of "tag @ ls" "[]"] by simp
  then have "readSubObjects ?ber ?off (?off + k) False [] = Ok ([obj], ?off + length bs)"
    using assms(3,4) by (simp add: readSubObjects.simps)
  then have "readObject ?ber 0 = Ok (asn1Structured tag [obj], ?off + k)"
    using hdr assms(1,4) by (subst readObject.simps) (simp add: Let_def wf_tag_kind subslice_def)
  moreover have "wf_object (asn1Structured tag [obj])"
    using assms(1) ber_encodes_wf_object [OF assms(5)] by simp
  ultimately show ?thesis
    using wf_encodeTo_der [OF _ assms(6)] assms(1,6)
    by (simp add: BER2DER_readObject wf_tag_def del: encodeTo.simps der.simps)
qed

lemma ber_encodes_octets: "ber_encodes ([0x04] @ [octet 3] @ [1, 2, 3]) (asn1Primitive [0x04] 3 [1, 2, 3])"
  using primitive [of "[0x04]" "[octet 3]" "[1, 2, 3]"]
  by (simp add: wf_tag_def ber_length_def numeral_3_eq_3)

theorem BER2DER_child_overrun_witness:
  "BER2DER ([0x30] @ [octet 2] @ ([0x04] @ [octet 3] @ [1, 2, 3])) = Ok [0x30, 5, 0x04, 3, 1, 2, 3]"
  using BER2DER_child_overrun [OF _ _ _ _ ber_encodes_octets, of "[0x30]" "[octet 2]" 2]
  by (simp add: wf_tag_def ber_length_def length_octets_def octet_def)

text \<open>An empty element of indefinite length, \<open>tag 80 00 00\<close>, is rejected: the end-of-contents octets
  are read as a first child, and the terminator is then looked for behind them.\<close>

theorem BER2DER_empty_indefinite:
  assumes "wf_tag tag True"
  shows "BER2DER (tag @ [0x80, 0, 0]) = Err (ASN1Error ''ber2der: Invalid BER format'')"
proof -
  let ?ber = "tag @ [0x80] @ [0, 0]" and ?off = "length tag + 1"
  have hdr: "readHeader ?ber 0 = Ok (length tag, hd tag AND 0x20, 0, True, ?off)"
    using readHeader_complete [of tag True "[0x80]" 0 "[]" "[0, 0]"] assms by simp
  have "ber_encodes ([0] @ [octet 0] @ []) end_of_contents"
    using primitive [of "[0]" "[octet 0]" "[]"] by (simp add: wf_tag_def ber_length_def)
  then have "readObject ?ber ?off = Ok (end_of_contents, ?off + 2)"
    using readObject_complete [of "[0, 0]" end_of_contents "tag @ [0x80]" "[]"] by simp
  then have "readSubObjects ?ber ?off ?off True [] = Err (ASN1Error ''ber2der: Invalid BER format'')"
    by (subst readSubObjects.simps) (simp add: isIndefiniteTermination_def)
  then have "readObject ?ber 0 = Err (ASN1Error ''ber2der: Invalid BER format'')"
    using hdr assms by (subst readObject.simps) (simp add: Let_def wf_tag_kind)
  then show ?thesis by (simp add: BER2DER_def)
qed

theorem BER2DER_empty_indefinite_witness:
  "BER2DER ([0x30] @ [0x80, 0, 0]) = Err (ASN1Error ''ber2der: Invalid BER format'')"
  by (rule BER2DER_empty_indefinite) (simp add: wf_tag_def)

text \<open>A one-byte input makes \<open>BER2DER\<close> panic with an index out of range, whatever the byte:
  \<open>readObject\<close> indexes the length octet without a bounds check.\<close>

theorem BER2DER_single_octet_panics: "BER2DER [b] = Panic IndexOutOfRange"
  by (simp add: BER2DER_def readObject.simps readHeader_def readTag_loop.simps readLength_def
      byte_at_def Let_def)

text \<open>A successful \<open>readObject\<close> started inside the buffer and ends at least two bytes further on, so
  the loop over the sub-objects always moves forward.\<close>

theorem readObject_progress:
  assumes "readObject ber offset = Ok (obj, offset')"
  shows "offset < length ber \<and> offset + 2 \<le> offset'"
  using assms by (rule readObject_forward)

theorem readObject_progress_witness: "(0 :: nat) < 5 \<and> (0 :: nat) + 2 \<le> 5"
proof -
  have "readObject ([] @ ([0x04] @ [octet 3] @ [1, 2, 3]) @ []) (length ([] :: bytes))
      = Ok (asn1Primitive [0x04] 3 [1, 2, 3], length ([] :: bytes) + length ([0x04] @ [octet 3] @ [1, 2, 3 :: byte]))"
    by (rule readObject_complete [OF ber_encodes_octets])
  from readObject_progress [OF this] show ?thesis by simp
qed

end
