(* ===== verification/Codec.thy ===== *)
theory Codec
  imports Prelude
begin

text \<open>
  The interface between a decoder of single elements and a loop that decodes until the input is used
  up.  \<open>enc\<close> and \<open>dec\<close> are inverse to each other on the \<open>good\<close> elements; \<open>loop\<close> is the client's
  loop.  The loop is then inverse to concatenation.  The arcs of an OBJECT IDENTIFIER and the members
  of a SET OF ANY are its two instances.
\<close>

locale element_codec =
  fixes enc :: "'a \<Rightarrow> bytes"
    and dec :: "bytes \<Rightarrow> ('a \<times> bytes) outcome"
    and good :: "'a \<Rightarrow> bool"
    and loop :: "bytes \<Rightarrow> 'a list outcome"
  assumes dec_enc: "good x \<Longrightarrow> dec (enc x @ rest) = Ok (x, rest)"
    and enc_dec: "dec bs = Ok (x, rest) \<Longrightarrow> bs = enc x @ rest \<and> good x"
    and enc_not_Nil: "good x \<Longrightarrow> enc x \<noteq> []"
    and loop_Nil: "loop [] = Ok []"
    and loop_step: "bs \<noteq> [] \<Longrightarrow>
      loop bs = obind (dec bs) (\<lambda>(x, rest). obind (loop rest) (\<lambda>xs. Ok (x # xs)))"
begin

lemma loop_concat: "\<forall>x \<in> set xs. good x \<Longrightarrow> loop (concat (map enc xs)) = Ok xs"
proof (induction xs)
  case (Cons x xs)
  then have "enc x @ concat (map enc xs) \<noteq> []" using enc_not_Nil by simp
  then show ?case using Cons by (simp add: loop_step dec_enc)
qed (simp add: loop_Nil)

lemma dec_shorter: "dec bs = Ok (x, rest) \<Longrightarrow> length rest < length bs"
  using enc_dec [of bs x rest] enc_not_Nil [of x] by auto

lemma loop_Ok: "loop bs = Ok xs \<Longrightarrow> bs = concat (map enc xs) \<and> (\<forall>x \<in> set xs. good x)"
proof (induction "length bs" arbitrary: bs xs rule: less_induct)
  case less
  show ?case
  proof (cases "bs = []")
    case True
    then show ?thesis using less.prems by (simp add: loop_Nil)
  next
    case False
    then obtain x rest ys where "dec bs = Ok (x, rest)" "loop rest = Ok ys" "xs = x # ys"
      using less.prems by (auto simp: loop_step outcome_simps)
    then show ?thesis using less.hyps [of rest ys] enc_dec dec_shorter by auto
  qed
qed

lemma loop_Ok_iff: "loop bs = Ok xs \<longleftrightarrow> bs = concat (map enc xs) \<and> (\<forall>x \<in> set xs. good x)"
  using loop_concat loop_Ok by blast

end

end
