(* ===== verification/Go_Asn1_Fields.thy ===== *)
theory Go_Asn1_Fields
  imports Go_Asn1 Codec
begin

text \<open>
  The typed half of \<open>encoding/asn1\<close>: OBJECT IDENTIFIERs and INTEGERs, \<open>parseField\<close> with the struct-tag
  parameters the repository uses (\<open>optional\<close>, \<open>explicit\<close>, \<open>set\<close>, \<open>tag:n\<close>), \<open>parseSequenceOf\<close>, and
  the writers for the same field kinds.
\<close>

subsection \<open>Object identifiers\<close>

definition makeObjectIdentifier :: "oid \<Rightarrow> bytes outcome" where
  "makeObjectIdentifier oid =
     (case oid of
        a # b # cs \<Rightarrow>
          if a > 2 \<or> (a < 2 \<and> b \<ge> 40) then Err (StructuralError ''invalid object identifier'')
          else Ok (appendBase128Int (a * 40 + b) @ concat (map appendBase128Int cs))
      | _ \<Rightarrow> Err (StructuralError ''invalid object identifier''))"

function parse_arcs :: "bytes \<Rightarrow> nat list outcome" where
  "parse_arcs bs =
     (if bs = [] then Ok []
      else obind (parseBase128Int bs) (\<lambda>(v, rest). obind (parse_arcs rest) (\<lambda>vs. Ok (v # vs))))"
  by pat_completeness auto

lemma appendBase128Int_not_Nil [simp]: "appendBase128Int n \<noteq> []"
  by (simp add: appendBase128Int_def)

lemma parseBase128Int_shorter: "parseBase128Int bs = Ok (v, rest) \<Longrightarrow> length rest < length bs"
  by (drule parseBase128Int_canonical(1)) (simp add: neq_Nil_conv)

termination parse_arcs
  by (relation "measure length") (auto dest: parseBase128Int_shorter)

declare parse_arcs.simps [simp del]

definition parseObjectIdentifier :: "bytes \<Rightarrow> oid outcome" where
  "parseObjectIdentifier bs =
     (if bs = [] then Err (SyntaxError ''zero length OBJECT IDENTIFIER'')
      else obind (parseBase128Int bs) (\<lambda>(v, rest).
        obind (parse_arcs rest) (\<lambda>vs.
          Ok ((if v < 80 then [v div 40, v mod 40] else [2, v - 80]) @ vs))))"

definition wf_oid :: "oid \<Rightarrow> bool" where
  "wf_oid oid \<longleftrightarrow> (\<exists>a b cs. oid = a # b # cs \<and> a \<le> 2 \<and> (a < 2 \<longrightarrow> b < 40)
     \<and> a * 40 + b \<le> 2147483647 \<and> (\<forall>c \<in> set cs. c \<le> 2147483647))"

interpretation arcs: element_codec appendBase128Int parseBase128Int "\<lambda>n. n \<le> 2147483647" parse_arcs
proof unfold_locales
  show "parse_arcs [] = Ok []" by (simp add: parse_arcs.simps)
  show "bs \<noteq> [] \<Longrightarrow> parse_arcs bs
    = obind (parseBase128Int bs) (\<lambda>(v, rest). obind (parse_arcs rest) (\<lambda>vs. Ok (v # vs)))" for bs
    by (subst parse_arcs.simps) simp
qed (auto dest: parseBase128Int_canonical)

lemma wf_oid_Ok: "wf_oid oid \<Longrightarrow> \<exists>bs. makeObjectIdentifier oid = Ok bs \<and> bs \<noteq> []"
  by (auto simp: wf_oid_def makeObjectIdentifier_def not_less)

lemma parse_makeObjectIdentifier:
  assumes "wf_oid oid" and "makeObjectIdentifier oid = Ok bs"
  shows "parseObjectIdentifier bs = Ok oid"
proof -
  from assms obtain a b cs where oid: "oid = a # b # cs" "a \<le> 2" "a < 2 \<longrightarrow> b < 40"
      "a * 40 + b \<le> 2147483647" "\<forall>c \<in> set cs. c \<le> 2147483647"
    and bs: "bs = appendBase128Int (a * 40 + b) @ concat (map appendBase128Int cs)"
    by (auto simp: wf_oid_def makeObjectIdentifier_def split: if_splits)
  have "(if a * 40 + b < 80 then [(a * 40 + b) div 40, (a * 40 + b) mod 40] else [2, a * 40 + b - 80]) = [a, b]"
  proof (cases "a = 2")
    case False
    then have "a < 2" "b < 40" using oid by auto
    then have "a * 40 + b < 80" by linarith
    then show ?thesis using \<open>b < 40\<close> by simp
  qed simp
  then show ?thesis
    using oid by (simp add: parseObjectIdentifier_def bs arcs.loop_concat del: One_nat_def)
qed

lemma parseObjectIdentifier_canonical:
  assumes "parseObjectIdentifier bs = Ok oid"
  shows "makeObjectIdentifier oid = Ok bs" and "wf_oid oid"
proof -
  from assms obtain v rest vs where v: "parseBase128Int bs = Ok (v, rest)"
    and vs: "parse_arcs rest = Ok vs"
    and oid: "oid = (if v < 80 then [v div 40, v mod 40] else [2, v - 80]) @ vs"
    by (auto simp: parseObjectIdentifier_def outcome_simps split: if_splits prod.splits)
  have bs: "bs = appendBase128Int v @ concat (map appendBase128Int vs)" "v \<le> 2147483647"
      "\<forall>c \<in> set vs. c \<le> 2147483647"
    using parseBase128Int_canonical [OF v] arcs.loop_Ok [OF vs] by auto
  obtain a b where ab: "oid = a # b # vs" "a \<le> 2" "a < 2 \<longrightarrow> b < 40" "a * 40 + b = v"
  proof (cases "v < 80")
    case True
    then have "v div 40 < 2" by (simp add: less_mult_imp_div_less)
    then show ?thesis using that [of "v div 40" "v mod 40"] oid True by simp
  next
    case False
    then show ?thesis using that [of 2 "v - 80"] oid by simp
  qed
  then show "makeObjectIdentifier oid = Ok bs"
    by (cases "a = 2") (simp_all add: makeObjectIdentifier_def bs(1) not_less not_le)
  show "wf_oid oid"
    unfolding wf_oid_def using ab(1-3) bs(2) [folded ab(4)] bs(3) by blast
qed

text \<open>An OBJECT IDENTIFIER is determined by its octets.\<close>

lemma makeObjectIdentifier_inj:
  "wf_oid a \<Longrightarrow> wf_oid b \<Longrightarrow> makeObjectIdentifier a = Ok bs \<Longrightarrow> makeObjectIdentifier b = Ok bs \<Longrightarrow> a = b"
  by (metis parse_makeObjectIdentifier outcome.inject(1))

subsection \<open>Integers\<close>

definition checkInteger :: "bytes \<Rightarrow> unit outcome" where
  "checkInteger bs =
     (case bs of
        [] \<Rightarrow> Err (StructuralError ''empty integer'')
      | [_] \<Rightarrow> Ok ()
      | b # c # _ \<Rightarrow>
          if (uint b = 0 \<and> uint c < 128) \<or> (uint b = 255 \<and> uint c \<ge> 128)
          then Err (StructuralError ''integer not minimally-encoded'') else Ok ())"

definition int_value :: "bytes \<Rightarrow> int" where
  "int_value bs =
     (case bs of
        [] \<Rightarrow> 0
      | b # cs \<Rightarrow> foldl (\<lambda>a c. a * 256 + uint c) (if uint b < 128 then uint b else uint b - 256) cs)"

definition parseInt64 :: "bytes \<Rightarrow> int outcome" where
  "parseInt64 bs = obind (checkInteger bs) (\<lambda>_.
     if length bs > 8 then Err (StructuralError ''integer too large'') else Ok (int_value bs))"

definition parseBigInt :: "bytes \<Rightarrow> int outcome" where
  "parseBigInt bs = obind (checkInteger bs) (\<lambda>_. Ok (int_value bs))"

text \<open>The shortest two's complement encoding, written by both \<open>int64Encoder\<close> and \<open>makeBigInt\<close>.\<close>

function int_octets :: "int \<Rightarrow> bytes" where
  "int_octets i =
     (if -128 \<le> i \<and> i \<le> 127 then [octet (nat (i mod 256))]
      else int_octets (i div 256) @ [octet (nat (i mod 256))])"
  by pat_completeness auto
termination
  by (relation "measure (\<lambda>i. nat \<bar>i\<bar>)") (auto simp: nat_less_iff abs_if)

declare int_octets.simps [simp del]

lemma int_octets_small: "-128 \<le> i \<Longrightarrow> i \<le> 127 \<Longrightarrow> int_octets i = [octet (nat (i mod 256))]"
  by (subst int_octets.simps) simp

lemma int_octets_large:
  "\<not> (-128 \<le> i \<and> i \<le> 127) \<Longrightarrow> int_octets i = int_octets (i div 256) @ [octet (nat (i mod 256))]"
  by (subst int_octets.simps) (rule if_not_P)

lemma int_octets_not_Nil [simp]: "int_octets i \<noteq> []"
proof (cases "-128 \<le> i \<and> i \<le> 127")
  case False
  show ?thesis unfolding int_octets_large [OF False] by simp
qed (simp add: int_octets_small)

lemma negative_mod_256: "-256 \<le> i \<Longrightarrow> i < 0 \<Longrightarrow> i mod 256 = i + (256 :: int)"
  by (rule int_mod_pos_eq [of i 256 "-1"]) simp_all

lemma uint_octet_mod [simp]: "uint (octet (nat (i mod 256))) = i mod 256"
proof -
  have "0 \<le> i mod 256" "i mod 256 < 256" by simp_all
  then have "int (unat (octet (nat (i mod 256)))) = i mod 256"
    by (subst unat_octet_small) (auto simp: nat_less_iff)
  then show ?thesis by (simp only: of_nat_unat)
qed

lemma int_value_snoc: "bs \<noteq> [] \<Longrightarrow> int_value (bs @ [b]) = int_value bs * 256 + uint b"
  by (cases bs) (simp_all add: int_value_def)

lemma int_value_int_octets [simp]: "int_value (int_octets i) = i"
proof (induction i rule: int_octets.induct)
  case (1 i)
  show ?case
  proof (cases "-128 \<le> i \<and> i \<le> 127")
    case True
    have "int_value (int_octets i) = (if i mod 256 < 128 then i mod 256 else i mod 256 - 256)"
      using True by (simp add: int_octets_small int_value_def)
    moreover have "i mod 256 = (if 0 \<le> i then i else i + 256)"
      using True by (simp add: negative_mod_256)
    ultimately show ?thesis using True by (simp split: if_splits)
  next
    case False
    then show ?thesis using 1 by (simp add: int_octets_large int_value_snoc)
  qed
qed

lemma checkInteger_int_octets [simp]: "checkInteger (int_octets i) = Ok ()"
proof (induction i rule: int_octets.induct)
  case (1 i)
  show ?case
  proof (cases "-128 \<le> i \<and> i \<le> 127")
    case True
    then show ?thesis by (simp add: int_octets_small checkInteger_def)
  next
    case False
    let ?q = "i div 256" and ?r = "i mod 256"
    have i: "i = ?q * 256 + ?r" by simp
    show ?thesis
    proof (cases "-128 \<le> ?q \<and> ?q \<le> 127")
      case True
      then have "?q mod 256 = 0 \<Longrightarrow> ?q = 0" and "?q mod 256 = 255 \<Longrightarrow> ?q = -1"
        by (cases "0 \<le> ?q"; simp add: negative_mod_256)+
      moreover have "?q = 0 \<Longrightarrow> 128 \<le> ?r" "?q = -1 \<Longrightarrow> ?r < 128" using False i by auto
      moreover have "checkInteger (int_octets i) =
        (if (?q mod 256 = 0 \<and> ?r < 128) \<or> (?q mod 256 = 255 \<and> ?r \<ge> 128)
         then Err (StructuralError ''integer not minimally-encoded'') else Ok ())"
        unfolding int_octets_large [OF False]
        using True by (simp only: int_octets_small) (simp add: checkInteger_def)
      ultimately show ?thesis by auto
    next
      case big: False
      then obtain b c cs where "int_octets ?q = b # c # cs"
        using int_octets_large [OF big]
        by (metis int_octets_not_Nil neq_Nil_conv append_Cons append_is_Nil_conv not_Cons_self2)
      then show ?thesis using 1 False by (simp add: int_octets_large [of i] checkInteger_def)
    qed
  qed
qed

lemma parseBigInt_int_octets [simp]: "parseBigInt (int_octets i) = Ok i"
  by (simp add: parseBigInt_def)

subsection \<open>Fields\<close>

text \<open>
  What \<open>getUniversalType\<close> says of a Go type: \<open>RawValue\<close> matches any element, the others have a
  universal tag and are primitive or constructed.  \<open>time.Time\<close> takes UTCTime and GeneralizedTime,
  \<open>string\<close> the string types.
\<close>

datatype go_kind = RawKind | PrimKind nat | SeqKind | TimeKind | StringKind

record field_params =
  fp_optional :: bool
  fp_explicit :: bool
  fp_set :: bool
  fp_tag :: "nat option"

definition plain :: field_params where
  "plain = \<lparr>fp_optional = False, fp_explicit = False, fp_set = False, fp_tag = None\<rparr>"

definition universal_tag :: "field_params \<Rightarrow> go_kind \<Rightarrow> tag_and_length \<Rightarrow> nat" where
  "universal_tag p k t =
     (if fp_set p then 17
      else case k of
        RawKind \<Rightarrow> 0
      | PrimKind n \<Rightarrow> n
      | SeqKind \<Rightarrow> 16
      | TimeKind \<Rightarrow> (if tl_class t = 0 \<and> tl_tag t = 24 then 24 else 23)
      | StringKind \<Rightarrow> (if tl_class t = 0 \<and> tl_tag t \<in> {12, 18, 20, 22, 27, 30} then tl_tag t else 19))"

text \<open>The explicit wrapper: \<open>None\<close> when the tag is another one.  A \<open>RawValue\<close> keeps the wrapper.\<close>

definition strip_explicit ::
  "field_params \<Rightarrow> go_kind \<Rightarrow> tag_and_length \<Rightarrow> bytes \<Rightarrow> (tag_and_length \<times> bytes) option outcome" where
  "strip_explicit p k t rest =
     (if \<not> fp_explicit p then Ok (Some (t, rest))
      else if rest = [] then Err (StructuralError ''explicit tag has no child'')
      else if tl_class t = 2 \<and> fp_tag p = Some (tl_tag t) \<and> (tl_length t = 0 \<or> tl_compound t)
      then if k = RawKind then Ok (Some (t, rest))
        else if tl_length t > 0 then obind (parseTagAndLength rest) (\<lambda>x. Ok (Some x))
        else Err (StructuralError ''zero length explicit tag was not an asn1.Flag'')
      else Ok None)"

definition tags_match :: "field_params \<Rightarrow> go_kind \<Rightarrow> tag_and_length \<Rightarrow> bool" where
  "tags_match p k t \<longleftrightarrow>
     (let implicit = \<not> fp_explicit p \<and> fp_tag p \<noteq> None;
          cls = (if implicit then 2 else 0);
          tag = (if implicit then the (fp_tag p) else universal_tag p k t) in
      (k = RawKind \<and> \<not> implicit \<or> tl_class t = cls \<and> tl_tag t = tag) \<and>
      (k = RawKind \<or> tl_compound t = (k = SeqKind)))"

text \<open>\<open>parseField\<close> up to the contents: \<open>None\<close> is an absent optional field, which consumes nothing.\<close>

definition absent :: "field_params \<Rightarrow> bytes \<Rightarrow> go_error \<Rightarrow> (raw_value option \<times> bytes) outcome" where
  "absent p bs e = (if fp_optional p then Ok (None, bs) else Err e)"

definition parseField :: "field_params \<Rightarrow> go_kind \<Rightarrow> bytes \<Rightarrow> (raw_value option \<times> bytes) outcome" where
  "parseField p k bs =
     (if bs = [] then absent p bs (SyntaxError ''sequence truncated'')
      else obind (parseTagAndLength bs) (\<lambda>(t, rest).
        obind (strip_explicit p k t rest) (\<lambda>inner.
          case inner of
            None \<Rightarrow> absent p bs (StructuralError ''explicitly tagged member didn't match'')
          | Some (t, rest) \<Rightarrow>
              if \<not> tags_match p k t then absent p bs (StructuralError ''tags don't match'')
              else obind (take_element bs t rest) (\<lambda>(rv, after). Ok (Some rv, after)))))"

text \<open>A field whose contents octets are decoded by \<open>dec\<close>; \<open>dflt\<close> is the Go zero value.\<close>

definition field ::
  "field_params \<Rightarrow> go_kind \<Rightarrow> (raw_value \<Rightarrow> 'a outcome) \<Rightarrow> 'a \<Rightarrow> bytes \<Rightarrow> ('a \<times> bytes) outcome" where
  "field p k dec dflt bs =
     obind (parseField p k bs) (\<lambda>(rv, rest).
       case rv of None \<Rightarrow> Ok (dflt, rest) | Some rv \<Rightarrow> obind (dec rv) (\<lambda>v. Ok (v, rest)))"

definition contents :: "(bytes \<Rightarrow> 'a outcome) \<Rightarrow> raw_value \<Rightarrow> 'a outcome" where
  "contents dec rv = dec (elems (rv_Bytes rv))"

abbreviation raw_field :: "field_params \<Rightarrow> bytes \<Rightarrow> (raw_value \<times> bytes) outcome" where
  "raw_field p \<equiv> field p RawKind Ok nil_raw"

abbreviation oid_field :: "field_params \<Rightarrow> bytes \<Rightarrow> (oid \<times> bytes) outcome" where
  "oid_field p \<equiv> field p (PrimKind 6) (contents parseObjectIdentifier) []"

abbreviation int_field :: "field_params \<Rightarrow> bytes \<Rightarrow> (int \<times> bytes) outcome" where
  "int_field p \<equiv> field p (PrimKind 2) (contents parseInt64) 0"

abbreviation big_int_field :: "field_params \<Rightarrow> bytes \<Rightarrow> (int \<times> bytes) outcome" where
  "big_int_field p \<equiv> field p (PrimKind 2) (contents parseBigInt) 0"

text \<open>\<open>parseSequenceOf\<close>: the elements are checked and counted first, then each is parsed.\<close>

definition element_matches :: "go_kind \<Rightarrow> tag_and_length \<Rightarrow> bool" where
  "element_matches k t \<longleftrightarrow> k = RawKind \<or>
     (tl_class t = 0 \<and> tl_compound t = (k = SeqKind) \<and>
      (let tag = (if tl_tag t \<in> {12, 18, 20, 22, 27, 30} then 19
                  else if tl_tag t = 24 then 23 else tl_tag t) in
       tag = (case k of PrimKind n \<Rightarrow> n | SeqKind \<Rightarrow> 16 | TimeKind \<Rightarrow> 23 | StringKind \<Rightarrow> 19 | RawKind \<Rightarrow> 0)))"

function countElements :: "go_kind \<Rightarrow> bytes \<Rightarrow> nat outcome" where
  "countElements k bs =
     (if bs = [] then Ok 0
      else obind (parseTagAndLength bs) (\<lambda>(t, rest).
        if \<not> element_matches k t then Err (StructuralError ''sequence tag mismatch'')
        else if tl_length t > length rest then Err (SyntaxError ''truncated sequence'')
        else obind (countElements k (drop (tl_length t) rest)) (\<lambda>n. Ok (Suc n))))"
  by pat_completeness auto

lemma parseTagAndLength_shorter: "parseTagAndLength bs = Ok (t, rest) \<Longrightarrow> length rest < length bs"
  by (drule parseTagAndLength_canonical(1)) (simp add: neq_Nil_conv)

termination countElements
  by (relation "measure (length \<circ> snd)") (auto dest!: parseTagAndLength_shorter)

declare countElements.simps [simp del]

fun parseElements :: "(bytes \<Rightarrow> ('a \<times> bytes) outcome) \<Rightarrow> nat \<Rightarrow> bytes \<Rightarrow> 'a list outcome" where
  "parseElements elt 0 bs = Ok []"
| "parseElements elt (Suc n) bs =
     obind (elt bs) (\<lambda>(x, rest). obind (parseElements elt n rest) (\<lambda>xs. Ok (x # xs)))"

definition parseSequenceOf ::
  "go_kind \<Rightarrow> (bytes \<Rightarrow> ('a \<times> bytes) outcome) \<Rightarrow> bytes \<Rightarrow> 'a list outcome" where
  "parseSequenceOf k elt bs = obind (countElements k bs) (\<lambda>n. parseElements elt n bs)"

subsection \<open>Writers\<close>

text \<open>
  \<open>makeField\<close> and \<open>makeBody\<close> for the Go types of the repository.  \<open>set_body\<close> is the \<open>setEncoder\<close>,
  which orders the encodings of a SET OF; an optional field with the zero value is not written.
\<close>

definition set_body :: "bytes list \<Rightarrow> bytes" where
  "set_body encs = concat (sort encs)"

definition seq_tlv :: "bytes \<Rightarrow> bytes" where
  "seq_tlv body = tlv 0 16 True body"

definition set_tlv :: "bytes list \<Rightarrow> bytes" where
  "set_tlv encs = tlv 0 17 True (set_body encs)"

definition int_tlv :: "int \<Rightarrow> bytes" where
  "int_tlv i = tlv 0 2 False (int_octets i)"

definition octets_tlv :: "bytes \<Rightarrow> bytes" where
  "octets_tlv bs = tlv 0 4 False bs"

definition oid_tlv :: "oid \<Rightarrow> bytes outcome" where
  "oid_tlv oid = obind (makeObjectIdentifier oid) (\<lambda>bs. Ok (tlv 0 6 False bs))"

definition optional_raw :: "raw_value \<Rightarrow> bytes" where
  "optional_raw rv = (if rv = nil_raw then [] else marshal_raw rv)"

subsection \<open>Reading a field that was written\<close>

lemma parseTagAndLength_tlv:
  assumes "wf_tlv c t body"
  shows "parseTagAndLength (tlv c t k body @ rest)
    = Ok (\<lparr>tl_class = c, tl_tag = t, tl_length = length body, tl_compound = k\<rparr>, body @ rest)"
  using assms unfolding tlv_def append_assoc
  by (intro parseTagAndLength_append) (simp add: wf_header_def wf_tlv_def)

lemma parseField_tlv:
  assumes "wf_tlv c t body" "\<not> fp_explicit p"
    and "tags_match p k \<lparr>tl_class = c, tl_tag = t, tl_length = length body, tl_compound = cpd\<rparr>"
  shows "parseField p k (tlv c t cpd body @ rest) = Ok (Some (raw_of c t cpd body), rest)"
  using assms by (simp add: parseField_def parseTagAndLength_tlv strip_explicit_def take_element_tlv)

lemma parseField_explicit_raw:
  assumes "wf_tlv 2 n body" "fp_explicit p" "fp_tag p = Some n" "body @ rest \<noteq> []"
  shows "parseField p RawKind (tlv 2 n True body @ rest) = Ok (Some (raw_of 2 n True body), rest)"
  using assms
  by (simp add: parseField_def parseTagAndLength_tlv strip_explicit_def take_element_tlv tags_match_def)

lemma parseField_absent_Nil: "fp_optional p \<Longrightarrow> parseField p k [] = Ok (None, [])"
  by (simp add: parseField_def absent_def)

lemma parseField_absent_tlv:
  assumes "wf_tlv c t body" "fp_optional p" "\<not> fp_explicit p"
    and "\<not> tags_match p k \<lparr>tl_class = c, tl_tag = t, tl_length = length body, tl_compound = cpd\<rparr>"
  shows "parseField p k (tlv c t cpd body @ rest) = Ok (None, tlv c t cpd body @ rest)"
  using assms by (simp add: parseField_def absent_def parseTagAndLength_tlv strip_explicit_def)

lemma parseField_present:
  assumes "parseField p k bs = Ok (Some rv, rest)" "\<not> fp_explicit p \<or> k = RawKind"
  obtains c t cpd body where "bs = tlv c t cpd body @ rest" "rv = raw_of c t cpd body" "wf_tlv c t body"
    "tags_match p k \<lparr>tl_class = c, tl_tag = t, tl_length = length body, tl_compound = cpd\<rparr>"
proof -
  from assms obtain t inner where bs: "bs \<noteq> []" and hdr: "parseTagAndLength bs = Ok (t, inner)"
    and el: "take_element bs t inner = Ok (rv, rest)" and m: "tags_match p k t"
    by (auto simp: parseField_def absent_def strip_explicit_def outcome_simps
        split: if_splits option.splits)
  then have "unmarshal_raw bs = Ok (rv, rest)" by (simp add: unmarshal_raw_def)
  then obtain c tag cpd body where u: "bs = tlv c tag cpd body @ rest" "rv = raw_of c tag cpd body"
      "wf_tlv c tag body"
    by (rule unmarshal_raw_canonical)
  then have "t = \<lparr>tl_class = c, tl_tag = tag, tl_length = length body, tl_compound = cpd\<rparr>"
    using hdr by (simp add: parseTagAndLength_tlv)
  then show ?thesis using that u m by blast
qed

lemma parseField_missing:
  assumes "parseField p k bs = Ok (None, rest)"
  shows "rest = bs" and "fp_optional p"
  using assms
  by (auto simp: parseField_def absent_def outcome_simps split: if_splits option.splits prod.splits)

lemma field_tlv:
  assumes "wf_tlv c t body" "\<not> fp_explicit p"
    and "tags_match p k \<lparr>tl_class = c, tl_tag = t, tl_length = length body, tl_compound = cpd\<rparr>"
    and "dec (raw_of c t cpd body) = Ok v"
  shows "field p k dec dflt (tlv c t cpd body @ rest) = Ok (v, rest)"
  using assms by (simp add: field_def parseField_tlv)

lemma field_absent_Nil: "fp_optional p \<Longrightarrow> field p k dec dflt [] = Ok (dflt, [])"
  by (simp add: field_def parseField_absent_Nil)

lemma field_absent_tlv:
  assumes "wf_tlv c t body" "fp_optional p" "\<not> fp_explicit p"
    and "\<not> tags_match p k \<lparr>tl_class = c, tl_tag = t, tl_length = length body, tl_compound = cpd\<rparr>"
  shows "field p k dec dflt (tlv c t cpd body @ rest) = Ok (dflt, tlv c t cpd body @ rest)"
  using assms by (simp add: field_def parseField_absent_tlv)

lemma plain_sel [simp]:
  "\<not> fp_optional plain" "\<not> fp_explicit plain" "\<not> fp_set plain" "fp_tag plain = None"
  by (simp_all add: plain_def)

lemma int_field_tlv [simp]:
  assumes "length (int_octets i) \<le> 8"
  shows "int_field plain (int_tlv i @ rest) = Ok (i, rest)"
  unfolding int_tlv_def using assms
  by (intro field_tlv)
    (simp_all add: wf_tlv_def tags_match_def universal_tag_def contents_def parseInt64_def)

lemma big_int_field_tlv [simp]:
  assumes "length (int_octets i) < 2 ^ 31"
  shows "big_int_field plain (int_tlv i @ rest) = Ok (i, rest)"
  unfolding int_tlv_def using assms
  by (intro field_tlv) (simp_all add: wf_tlv_def tags_match_def universal_tag_def contents_def)

lemma oid_field_tlv:
  assumes "wf_oid oid" "oid_tlv oid = Ok bs" "length bs < 2 ^ 31"
  shows "oid_field plain (bs @ rest) = Ok (oid, rest)"
proof -
  from assms obtain os where os: "makeObjectIdentifier oid = Ok os" "bs = tlv 0 6 False os"
    by (auto simp: oid_tlv_def outcome_simps)
  then have "length os < 2 ^ 31" using assms(3) by (simp add: tlv_def)
  then show ?thesis
    unfolding os(2)
    by (intro field_tlv)
      (simp_all add: wf_tlv_def tags_match_def universal_tag_def contents_def
        parse_makeObjectIdentifier [OF assms(1) os(1)])
qed

lemma raw_field_plain [simp]:
  "wf_tlv c t body \<Longrightarrow> raw_field plain (tlv c t cpd body @ rest) = Ok (raw_of c t cpd body, rest)"
  by (intro field_tlv) (simp_all add: tags_match_def)

lemma raw_field_plain_eq: "raw_field plain bs = unmarshal_raw bs"
  by (cases "parseTagAndLength bs")
    (auto simp: field_def parseField_def unmarshal_raw_def absent_def strip_explicit_def tags_match_def
      obind_assoc split_beta)

subsection \<open>SEQUENCE OF and SET OF\<close>

definition element_tlv :: "go_kind \<Rightarrow> bytes \<Rightarrow> bool" where
  "element_tlv k bs \<longleftrightarrow> (\<exists>c t cpd body. bs = tlv c t cpd body \<and> wf_tlv c t body \<and>
     element_matches k \<lparr>tl_class = c, tl_tag = t, tl_length = length body, tl_compound = cpd\<rparr>)"

lemma countElements_concat:
  assumes "\<forall>bs \<in> set encs. element_tlv k bs"
  shows "countElements k (concat encs) = Ok (length encs)"
  using assms
proof (induction encs)
  case Nil
  show ?case by (simp add: countElements.simps)
next
  case (Cons bs encs)
  then obtain c t cpd body where "bs = tlv c t cpd body" "wf_tlv c t body"
      "element_matches k \<lparr>tl_class = c, tl_tag = t, tl_length = length body, tl_compound = cpd\<rparr>"
    by (auto simp: element_tlv_def)
  then show ?case
    using Cons by (simp add: countElements.simps [of k "tlv c t cpd body @ _"] parseTagAndLength_tlv)
qed

lemma parseElements_concat:
  assumes "\<forall>x \<in> set xs. \<forall>rest. elt (enc x @ rest) = Ok (x, rest)"
  shows "parseElements elt (length xs) (concat (map enc xs)) = Ok xs"
  using assms by (induction xs) simp_all

lemma parseSequenceOf_concat:
  assumes "\<forall>x \<in> set xs. element_tlv k (enc x)"
    and "\<forall>x \<in> set xs. \<forall>rest. elt (enc x @ rest) = Ok (x, rest)"
  shows "parseSequenceOf k elt (concat (map enc xs)) = Ok xs"
  using assms countElements_concat [of "map enc xs" k]
  by (simp add: parseSequenceOf_def parseElements_concat)

end
