(* ===== verification/Any_Set.thy ===== *)
theory Any_Set
  imports Go_Asn1_Fields
begin

text \<open>
  ietf-cms/protocol/any_set.go: SET OF ANY, which Go's parser cannot handle.  \<open>DecodeAnySet\<close> reads
  the elements of a raw SET, \<open>Encode\<close> writes them into a raw value the caller supplies.  The loop and
  the element codec \<open>asn1.Marshal\<close>/\<open>asn1.Unmarshal\<close> of \<open>RawValue\<close> are an instance of \<open>element_codec\<close>.
\<close>

subsection \<open>The code\<close>

record AnySet =
  Elements :: "raw_value slice"

definition NewAnySet :: "raw_value slice \<Rightarrow> AnySet" where
  "NewAnySet elts = \<lparr>Elements = elts\<rparr>"

function decode_elements :: "bytes \<Rightarrow> raw_value list outcome" where
  "decode_elements der =
     (if der = [] then Ok []
      else obind (unmarshal_raw der) (\<lambda>(rv, rest).
        obind (decode_elements rest) (\<lambda>rvs. Ok (rv # rvs))))"
  by pat_completeness auto
termination
  by (relation "measure length") (auto dest: unmarshal_raw_shorter)

declare decode_elements.simps [simp del]

definition DecodeAnySet :: "raw_value \<Rightarrow> AnySet outcome" where
  "DecodeAnySet rv =
     (if rv_Class rv \<noteq> 0
      then Err (ASN1Error (''Bad class. Expecting 0, got '' @ show_nat (rv_Class rv)))
      else if rv_Tag rv \<noteq> 17
      then Err (ASN1Error (''Bad tag. Expecting 17, got '' @ show_nat (rv_Tag rv)))
      else obind (decode_elements (elems (rv_Bytes rv))) (\<lambda>rvs.
        Ok \<lparr>Elements = go_append None rvs\<rparr>))"

text \<open>
  \<open>Encode(dst)\<close> returns the updated \<open>dst\<close>.  It appends to \<open>dst.Bytes\<close>, and \<open>asn1.Marshal(*dst)\<close>
  returns \<open>dst.FullBytes\<close> itself when that is not empty.
\<close>

definition AnySet_Encode :: "AnySet \<Rightarrow> raw_value \<Rightarrow> raw_value" where
  "AnySet_Encode as dst =
     (let dst = dst\<lparr>rv_Class := 0, rv_Tag := 17, rv_IsCompound := True\<rparr>;
          dst = dst\<lparr>rv_Bytes := fold (\<lambda>elt bs. go_append bs (marshal_raw elt)) (elems (Elements as)) (rv_Bytes dst)\<rparr>
      in dst\<lparr>rv_FullBytes := Some (marshal_raw dst)\<rparr>)"

subsection \<open>The loop is inverse to concatenation\<close>

text \<open>The raw values that \<open>Unmarshal\<close> produces.\<close>

definition decoded_raw :: "raw_value \<Rightarrow> bool" where
  "decoded_raw rv \<longleftrightarrow> (\<exists>c t k body. rv = raw_of c t k body \<and> wf_tlv c t body)"

lemma decoded_rawE:
  assumes "decoded_raw rv"
  obtains c t k body where "rv = raw_of c t k body" "wf_tlv c t body"
  using assms by (auto simp: decoded_raw_def)

lemma decoded_raw_raw_of: "wf_tlv c t body \<Longrightarrow> decoded_raw (raw_of c t k body)"
  by (auto simp: decoded_raw_def)

lemma unmarshal_raw_decoded: "unmarshal_raw bs = Ok (rv, rest) \<Longrightarrow> decoded_raw rv"
  by (auto simp: decoded_raw_def elim!: unmarshal_raw_canonical)

lemma unmarshal_marshal_raw: "decoded_raw rv \<Longrightarrow> unmarshal_raw (marshal_raw rv @ rest) = Ok (rv, rest)"
  by (auto elim!: decoded_rawE)

lemma marshal_raw_not_Nil: "decoded_raw rv \<Longrightarrow> marshal_raw rv \<noteq> []"
  by (auto elim!: decoded_rawE)

interpretation any: element_codec marshal_raw unmarshal_raw decoded_raw decode_elements
proof unfold_locales
  show "unmarshal_raw bs = Ok (x, rest) \<Longrightarrow> bs = marshal_raw x @ rest \<and> decoded_raw x" for bs x rest
    using marshal_unmarshal_raw unmarshal_raw_decoded by metis
  show "decode_elements [] = Ok []" by (simp add: decode_elements.simps)
  show "bs \<noteq> [] \<Longrightarrow> decode_elements bs
    = obind (unmarshal_raw bs) (\<lambda>(x, rest). obind (decode_elements rest) (\<lambda>xs. Ok (x # xs)))" for bs
    by (subst decode_elements.simps) simp
qed (simp_all add: unmarshal_marshal_raw marshal_raw_not_Nil)

lemma decode_elements_not_panics [simp]: "decode_elements bs \<noteq> Panic p"
proof (induction bs rule: decode_elements.induct)
  case (1 bs)
  show ?case
  proof
    assume "decode_elements bs = Panic p"
    then obtain rv rest where "bs \<noteq> []" "unmarshal_raw bs = Ok (rv, rest)" "decode_elements rest = Panic p"
      by (subst (asm) decode_elements.simps) (auto simp: outcome_simps split: if_splits)
    then show False using "1.IH" [OF \<open>bs \<noteq> []\<close> \<open>unmarshal_raw bs = Ok (rv, rest)\<close> refl] by simp
  qed
qed

lemma elems_fold_go_append:
  "elems (fold (\<lambda>elt bs. go_append bs (f elt)) xs bs) = elems bs @ concat (map f xs)"
  by (induction xs arbitrary: bs) simp_all

lemma Encode_nil_raw_sel:
  "rv_Class (AnySet_Encode as nil_raw) = 0" "rv_Tag (AnySet_Encode as nil_raw) = 17"
  "rv_IsCompound (AnySet_Encode as nil_raw)"
  "elems (rv_Bytes (AnySet_Encode as nil_raw)) = concat (map marshal_raw (elems (Elements as)))"
  "rv_FullBytes (AnySet_Encode as nil_raw)
     = Some (tlv 0 17 True (concat (map marshal_raw (elems (Elements as)))))"
  by (simp_all add: AnySet_Encode_def nil_raw_def Let_def elems_fold_go_append marshal_raw_fresh)

lemma go_append_None: "go_append None xs = (if xs = [] then None else Some xs)"
  by (simp add: go_append_def)

lemma DecodeAnySet_not_panics: "DecodeAnySet rv \<noteq> Panic p"
  by (simp add: DecodeAnySet_def outcome_simps)

lemma DecodeAnySet_Ok_iff:
  "DecodeAnySet rv = Ok as \<longleftrightarrow> rv_Class rv = 0 \<and> rv_Tag rv = 17 \<and>
     elems (rv_Bytes rv) = concat (map marshal_raw (elems (Elements as))) \<and>
     Elements as \<noteq> Some [] \<and> (\<forall>x \<in> set (elems (Elements as)). decoded_raw x)"
  by (cases as; cases "AnySet.Elements as")
    (auto simp: DecodeAnySet_def outcome_simps any.loop_Ok_iff go_append_None split: if_splits)

subsection \<open>Properties\<close>

text \<open>
  Encoding a set of raw values into a fresh raw value and decoding that gives the set back, in
  order; the encoded value itself survives \<open>asn1.Marshal\<close> followed by \<open>asn1.Unmarshal\<close>.  A set
  without elements comes back with a nil slice.
\<close>

theorem AnySet_encode_decode:
  assumes "\<forall>rv \<in> set xs. decoded_raw rv" and "length (concat (map marshal_raw xs)) < 2 ^ 31"
  shows "DecodeAnySet (AnySet_Encode (NewAnySet (Some xs)) nil_raw) = Ok (NewAnySet (go_append None xs)) \<and>
    unmarshal_raw (marshal_raw (AnySet_Encode (NewAnySet (Some xs)) nil_raw) @ rest)
      = Ok (raw_of 0 17 True (concat (map marshal_raw xs)), rest)"
proof
  show "DecodeAnySet (AnySet_Encode (NewAnySet (Some xs)) nil_raw) = Ok (NewAnySet (go_append None xs))"
    using assms(1)
    by (simp add: DecodeAnySet_def Encode_nil_raw_sel NewAnySet_def any.loop_concat)
  show "unmarshal_raw (marshal_raw (AnySet_Encode (NewAnySet (Some xs)) nil_raw) @ rest)
      = Ok (raw_of 0 17 True (concat (map marshal_raw xs)), rest)"
    using assms(2) by (simp add: marshal_raw_def Encode_nil_raw_sel NewAnySet_def wf_tlv_def)
qed

lemma decoded_raw_example: "decoded_raw (raw_of 0 4 False [1, 2]) \<and> decoded_raw (raw_of 0 5 False [])"
  by (intro conjI decoded_raw_raw_of) (simp_all add: wf_tlv_def)

theorem AnySet_encode_decode_witness:
  "DecodeAnySet (AnySet_Encode (NewAnySet (Some [raw_of 0 4 False [1, 2], raw_of 0 5 False []])) nil_raw)
   = Ok (NewAnySet (Some [raw_of 0 4 False [1, 2], raw_of 0 5 False []]))"
proof -
  have "length (concat (map marshal_raw [raw_of 0 4 False [1, 2], raw_of 0 5 False []])) < 2 ^ 31"
    by (simp add: tlv_def appendTagAndLength_def length_octets_def)
  then show ?thesis
    using AnySet_encode_decode [of "[raw_of 0 4 False [1, 2], raw_of 0 5 False []]"] decoded_raw_example
    by (simp add: go_append_None)
qed

text \<open>
  C27: Decoding is exact: the elements \<open>DecodeAnySet\<close> returns concatenate to the contents octets of
  the SET, so encoding them again gives the very bytes of a constructed SET, with nothing lost,
  added or reordered (a received, unsorted SET keeps its order); and no input makes it panic.
\<close>

theorem AnySet_decode_encode:
  assumes "decoded_raw rv" and "DecodeAnySet rv = Ok as"
  shows "concat (map marshal_raw (elems (Elements as))) = elems (rv_Bytes rv) \<and>
    (rv_IsCompound rv \<longrightarrow> marshal_raw (AnySet_Encode as nil_raw) = marshal_raw rv) \<and>
    \<not> panics (DecodeAnySet rv')"
proof -
  obtain c t k body where rv: "rv = raw_of c t k body" by (rule decoded_rawE [OF assms(1)])
  then have *: "c = 0" "t = 17" "body = concat (map marshal_raw (elems (Elements as)))"
    using assms(2) by (simp_all add: DecodeAnySet_Ok_iff)
  then show ?thesis
    using rv by (simp add: marshal_raw_def Encode_nil_raw_sel panics_iff DecodeAnySet_not_panics)
qed

theorem AnySet_decode_encode_witness:
  "marshal_raw (AnySet_Encode (NewAnySet (Some [raw_of 0 5 False [], raw_of 0 4 False [1]])) nil_raw)
   = marshal_raw (raw_of 0 17 True [5, 0, 4, 1, 1])"
proof -
  have "decoded_raw (raw_of 0 17 True [5, 0, 4, 1, 1])"
    by (rule decoded_raw_raw_of) (simp add: wf_tlv_def)
  moreover have "DecodeAnySet (raw_of 0 17 True [5, 0, 4, 1, 1])
      = Ok (NewAnySet (Some [raw_of 0 5 False [], raw_of 0 4 False [1]]))"
    by code_simp
  ultimately show ?thesis using AnySet_decode_encode by force
qed

end
