(* ===== verification/Oid.thy ===== *)
theory Oid
  imports Prelude
begin

text \<open>
  ietf-cms/oid/oid.go: the object identifiers and the tables between digest OIDs, signature OIDs,
  \<open>crypto.Hash\<close>, \<open>x509.SignatureAlgorithm\<close> and \<open>x509.PublicKeyAlgorithm\<close>.  The Go tables are keyed
  by the dotted \<open>String()\<close> of an OID; a missing key yields the zero value, which is \<open>NoHash\<close>,
  \<open>UnknownSignatureAlgorithm\<close> or the nil OID \<open>[]\<close>.
\<close>

subsection \<open>Object identifiers\<close>

definition ContentTypeData :: oid where
  "ContentTypeData = [1, 2, 840, 113549, 1, 7, 1]"

definition ContentTypeSignedData :: oid where
  "ContentTypeSignedData = [1, 2, 840, 113549, 1, 7, 2]"

definition ContentTypeTSTInfo :: oid where
  "ContentTypeTSTInfo = [1, 2, 840, 113549, 1, 9, 16, 1, 4]"

definition AttributeContentType :: oid where
  "AttributeContentType = [1, 2, 840, 113549, 1, 9, 3]"

definition AttributeMessageDigest :: oid where
  "AttributeMessageDigest = [1, 2, 840, 113549, 1, 9, 4]"

definition AttributeSigningTime :: oid where
  "AttributeSigningTime = [1, 2, 840, 113549, 1, 9, 5]"

definition AttributeTimeStampToken :: oid where
  "AttributeTimeStampToken = [1, 2, 840, 113549, 1, 9, 16, 2, 14]"

definition PublicKeyAlgorithmRSA :: oid where
  "PublicKeyAlgorithmRSA = [1, 2, 840, 113549, 1, 1, 1]"

definition PublicKeyAlgorithmECDSA :: oid where
  "PublicKeyAlgorithmECDSA = [1, 2, 840, 10045, 2, 1]"

definition DigestAlgorithmSHA1 :: oid where
  "DigestAlgorithmSHA1 = [1, 3, 14, 3, 2, 26]"

definition DigestAlgorithmMD5 :: oid where
  "DigestAlgorithmMD5 = [1, 2, 840, 113549, 2, 5]"

definition DigestAlgorithmSHA256 :: oid where
  "DigestAlgorithmSHA256 = [2, 16, 840, 1, 101, 3, 4, 2, 1]"

definition DigestAlgorithmSHA384 :: oid where
  "DigestAlgorithmSHA384 = [2, 16, 840, 1, 101, 3, 4, 2, 2]"

definition DigestAlgorithmSHA512 :: oid where
  "DigestAlgorithmSHA512 = [2, 16, 840, 1, 101, 3, 4, 2, 3]"

definition SignatureAlgorithmMD2WithRSA :: oid where
  "SignatureAlgorithmMD2WithRSA = [1, 2, 840, 113549, 1, 1, 2]"

definition SignatureAlgorithmMD5WithRSA :: oid where
  "SignatureAlgorithmMD5WithRSA = [1, 2, 840, 113549, 1, 1, 4]"

definition SignatureAlgorithmSHA1WithRSA :: oid where
  "SignatureAlgorithmSHA1WithRSA = [1, 2, 840, 113549, 1, 1, 5]"

definition SignatureAlgorithmSHA256WithRSA :: oid where
  "SignatureAlgorithmSHA256WithRSA = [1, 2, 840, 113549, 1, 1, 11]"

definition SignatureAlgorithmSHA384WithRSA :: oid where
  "SignatureAlgorithmSHA384WithRSA = [1, 2, 840, 113549, 1, 1, 12]"

definition SignatureAlgorithmSHA512WithRSA :: oid where
  "SignatureAlgorithmSHA512WithRSA = [1, 2, 840, 113549, 1, 1, 13]"

definition SignatureAlgorithmRSAPSS :: oid where
  "SignatureAlgorithmRSAPSS = [1, 2, 840, 113549, 1, 1, 10]"

definition SignatureAlgorithmDSAWithSHA1 :: oid where
  "SignatureAlgorithmDSAWithSHA1 = [1, 2, 840, 10040, 4, 3]"

definition SignatureAlgorithmDSAWithSHA256 :: oid where
  "SignatureAlgorithmDSAWithSHA256 = [2, 16, 840, 1, 101, 3, 4, 3, 2]"

definition SignatureAlgorithmECDSAWithSHA1 :: oid where
  "SignatureAlgorithmECDSAWithSHA1 = [1, 2, 840, 10045, 4, 1]"

definition SignatureAlgorithmECDSAWithSHA256 :: oid where
  "SignatureAlgorithmECDSAWithSHA256 = [1, 2, 840, 10045, 4, 3, 2]"

definition SignatureAlgorithmECDSAWithSHA384 :: oid where
  "SignatureAlgorithmECDSAWithSHA384 = [1, 2, 840, 10045, 4, 3, 3]"

definition SignatureAlgorithmECDSAWithSHA512 :: oid where
  "SignatureAlgorithmECDSAWithSHA512 = [1, 2, 840, 10045, 4, 3, 4]"

definition SignatureAlgorithmISOSHA1WithRSA :: oid where
  "SignatureAlgorithmISOSHA1WithRSA = [1, 3, 14, 3, 2, 29]"

definition ExtensionSubjectKeyIdentifier :: oid where
  "ExtensionSubjectKeyIdentifier = [2, 5, 29, 14]"

lemmas oid_defs = ContentTypeData_def ContentTypeSignedData_def ContentTypeTSTInfo_def
  AttributeContentType_def AttributeMessageDigest_def AttributeSigningTime_def
  AttributeTimeStampToken_def PublicKeyAlgorithmRSA_def PublicKeyAlgorithmECDSA_def
  DigestAlgorithmSHA1_def DigestAlgorithmMD5_def DigestAlgorithmSHA256_def
  DigestAlgorithmSHA384_def DigestAlgorithmSHA512_def SignatureAlgorithmMD2WithRSA_def
  SignatureAlgorithmMD5WithRSA_def SignatureAlgorithmSHA1WithRSA_def
  SignatureAlgorithmSHA256WithRSA_def SignatureAlgorithmSHA384WithRSA_def
  SignatureAlgorithmSHA512WithRSA_def SignatureAlgorithmRSAPSS_def
  SignatureAlgorithmDSAWithSHA1_def SignatureAlgorithmDSAWithSHA256_def
  SignatureAlgorithmECDSAWithSHA1_def SignatureAlgorithmECDSAWithSHA256_def
  SignatureAlgorithmECDSAWithSHA384_def SignatureAlgorithmECDSAWithSHA512_def
  SignatureAlgorithmISOSHA1WithRSA_def ExtensionSubjectKeyIdentifier_def

text \<open>\<open>ObjectIdentifier.String\<close>.\<close>

fun oid_String :: "oid \<Rightarrow> string" where
  "oid_String [] = []"
| "oid_String [a] = show_nat a"
| "oid_String (a # b # cs) = show_nat a @ ''.'' @ oid_String (b # cs)"

subsection \<open>Algorithms\<close>

text \<open>\<open>NoHash\<close> is the zero \<open>crypto.Hash\<close>; \<open>OtherHash\<close> stands for the hashes the tables do not name.\<close>

datatype crypto_hash = NoHash | MD5 | SHA1 | SHA256 | SHA384 | SHA512 | OtherHash nat

datatype signature_algorithm = UnknownSignatureAlgorithm | MD2WithRSA | MD5WithRSA | SHA1WithRSA
  | SHA256WithRSA | SHA384WithRSA | SHA512WithRSA | DSAWithSHA1 | DSAWithSHA256 | ECDSAWithSHA1
  | ECDSAWithSHA256 | ECDSAWithSHA384 | ECDSAWithSHA512 | OtherSignatureAlgorithm nat

datatype public_key_algorithm = UnknownPublicKeyAlgorithm | RSA | DSA | ECDSA | Ed25519

text \<open>A Go map literal keyed by \<open>String()\<close>s, and the lookup that yields the zero value when the key is
  missing.\<close>

definition string_map :: "(oid \<times> 'a) list \<Rightarrow> string \<rightharpoonup> 'a" where
  "string_map kvs = map_of (map (\<lambda>(k, v). (oid_String k, v)) kvs)"

definition lookup :: "('k \<rightharpoonup> 'v) \<Rightarrow> 'v \<Rightarrow> 'k \<Rightarrow> 'v" where
  "lookup m zero k = (case m k of None \<Rightarrow> zero | Some v \<Rightarrow> v)"

definition DigestAlgorithmToCryptoHash :: "string \<rightharpoonup> crypto_hash" where
  "DigestAlgorithmToCryptoHash = string_map
     [(DigestAlgorithmSHA1, SHA1),
      (DigestAlgorithmMD5, MD5),
      (DigestAlgorithmSHA256, SHA256),
      (DigestAlgorithmSHA384, SHA384),
      (DigestAlgorithmSHA512, SHA512)]"

definition CryptoHashToDigestAlgorithm :: "crypto_hash \<rightharpoonup> oid" where
  "CryptoHashToDigestAlgorithm = map_of
     [(SHA1, DigestAlgorithmSHA1),
      (MD5, DigestAlgorithmMD5),
      (SHA256, DigestAlgorithmSHA256),
      (SHA384, DigestAlgorithmSHA384),
      (SHA512, DigestAlgorithmSHA512)]"

definition X509SignatureAlgorithmToDigestAlgorithm :: "signature_algorithm \<rightharpoonup> oid" where
  "X509SignatureAlgorithmToDigestAlgorithm = map_of
     [(SHA1WithRSA, DigestAlgorithmSHA1),
      (MD5WithRSA, DigestAlgorithmMD5),
      (SHA256WithRSA, DigestAlgorithmSHA256),
      (SHA384WithRSA, DigestAlgorithmSHA384),
      (SHA512WithRSA, DigestAlgorithmSHA512),
      (ECDSAWithSHA1, DigestAlgorithmSHA1),
      (ECDSAWithSHA256, DigestAlgorithmSHA256),
      (ECDSAWithSHA384, DigestAlgorithmSHA384),
      (ECDSAWithSHA512, DigestAlgorithmSHA512)]"

definition X509SignatureAlgorithmToPublicKeyAlgorithm :: "signature_algorithm \<rightharpoonup> oid" where
  "X509SignatureAlgorithmToPublicKeyAlgorithm = map_of
     [(SHA1WithRSA, PublicKeyAlgorithmRSA),
      (MD5WithRSA, PublicKeyAlgorithmRSA),
      (SHA256WithRSA, PublicKeyAlgorithmRSA),
      (SHA384WithRSA, PublicKeyAlgorithmRSA),
      (SHA512WithRSA, PublicKeyAlgorithmRSA),
      (ECDSAWithSHA1, PublicKeyAlgorithmECDSA),
      (ECDSAWithSHA256, PublicKeyAlgorithmECDSA),
      (ECDSAWithSHA384, PublicKeyAlgorithmECDSA),
      (ECDSAWithSHA512, PublicKeyAlgorithmECDSA)]"

definition PublicKeyAndDigestAlgorithmToX509SignatureAlgorithm :: "string \<rightharpoonup> (string \<rightharpoonup> signature_algorithm)" where
  "PublicKeyAndDigestAlgorithmToX509SignatureAlgorithm = string_map
     [(PublicKeyAlgorithmRSA, string_map
        [(DigestAlgorithmSHA1, SHA1WithRSA),
         (DigestAlgorithmMD5, MD5WithRSA),
         (DigestAlgorithmSHA256, SHA256WithRSA),
         (DigestAlgorithmSHA384, SHA384WithRSA),
         (DigestAlgorithmSHA512, SHA512WithRSA)]),
      (PublicKeyAlgorithmECDSA, string_map
        [(DigestAlgorithmSHA1, ECDSAWithSHA1),
         (DigestAlgorithmSHA256, ECDSAWithSHA256),
         (DigestAlgorithmSHA384, ECDSAWithSHA384),
         (DigestAlgorithmSHA512, ECDSAWithSHA512)])]"

definition SignatureAlgorithmToX509SignatureAlgorithm :: "string \<rightharpoonup> signature_algorithm" where
  "SignatureAlgorithmToX509SignatureAlgorithm = string_map
     [(SignatureAlgorithmSHA1WithRSA, SHA1WithRSA),
      (SignatureAlgorithmMD5WithRSA, MD5WithRSA),
      (SignatureAlgorithmSHA256WithRSA, SHA256WithRSA),
      (SignatureAlgorithmSHA384WithRSA, SHA384WithRSA),
      (SignatureAlgorithmSHA512WithRSA, SHA512WithRSA),
      (SignatureAlgorithmECDSAWithSHA1, ECDSAWithSHA1),
      (SignatureAlgorithmECDSAWithSHA256, ECDSAWithSHA256),
      (SignatureAlgorithmECDSAWithSHA384, ECDSAWithSHA384),
      (SignatureAlgorithmECDSAWithSHA512, ECDSAWithSHA512),
      (SignatureAlgorithmDSAWithSHA1, DSAWithSHA1)]"

definition X509PublicKeyAndDigestAlgorithmToSignatureAlgorithm :: "public_key_algorithm \<rightharpoonup> (string \<rightharpoonup> oid)" where
  "X509PublicKeyAndDigestAlgorithmToSignatureAlgorithm = map_of
     [(RSA, string_map
        [(DigestAlgorithmSHA1, SignatureAlgorithmSHA1WithRSA),
         (DigestAlgorithmMD5, SignatureAlgorithmMD5WithRSA),
         (DigestAlgorithmSHA256, SignatureAlgorithmSHA256WithRSA),
         (DigestAlgorithmSHA384, SignatureAlgorithmSHA384WithRSA),
         (DigestAlgorithmSHA512, SignatureAlgorithmSHA512WithRSA)]),
      (ECDSA, string_map
        [(DigestAlgorithmSHA1, SignatureAlgorithmECDSAWithSHA1),
         (DigestAlgorithmSHA256, SignatureAlgorithmECDSAWithSHA256),
         (DigestAlgorithmSHA384, SignatureAlgorithmECDSAWithSHA384),
         (DigestAlgorithmSHA512, SignatureAlgorithmECDSAWithSHA512)])]"

lemmas table_defs = DigestAlgorithmToCryptoHash_def CryptoHashToDigestAlgorithm_def
  X509SignatureAlgorithmToDigestAlgorithm_def X509SignatureAlgorithmToPublicKeyAlgorithm_def
  PublicKeyAndDigestAlgorithmToX509SignatureAlgorithm_def
  SignatureAlgorithmToX509SignatureAlgorithm_def X509PublicKeyAndDigestAlgorithmToSignatureAlgorithm_def

subsection \<open>The dotted form identifies an OID\<close>

lemma oid_String_Nil_iff [simp]: "oid_String xs = [] \<longleftrightarrow> xs = []"
  by (cases xs rule: oid_String.cases) simp_all

lemma dot_not_digit: "CHR ''.'' \<notin> set (show_nat n)"
  using show_nat_digits [of "CHR ''.''" n] by auto

lemma split_at_dot:
  assumes "xs @ CHR ''.'' # us = ys @ CHR ''.'' # vs" "CHR ''.'' \<notin> set xs" "CHR ''.'' \<notin> set ys"
  shows "xs = ys \<and> us = vs"
  using assms
proof (induction xs arbitrary: ys)
  case Nil
  then show ?case by (cases ys) auto
next
  case (Cons x xs)
  then show ?case by (cases ys) auto
qed

lemma oid_String_eq_iff [simp]: "oid_String xs = oid_String ys \<longleftrightarrow> xs = ys"
proof
  show "oid_String xs = oid_String ys \<Longrightarrow> xs = ys"
  proof (induction xs arbitrary: ys rule: oid_String.induct)
    case 1
    then show ?case by (metis oid_String_Nil_iff oid_String.simps(1))
  next
    case (2 a)
    then show ?case
      using dot_not_digit [of a] by (cases ys rule: oid_String.cases) auto
  next
    case (3 a b cs)
    then show ?case
    proof (cases ys rule: oid_String.cases)
      case (2 a')
      then show ?thesis using 3 dot_not_digit [of a'] by (auto dest: sym [of _ "show_nat a'"])
    next
      case c: (3 a' b' cs')
      have "show_nat a @ CHR ''.'' # oid_String (b # cs) = show_nat a' @ CHR ''.'' # oid_String (b' # cs')"
        using 3(2) c by simp
      then have "show_nat a = show_nat a' \<and> oid_String (b # cs) = oid_String (b' # cs')"
        by (rule split_at_dot) (rule dot_not_digit)+
      then show ?thesis using 3(1) [of "b' # cs'"] c by simp
    qed simp
  qed
qed simp

lemma string_map_Nil [simp]: "string_map [] s = None"
  by (simp add: string_map_def)

lemma string_map_Cons [simp]:
  "string_map ((k, v) # kvs) (oid_String d) = (if d = k then Some v else string_map kvs (oid_String d))"
  by (auto simp: string_map_def)

subsection \<open>The tables agree\<close>

text \<open>
  The two hash tables are inverse to each other: a digest OID names a hash exactly when the hash
  is announced under that OID.
\<close>

theorem hash_tables_inverse:
  "DigestAlgorithmToCryptoHash (oid_String d) = Some h \<longleftrightarrow> CryptoHashToDigestAlgorithm h = Some d"
proof
  show "DigestAlgorithmToCryptoHash (oid_String d) = Some h \<Longrightarrow> CryptoHashToDigestAlgorithm h = Some d"
    by (auto simp: table_defs split: if_splits)
  show "CryptoHashToDigestAlgorithm h = Some d \<Longrightarrow> DigestAlgorithmToCryptoHash (oid_String d) = Some h"
    by (auto simp: table_defs split: if_splits) (simp_all add: oid_defs)
qed

text \<open>
  The signature OID that a signer picks for its public key algorithm and digest is read back by a
  verifier as an algorithm with that digest and that key type, the same one that the table of key and
  digest OIDs gives.
\<close>

theorem signature_tables_agree:
  assumes "X509PublicKeyAndDigestAlgorithmToSignatureAlgorithm pk = Some row"
    and "row (oid_String d) = Some sig"
  shows "\<exists>sa key row'. SignatureAlgorithmToX509SignatureAlgorithm (oid_String sig) = Some sa \<and>
    sa \<noteq> UnknownSignatureAlgorithm \<and>
    X509SignatureAlgorithmToDigestAlgorithm sa = Some d \<and>
    X509SignatureAlgorithmToPublicKeyAlgorithm sa = Some key \<and>
    key = (if pk = RSA then PublicKeyAlgorithmRSA else PublicKeyAlgorithmECDSA) \<and>
    PublicKeyAndDigestAlgorithmToX509SignatureAlgorithm (oid_String key) = Some row' \<and>
    row' (oid_String d) = Some sa"
proof (cases "pk = RSA")
  case True
  with assms consider
      "d = DigestAlgorithmSHA1 \<and> sig = SignatureAlgorithmSHA1WithRSA"
    | "d = DigestAlgorithmMD5 \<and> sig = SignatureAlgorithmMD5WithRSA"
    | "d = DigestAlgorithmSHA256 \<and> sig = SignatureAlgorithmSHA256WithRSA"
    | "d = DigestAlgorithmSHA384 \<and> sig = SignatureAlgorithmSHA384WithRSA"
    | "d = DigestAlgorithmSHA512 \<and> sig = SignatureAlgorithmSHA512WithRSA"
    unfolding X509PublicKeyAndDigestAlgorithmToSignatureAlgorithm_def
    by (auto split: if_splits)
  then show ?thesis
    using True by cases (simp_all add: table_defs, simp_all add: oid_defs)
next
  case False
  with assms consider
      "d = DigestAlgorithmSHA1 \<and> sig = SignatureAlgorithmECDSAWithSHA1"
    | "d = DigestAlgorithmSHA256 \<and> sig = SignatureAlgorithmECDSAWithSHA256"
    | "d = DigestAlgorithmSHA384 \<and> sig = SignatureAlgorithmECDSAWithSHA384"
    | "d = DigestAlgorithmSHA512 \<and> sig = SignatureAlgorithmECDSAWithSHA512"
    unfolding X509PublicKeyAndDigestAlgorithmToSignatureAlgorithm_def
    by (auto split: if_splits)
  then show ?thesis
    using False by cases (simp_all add: table_defs, simp_all add: oid_defs)
qed

theorem signature_tables_agree_witness:
  "\<exists>sa. SignatureAlgorithmToX509SignatureAlgorithm (oid_String SignatureAlgorithmECDSAWithSHA256) = Some sa \<and>
    X509SignatureAlgorithmToDigestAlgorithm sa = Some DigestAlgorithmSHA256"
proof -
  let ?row = "the (X509PublicKeyAndDigestAlgorithmToSignatureAlgorithm ECDSA)"
  have "X509PublicKeyAndDigestAlgorithmToSignatureAlgorithm ECDSA = Some ?row"
    and "?row (oid_String DigestAlgorithmSHA256) = Some SignatureAlgorithmECDSAWithSHA256"
    by (simp_all add: X509PublicKeyAndDigestAlgorithmToSignatureAlgorithm_def)
      (simp add: oid_defs)
  from signature_tables_agree [OF this] show ?thesis by blast
qed

end
