(* ===== verification/Go_Time.thy ===== *)
theory Go_Time
  imports Big_Endian
begin

text \<open>
  What the repository uses of Go's \<open>time\<close> and of the time half of \<open>encoding/asn1\<close>.  A \<open>time.Time\<close> is
  its wall clock and zone; \<open>instant\<close> is the nanosecond count since 1 January of year 1 UTC, which is
  Go's own internal epoch, so that \<open>IsZero\<close> is \<open>instant t = 0\<close>.  The readers accept the strings that
  \<open>time.Parse\<close> accepts and that format back to themselves, the check both \<open>parseUTCTime\<close> and
  \<open>parseGeneralizedTime\<close> make.
\<close>

record go_time =
  t_year :: nat
  t_month :: nat
  t_day :: nat
  t_hour :: nat
  t_minute :: nat
  t_second :: nat
  t_nanosecond :: nat
  t_offset :: int

subsection \<open>Instants\<close>

definition leap_year :: "nat \<Rightarrow> bool" where
  "leap_year y \<longleftrightarrow> y mod 4 = 0 \<and> (y mod 100 \<noteq> 0 \<or> y mod 400 = 0)"

definition days_in :: "nat \<Rightarrow> nat \<Rightarrow> nat" where
  "days_in m y =
     (if m = 2 then (if leap_year y then 29 else 28) else if m \<in> {4, 6, 9, 11} then 30 else 31)"

definition days_before_year :: "nat \<Rightarrow> int" where
  "days_before_year y = (let n = int y - 1 in 365 * n + n div 4 - n div 100 + n div 400)"

definition day_number :: "nat \<Rightarrow> nat \<Rightarrow> nat \<Rightarrow> int" where
  "day_number y m d =
     days_before_year y + int (\<Sum>i \<leftarrow> [1 ..< m]. days_in i y) + int d - 1"

definition instant :: "go_time \<Rightarrow> int" where
  "instant t =
     (((day_number (t_year t) (t_month t) (t_day t) * 24 + int (t_hour t)) * 60
       + int (t_minute t) - t_offset t) * 60 + int (t_second t)) * 1000000000 + int (t_nanosecond t)"

definition zero_time :: go_time where
  "zero_time = \<lparr>t_year = 1, t_month = 1, t_day = 1, t_hour = 0, t_minute = 0, t_second = 0,
     t_nanosecond = 0, t_offset = 0\<rparr>"

definition valid_time :: "go_time \<Rightarrow> bool" where
  "valid_time t \<longleftrightarrow> 1 \<le> t_month t \<and> t_month t \<le> 12 \<and>
     1 \<le> t_day t \<and> t_day t \<le> days_in (t_month t) (t_year t) \<and>
     t_hour t < 24 \<and> t_minute t < 60 \<and> t_second t < 60"

subsection \<open>Writing\<close>

definition digit :: "nat \<Rightarrow> byte" where
  "digit n = octet (48 + n mod 10)"

definition two_digits :: "nat \<Rightarrow> bytes" where
  "two_digits n = [digit (n div 10), digit n]"

definition appendTimeCommon :: "go_time \<Rightarrow> bytes" where
  "appendTimeCommon t =
     two_digits (t_month t) @ two_digits (t_day t) @ two_digits (t_hour t) @
     two_digits (t_minute t) @ two_digits (t_second t) @
     (if t_offset t = 0 then [octet 90]
      else (if t_offset t > 0 then [octet 43] else [octet 45]) @
        two_digits (nat \<bar>t_offset t\<bar> div 60) @ two_digits (nat \<bar>t_offset t\<bar> mod 60))"

definition outsideUTCRange :: "go_time \<Rightarrow> bool" where
  "outsideUTCRange t \<longleftrightarrow> t_year t < 1950 \<or> t_year t \<ge> 2050"

definition appendUTCTime :: "go_time \<Rightarrow> bytes outcome" where
  "appendUTCTime t =
     (if 1950 \<le> t_year t \<and> t_year t < 2000 then Ok (two_digits (t_year t - 1900) @ appendTimeCommon t)
      else if 2000 \<le> t_year t \<and> t_year t < 2050 then Ok (two_digits (t_year t - 2000) @ appendTimeCommon t)
      else Err (StructuralError ''cannot represent time as UTCTime''))"

definition appendGeneralizedTime :: "go_time \<Rightarrow> bytes outcome" where
  "appendGeneralizedTime t =
     (if t_year t > 9999 then Err (StructuralError ''cannot represent time as GeneralizedTime'')
      else Ok (two_digits (t_year t div 100) @ two_digits (t_year t mod 100) @ appendTimeCommon t))"

subsection \<open>Reading\<close>

fun digits :: "nat \<Rightarrow> nat \<Rightarrow> bytes \<Rightarrow> (nat \<times> bytes) outcome" where
  "digits 0 acc bs = Ok (acc, bs)"
| "digits (Suc n) acc [] = Err (ErrorString ''parsing time'')"
| "digits (Suc n) acc (b # bs) =
     (if 48 \<le> unat b \<and> unat b \<le> 57 then digits n (acc * 10 + (unat b - 48)) bs
      else Err (ErrorString ''parsing time''))"

definition is_digit :: "byte \<Rightarrow> bool" where
  "is_digit b \<longleftrightarrow> 48 \<le> unat b \<and> unat b \<le> 57"

text \<open>The fraction of \<open>.999999999\<close>: formatting drops trailing zeros and keeps at most nine digits.\<close>

definition fraction :: "bytes \<Rightarrow> (nat \<times> bytes) outcome" where
  "fraction bs =
     (case bs of
        p # d # _ \<Rightarrow>
          if unat p = 46 \<and> is_digit d then
            (let ds = takeWhile is_digit (tl bs) in
             if length ds > 9 \<or> last ds = octet 48 then Err (ErrorString ''time did not serialize back'')
             else obind (digits (length ds) 0 (tl bs)) (\<lambda>(n, rest). Ok (n * 10 ^ (9 - length ds), rest)))
          else Ok (0, bs)
      | _ \<Rightarrow> Ok (0, bs))"

definition zone :: "bytes \<Rightarrow> int outcome" where
  "zone bs =
     (case bs of
        [] \<Rightarrow> Err (ErrorString ''parsing time'')
      | c # cs \<Rightarrow>
          if unat c = 90 then (if cs = [] then Ok 0 else Err (ErrorString ''parsing time: extra text''))
          else if unat c = 43 \<or> unat c = 45 then
            obind (digits 2 0 cs) (\<lambda>(hh, cs). obind (digits 2 0 cs) (\<lambda>(mm, cs).
              if cs \<noteq> [] then Err (ErrorString ''parsing time: extra text'')
              else if hh > 24 \<or> mm \<ge> 60 \<or> (hh = 0 \<and> mm = 0)
              then Err (ErrorString ''time did not serialize back'')
              else Ok ((if unat c = 43 then 1 else -1) * int (hh * 60 + mm))))
          else Err (ErrorString ''parsing time''))"

definition parse_clock :: "bool \<Rightarrow> bool \<Rightarrow> nat \<Rightarrow> bytes \<Rightarrow> go_time outcome" where
  "parse_clock seconds frac year bs =
     obind (digits 2 0 bs) (\<lambda>(mo, bs). obind (digits 2 0 bs) (\<lambda>(d, bs).
     obind (digits 2 0 bs) (\<lambda>(h, bs). obind (digits 2 0 bs) (\<lambda>(mi, bs).
     obind (if seconds then digits 2 0 bs else Ok (0, bs)) (\<lambda>(s, bs).
     obind (if frac then fraction bs else Ok (0, bs)) (\<lambda>(ns, bs).
     obind (zone bs) (\<lambda>off.
       let t = \<lparr>t_year = year, t_month = mo, t_day = d, t_hour = h, t_minute = mi, t_second = s,
                t_nanosecond = ns, t_offset = off\<rparr> in
       if valid_time t then Ok t else Err (ErrorString ''parsing time: out of range''))))))))"

definition parse_UTC_format :: "bool \<Rightarrow> bytes \<Rightarrow> go_time outcome" where
  "parse_UTC_format seconds bs =
     obind (digits 2 0 bs) (\<lambda>(yy, bs).
       parse_clock seconds False (if yy \<ge> 69 then 1900 + yy else 2000 + yy) bs)"

definition parseUTCTime :: "bytes \<Rightarrow> go_time outcome" where
  "parseUTCTime bs =
     obind (case parse_UTC_format False bs of Err _ \<Rightarrow> parse_UTC_format True bs | r \<Rightarrow> r)
       (\<lambda>t. Ok (if t_year t \<ge> 2050 then t\<lparr>t_year := t_year t - 100\<rparr> else t))"

definition parseGeneralizedTime :: "bytes \<Rightarrow> go_time outcome" where
  "parseGeneralizedTime bs = obind (digits 4 0 bs) (\<lambda>(year, bs). parse_clock True True year bs)"

subsection \<open>Round trip\<close>

lemma unat_digit: "unat (digit n) = 48 + n mod 10"
  by (simp add: digit_def)

lemma digits_step:
  assumes "n < 100"
  shows "digits (Suc (Suc k)) acc (two_digits n @ rest) = digits k (acc * 100 + n) rest"
proof -
  have "n div 10 < 10" using assms by (simp add: less_mult_imp_div_less)
  then have "n div 10 mod 10 = n div 10" by simp
  moreover have "n mod 10 \<le> 9" using mod_less_divisor [of 10 n] by linarith
  moreover have "(acc * 10 + n div 10) * 10 + n mod 10 = acc * 100 + n"
    by (simp add: algebra_simps)
  ultimately show ?thesis
    using \<open>n div 10 < 10\<close> by (simp add: two_digits_def unat_digit mult.commute add.commute)
qed

lemma digits_two_digits [simp]: "n < 100 \<Longrightarrow> digits 2 0 (two_digits n @ rest) = Ok (n, rest)"
  using digits_step [of n 0 0] by (simp add: numeral_2_eq_2)

lemma numeral_4_eq_Suc: "4 = Suc (Suc (Suc (Suc 0)))"
  by simp

lemma digits_four_digits [simp]:
  assumes "n \<le> 9999"
  shows "digits 4 0 (two_digits (n div 100) @ two_digits (n mod 100) @ rest) = Ok (n, rest)"
proof -
  have hi: "n div 100 < 100" and lo: "n mod 100 < 100"
    using assms by (simp_all add: less_mult_imp_div_less)
  have sum: "n div 100 * 100 + n mod 100 = n" by (rule div_mult_mod_eq)
  have "digits (Suc (Suc (Suc (Suc 0)))) 0 (two_digits (n div 100) @ two_digits (n mod 100) @ rest)
      = digits (Suc (Suc 0)) (0 * 100 + n div 100) (two_digits (n mod 100) @ rest)"
    by (rule digits_step [OF hi])
  also have "\<dots> = digits 0 ((0 * 100 + n div 100) * 100 + n mod 100) rest"
    by (rule digits_step [OF lo])
  also have "\<dots> = Ok (n, rest)" by (simp only: digits.simps mult_0 add_0 sum)
  finally show ?thesis by (simp only: numeral_4_eq_Suc)
qed

definition encodable_time :: "go_time \<Rightarrow> bool" where
  "encodable_time t \<longleftrightarrow> valid_time t \<and> t_nanosecond t = 0 \<and> \<bar>t_offset t\<bar> < 1500"

definition zone_octets :: "int \<Rightarrow> bytes" where
  "zone_octets off =
     (if off = 0 then [octet 90]
      else (if off > 0 then [octet 43] else [octet 45]) @
        two_digits (nat \<bar>off\<bar> div 60) @ two_digits (nat \<bar>off\<bar> mod 60))"

lemma zone_zone_octets:
  assumes "\<bar>off\<bar> < 1500"
  shows "zone (zone_octets off) = Ok off"
proof (cases "off = 0")
  case True
  then show ?thesis by (simp add: zone_def zone_octets_def)
next
  case False
  define hh mm where "hh = nat \<bar>off\<bar> div 60" and "mm = nat \<bar>off\<bar> mod 60"
  have "nat \<bar>off\<bar> div 60 \<le> 1499 div 60" using assms by (intro div_le_mono) linarith
  then have m: "hh \<le> 24" "mm < 60" unfolding hh_def mm_def by simp_all
  have sum: "hh * 60 + mm = nat \<bar>off\<bar>" unfolding hh_def mm_def by simp
  then have nz: "\<not> (hh = 0 \<and> mm = 0)" using False by auto
  have two: "digits 2 0 (two_digits mm) = Ok (mm, [])"
    using digits_two_digits [of mm "[]"] m by simp
  show ?thesis
    unfolding zone_def zone_octets_def hh_def [symmetric] mm_def [symmetric]
    using m nz False by (auto simp: two sum)
qed

lemma parse_clock_appendTimeCommon:
  assumes "encodable_time t" and "t_year t = y"
  shows "parse_clock True False y (appendTimeCommon t) = Ok t"
    and "parse_clock True True y (appendTimeCommon t) = Ok t"
proof -
  have "days_in (t_month t) (t_year t) \<le> 31" by (simp add: days_in_def)
  then have small: "t_month t < 100" "t_day t < 100" "t_hour t < 100" "t_minute t < 100" "t_second t < 100"
    using assms by (simp_all add: encodable_time_def valid_time_def)
  have eq: "appendTimeCommon t = two_digits (t_month t) @ two_digits (t_day t) @ two_digits (t_hour t) @
      two_digits (t_minute t) @ two_digits (t_second t) @ zone_octets (t_offset t)"
    by (simp add: appendTimeCommon_def zone_octets_def)
  have valid: "valid_time \<lparr>t_year = t_year t, t_month = t_month t, t_day = t_day t, t_hour = t_hour t,
      t_minute = t_minute t, t_second = t_second t, t_nanosecond = 0, t_offset = t_offset t\<rparr>"
    using assms by (simp add: encodable_time_def valid_time_def)
  have z: "zone (zone_octets (t_offset t)) = Ok (t_offset t)"
    using assms by (intro zone_zone_octets) (simp add: encodable_time_def)
  have f: "fraction (zone_octets (t_offset t)) = Ok (0, zone_octets (t_offset t))"
    by (simp add: fraction_def zone_octets_def split: list.splits)
  show "parse_clock True False y (appendTimeCommon t) = Ok t"
    and "parse_clock True True y (appendTimeCommon t) = Ok t"
    using assms valid by (auto simp: parse_clock_def eq small z f encodable_time_def Let_def)
qed

text \<open>The two-digit years 50 to 68 are read as 2050 to 2068 first and moved back a century.\<close>

lemma leap_year_century:
  assumes "1950 \<le> y" and "y < 1969"
  shows "leap_year (100 + y) = leap_year y"
proof -
  obtain k where y: "y = 1950 + k" using assms(1) le_Suc_ex by blast
  then have k: "k < 19" using assms(2) by simp
  have "y = 19 * 100 + (50 + k)" using y by simp
  then have "y mod 100 = 50 + k" using k by (simp only: mod_mult_self3) simp
  then have "y mod 100 \<noteq> 0" by simp
  moreover have "(100 + y) mod 100 = y mod 100" by simp
  moreover have "(100 + y) mod 4 = y mod 4"
    using mod_mult_self3 [of 25 4 y] by simp
  ultimately show ?thesis by (simp add: leap_year_def)
qed

lemma parse_clock_no_seconds:
  assumes "encodable_time t"
  shows "\<exists>e. parse_clock False False y (appendTimeCommon t) = Err e"
proof -
  have "days_in (t_month t) (t_year t) \<le> 31" by (simp add: days_in_def)
  then have small: "t_month t < 100" "t_day t < 100" "t_hour t < 100" "t_minute t < 100" "t_second t < 100"
    using assms by (simp_all add: encodable_time_def valid_time_def)
  have "zone (two_digits (t_second t) @ xs) = Err (ErrorString ''parsing time'')" for xs
    by (simp add: zone_def two_digits_def unat_digit)
  then show ?thesis
    by (simp add: parse_clock_def appendTimeCommon_def small)
qed

lemma parseUTCTime_appendUTCTime:
  assumes "encodable_time t" and "appendUTCTime t = Ok bs"
  shows "parseUTCTime bs = Ok t"
proof -
  let ?y = "t_year t"
  define yy where "yy = (if ?y < 2000 then ?y - 1900 else ?y - 2000)"
  define full where "full = (if yy \<ge> 69 then 1900 + yy else 2000 + yy)"
  have range: "1950 \<le> ?y" "?y < 2050" and bs: "bs = two_digits yy @ appendTimeCommon t"
    using assms(2) by (auto simp: appendUTCTime_def yy_def split: if_splits)
  have yy: "yy < 100" using range by (cases "?y < 2000") (simp_all add: yy_def)
  have full: "full = (if ?y < 1969 then 100 + ?y else ?y)"
    using range by (auto simp: full_def yy_def)
  let ?t = "t\<lparr>t_year := full\<rparr>"
  have leap: "leap_year full = leap_year ?y" using range by (simp add: full leap_year_century)
  have enc: "encodable_time ?t"
    using assms(1) leap by (auto simp: encodable_time_def valid_time_def days_in_def)
  have same: "appendTimeCommon t = appendTimeCommon ?t" by (simp add: appendTimeCommon_def)
  obtain e where "parse_UTC_format False bs = Err e"
    using parse_clock_no_seconds [OF assms(1)] yy by (auto simp: parse_UTC_format_def bs)
  moreover have "parse_UTC_format True bs = Ok ?t"
    using parse_clock_appendTimeCommon(1) [OF enc, of full] yy
    by (simp add: parse_UTC_format_def bs full_def [symmetric] same)
  ultimately show ?thesis using range by (auto simp: parseUTCTime_def full)
qed

lemma parseGeneralizedTime_appendGeneralizedTime:
  assumes "encodable_time t" and "appendGeneralizedTime t = Ok bs"
  shows "parseGeneralizedTime bs = Ok t"
  using assms parse_clock_appendTimeCommon(2) [OF assms(1) refl]
  by (auto simp: parseGeneralizedTime_def appendGeneralizedTime_def split: if_splits)

end
