(* ===== verification/Protocol.thy ===== *)
theory Protocol
  imports Ber_Spec Any_Set Oid Go_Time
begin

text \<open>
  ietf-cms/protocol/protocol.go: the CMS types, their parsers and writers, attributes, the search for
  a signer's certificate, and the construction of a signature.  For every Go struct there is a record,
  the parser that \<open>asn1.Unmarshal\<close> derives from its struct tags, and the writer that \<open>asn1.Marshal\<close>
  derives from them.  Hashing, signing, and X.509 are arguments.
\<close>

subsection \<open>Struct tags\<close>

definition opt :: field_params where
  "opt = \<lparr>fp_optional = True, fp_explicit = False, fp_set = False, fp_tag = None\<rparr>"

definition opt_tag :: "nat \<Rightarrow> field_params" where
  "opt_tag n = \<lparr>fp_optional = True, fp_explicit = False, fp_set = False, fp_tag = Some n\<rparr>"

definition opt_set_tag :: "nat \<Rightarrow> field_params" where
  "opt_set_tag n = \<lparr>fp_optional = True, fp_explicit = False, fp_set = True, fp_tag = Some n\<rparr>"

definition as_set :: field_params where
  "as_set = \<lparr>fp_optional = False, fp_explicit = False, fp_set = True, fp_tag = None\<rparr>"

definition explicit0 :: field_params where
  "explicit0 = \<lparr>fp_optional = False, fp_explicit = True, fp_set = False, fp_tag = Some 0\<rparr>"

definition opt_explicit0 :: field_params where
  "opt_explicit0 = \<lparr>fp_optional = True, fp_explicit = True, fp_set = False, fp_tag = Some 0\<rparr>"

lemmas tag_defs = opt_def opt_tag_def opt_set_tag_def as_set_def explicit0_def opt_explicit0_def

text \<open>A struct field, a \<open>[]byte\<close> field, and the slices \<open>[]T\<close>: a slice that is present is not nil.\<close>

definition struct_field ::
  "field_params \<Rightarrow> (bytes \<Rightarrow> 'a outcome) \<Rightarrow> 'a \<Rightarrow> bytes \<Rightarrow> ('a \<times> bytes) outcome" where
  "struct_field p parse zero = field p SeqKind (contents parse) zero"

definition octets_field :: "field_params \<Rightarrow> bytes \<Rightarrow> (bytes \<times> bytes) outcome" where
  "octets_field p = field p (PrimKind 4) (contents Ok) []"

definition slice_field :: "field_params \<Rightarrow> go_kind \<Rightarrow> (bytes \<Rightarrow> ('a \<times> bytes) outcome)
    \<Rightarrow> bytes \<Rightarrow> ('a slice \<times> bytes) outcome" where
  "slice_field p k elt =
     field p SeqKind (contents (\<lambda>bs. obind (parseSequenceOf k elt bs) (\<lambda>xs. Ok (Some xs)))) None"

text \<open>\<open>rest, err := asn1.Unmarshal(b, &v)\<close> where the code goes on to refuse trailing data.\<close>

definition no_trailing :: "('a \<times> bytes) outcome \<Rightarrow> 'a outcome" where
  "no_trailing r = obind r (\<lambda>(v, rest). if rest \<noteq> [] then Err ErrTrailingData else Ok v)"

subsection \<open>ContentInfo\<close>

record AlgorithmIdentifier =
  Algorithm :: oid
  Parameters :: raw_value

definition nil_AlgorithmIdentifier :: AlgorithmIdentifier where
  "nil_AlgorithmIdentifier = \<lparr>Algorithm = [], Parameters = nil_raw\<rparr>"

definition parse_AlgorithmIdentifier :: "bytes \<Rightarrow> AlgorithmIdentifier outcome" where
  "parse_AlgorithmIdentifier bs =
     obind (oid_field plain bs) (\<lambda>(a, bs).
     obind (raw_field opt bs) (\<lambda>(p, _). Ok \<lparr>Algorithm = a, Parameters = p\<rparr>))"

definition marshal_AlgorithmIdentifier :: "AlgorithmIdentifier \<Rightarrow> bytes outcome" where
  "marshal_AlgorithmIdentifier a =
     obind (oid_tlv (Algorithm a)) (\<lambda>o'. Ok (seq_tlv (o' @ optional_raw (Parameters a))))"

record ContentInfo =
  ContentType :: oid
  Content :: raw_value

definition nil_ContentInfo :: ContentInfo where
  "nil_ContentInfo = \<lparr>ContentType = [], Content = nil_raw\<rparr>"

definition parse_ContentInfo_body :: "bytes \<Rightarrow> ContentInfo outcome" where
  "parse_ContentInfo_body bs =
     obind (oid_field plain bs) (\<lambda>(ct, bs).
     obind (raw_field explicit0 bs) (\<lambda>(c, _). Ok \<lparr>ContentType = ct, Content = c\<rparr>))"

definition marshal_ContentInfo :: "ContentInfo \<Rightarrow> bytes outcome" where
  "marshal_ContentInfo ci =
     obind (oid_tlv (ContentType ci)) (\<lambda>o'. Ok (seq_tlv (o' @ marshal_raw (Content ci))))"

definition ParseContentInfo :: "bytes \<Rightarrow> ContentInfo outcome" where
  "ParseContentInfo ber =
     obind (BER2DER ber) (\<lambda>der.
       no_trailing (struct_field plain parse_ContentInfo_body nil_ContentInfo der))"

subsection \<open>EncapsulatedContentInfo\<close>

record EncapsulatedContentInfo =
  EContentType :: oid
  EContent :: raw_value

definition nil_EncapsulatedContentInfo :: EncapsulatedContentInfo where
  "nil_EncapsulatedContentInfo = \<lparr>EContentType = [], EContent = nil_raw\<rparr>"

definition parse_EncapsulatedContentInfo :: "bytes \<Rightarrow> EncapsulatedContentInfo outcome" where
  "parse_EncapsulatedContentInfo bs =
     obind (oid_field plain bs) (\<lambda>(ct, bs).
     obind (raw_field opt_explicit0 bs) (\<lambda>(c, _). Ok \<lparr>EContentType = ct, EContent = c\<rparr>))"

definition marshal_EncapsulatedContentInfo :: "EncapsulatedContentInfo \<Rightarrow> bytes outcome" where
  "marshal_EncapsulatedContentInfo eci =
     obind (oid_tlv (EContentType eci)) (\<lambda>o'. Ok (seq_tlv (o' @ optional_raw (EContent eci))))"

definition NewEncapsulatedContentInfo :: "oid \<Rightarrow> bytes \<Rightarrow> EncapsulatedContentInfo" where
  "NewEncapsulatedContentInfo contentType content =
     (let octets = marshal_raw \<lparr>rv_Class = 0, rv_Tag = 4, rv_IsCompound = False,
            rv_Bytes = Some content, rv_FullBytes = None\<rparr> in
      \<lparr>EContentType = contentType,
       EContent = \<lparr>rv_Class = 2, rv_Tag = 0, rv_IsCompound = True,
         rv_Bytes = Some octets, rv_FullBytes = None\<rparr>\<rparr>)"

definition NewDataEncapsulatedContentInfo :: "bytes \<Rightarrow> EncapsulatedContentInfo" where
  "NewDataEncapsulatedContentInfo data = NewEncapsulatedContentInfo ContentTypeData data"

text \<open>The sub-strings of a constructed OCTET STRING; \<open>value\<close> stays nil until a byte is appended.\<close>

function join_octets :: "byte slice \<Rightarrow> bytes \<Rightarrow> byte slice outcome" where
  "join_octets value rest =
     (if rest = [] then Ok value
      else obind (unmarshal_raw rest) (\<lambda>(octets, rest).
        if rv_Class octets \<noteq> 0 \<or> rv_Tag octets \<noteq> 4 \<or> rv_IsCompound octets
        then Err (ASN1Error ''bad class or tag'')
        else join_octets (go_append value (elems (rv_Bytes octets))) rest))"
  by pat_completeness auto
termination
  by (relation "measure (length \<circ> snd)") (auto dest: unmarshal_raw_shorter)

declare join_octets.simps [simp del]

definition EContentValue :: "EncapsulatedContentInfo \<Rightarrow> byte slice outcome" where
  "EContentValue eci =
     (case rv_Bytes (EContent eci) of
        None \<Rightarrow> Ok None
      | Some bs \<Rightarrow>
          obind (no_trailing (unmarshal_raw bs)) (\<lambda>octets.
            if rv_Class octets \<noteq> 0 \<or> rv_Tag octets \<noteq> 4 then Err (ASN1Error ''bad tag or class'')
            else if rv_IsCompound octets then join_octets None (elems (rv_Bytes octets))
            else Ok (rv_Bytes octets)))"

definition IsTypeData :: "EncapsulatedContentInfo \<Rightarrow> bool" where
  "IsTypeData eci \<longleftrightarrow> EContentType eci = ContentTypeData"

definition DataEContent :: "EncapsulatedContentInfo \<Rightarrow> byte slice outcome" where
  "DataEContent eci = (if \<not> IsTypeData eci then Err ErrWrongType else EContentValue eci)"

subsection \<open>Attributes\<close>

record Attribute =
  attr_Type :: oid
  attr_RawValue :: raw_value

type_synonym Attributes = "Attribute slice"

definition nil_Attribute :: Attribute where
  "nil_Attribute = \<lparr>attr_Type = [], attr_RawValue = nil_raw\<rparr>"

definition parse_Attribute :: "bytes \<Rightarrow> Attribute outcome" where
  "parse_Attribute bs =
     obind (oid_field plain bs) (\<lambda>(t, bs).
     obind (raw_field plain bs) (\<lambda>(v, _). Ok \<lparr>attr_Type = t, attr_RawValue = v\<rparr>))"

definition marshal_Attribute :: "Attribute \<Rightarrow> bytes outcome" where
  "marshal_Attribute a =
     obind (oid_tlv (attr_Type a)) (\<lambda>o'. Ok (seq_tlv (o' @ marshal_raw (attr_RawValue a))))"

text \<open>The Go values the code passes as \<open>interface{}\<close> to \<open>NewAttribute\<close>, and \<open>asn1.Marshal\<close> of them.\<close>

datatype attribute_value =
    TimeValue go_time
  | OctetsValue bytes
  | OidValue oid
  | ContentInfoValue ContentInfo

definition marshal_time :: "go_time \<Rightarrow> bytes outcome" where
  "marshal_time t =
     (if outsideUTCRange t then obind (appendGeneralizedTime t) (\<lambda>b. Ok (tlv 0 24 False b))
      else obind (appendUTCTime t) (\<lambda>b. Ok (tlv 0 23 False b)))"

fun marshal_value :: "attribute_value \<Rightarrow> bytes outcome" where
  "marshal_value (TimeValue t) = marshal_time t"
| "marshal_value (OctetsValue bs) = Ok (octets_tlv bs)"
| "marshal_value (OidValue oid) = oid_tlv oid"
| "marshal_value (ContentInfoValue ci) = marshal_ContentInfo ci"

definition NewAttribute :: "oid \<Rightarrow> attribute_value \<Rightarrow> Attribute outcome" where
  "NewAttribute typ val =
     obind (marshal_value val) (\<lambda>der.
     obind (unmarshal_raw der) (\<lambda>(rv, _).
       Ok \<lparr>attr_Type = typ, attr_RawValue = AnySet_Encode (NewAnySet (Some [rv])) nil_raw\<rparr>))"

definition Attribute_Value :: "Attribute \<Rightarrow> AnySet outcome" where
  "Attribute_Value a = DecodeAnySet (attr_RawValue a)"

text \<open>
  Both marshalings wrap the slice in a one-field struct, unwrap the outer SEQUENCE, and differ in the
  order of the elements: the \<open>set\<close> parameter sorts, the plain slice keeps the order and has its tag
  octet overwritten.
\<close>

definition MarshaledForSigning :: "Attributes \<Rightarrow> bytes outcome" where
  "MarshaledForSigning attrs =
     obind (traverse marshal_Attribute (elems attrs)) (\<lambda>encs.
     obind (unmarshal_raw (seq_tlv (set_tlv encs))) (\<lambda>(raw, _). Ok (elems (rv_Bytes raw))))"

definition MarshaledForVerification :: "Attributes \<Rightarrow> bytes outcome" where
  "MarshaledForVerification attrs =
     obind (traverse marshal_Attribute (elems attrs)) (\<lambda>encs.
     obind (unmarshal_raw (seq_tlv (seq_tlv (concat encs)))) (\<lambda>(raw, _).
       case elems (rv_Bytes raw) of
         [] \<Rightarrow> Panic IndexOutOfRange
       | _ # bs \<Rightarrow> Ok (0x31 # bs)))"

definition GetValues :: "Attributes \<Rightarrow> oid \<Rightarrow> AnySet slice outcome" where
  "GetValues attrs oid =
     (case attrs of
        None \<Rightarrow> Ok None
      | Some as \<Rightarrow>
          obind (traverse Attribute_Value (filter (\<lambda>a. attr_Type a = oid) as)) (\<lambda>vals. Ok (Some vals)))"

definition GetOnlyAttributeValueBytes :: "Attributes \<Rightarrow> oid \<Rightarrow> raw_value outcome" where
  "GetOnlyAttributeValueBytes attrs oid =
     obind (GetValues attrs oid) (\<lambda>vals.
       case elems vals of
         [v] \<Rightarrow> (case elems (Elements v) of
                   [rv] \<Rightarrow> Ok rv
                 | _ \<Rightarrow> Err (ASN1Error ''bad attribute element count''))
       | _ \<Rightarrow> Err (ASN1Error ''bad attribute count''))"

definition HasAttribute :: "Attributes \<Rightarrow> oid \<Rightarrow> bool" where
  "HasAttribute attrs oid \<longleftrightarrow> list_ex (\<lambda>a. attr_Type a = oid) (elems attrs)"

subsection \<open>Certificates and keys\<close>

text \<open>
  The fields of \<open>x509.Certificate\<close> the repository reads.  A public key is what the code's type switches
  can tell apart; \<open>DERBytes\<close> is a \<open>[]byte\<close> that was passed as a \<open>crypto.PublicKey\<close>.
\<close>

datatype elliptic_curve = P224 | P256 | P384 | P521

datatype public_key =
    RSAPublicKey bytes
  | ECDSAPublicKey elliptic_curve bytes
  | DERBytes bytes
  | OtherPublicKey bytes

record certificate =
  Raw :: bytes
  RawIssuer :: bytes
  RawSubject :: bytes
  cert_SerialNumber :: int
  PublicKeyAlgorithm :: public_key_algorithm
  PublicKey :: public_key
  Extensions :: "(oid \<times> bytes) list"
  NotBefore :: int
  NotAfter :: int
  EmailAddresses :: "string list"
  Subject_Names :: "(oid \<times> string option) list"
  cert_SignatureAlgorithm :: signature_algorithm
  IssuingCertificateURL :: "string list"

record IssuerAndSerialNumber =
  Issuer :: raw_value
  SerialNumber :: int

definition nil_IssuerAndSerialNumber :: IssuerAndSerialNumber where
  "nil_IssuerAndSerialNumber = \<lparr>Issuer = nil_raw, SerialNumber = 0\<rparr>"

definition parse_IssuerAndSerialNumber :: "bytes \<Rightarrow> IssuerAndSerialNumber outcome" where
  "parse_IssuerAndSerialNumber bs =
     obind (raw_field plain bs) (\<lambda>(i, bs).
     obind (big_int_field plain bs) (\<lambda>(n, _). Ok \<lparr>Issuer = i, SerialNumber = n\<rparr>))"

definition marshal_IssuerAndSerialNumber :: "IssuerAndSerialNumber \<Rightarrow> bytes" where
  "marshal_IssuerAndSerialNumber isn = seq_tlv (marshal_raw (Issuer isn) @ int_tlv (SerialNumber isn))"

definition NewIssuerAndSerialNumber :: "certificate \<Rightarrow> raw_value outcome" where
  "NewIssuerAndSerialNumber cert =
     obind (unmarshal_raw (RawIssuer cert)) (\<lambda>(issuer, _).
     obind (unmarshal_raw (marshal_IssuerAndSerialNumber
       \<lparr>Issuer = issuer, SerialNumber = cert_SerialNumber cert\<rparr>)) (\<lambda>(rv, _). Ok rv))"

subsection \<open>SignerInfo\<close>

record SignerInfo =
  Version :: int
  SID :: raw_value
  DigestAlgorithm :: AlgorithmIdentifier
  SignedAttrs :: Attributes
  SignatureAlgorithm :: AlgorithmIdentifier
  Signature :: bytes
  UnsignedAttrs :: Attributes

definition nil_SignerInfo :: SignerInfo where
  "nil_SignerInfo = \<lparr>Version = 0, SID = nil_raw, DigestAlgorithm = nil_AlgorithmIdentifier,
     SignedAttrs = None, SignatureAlgorithm = nil_AlgorithmIdentifier, Signature = [],
     UnsignedAttrs = None\<rparr>"

definition attributes_field :: "field_params \<Rightarrow> bytes \<Rightarrow> (Attributes \<times> bytes) outcome" where
  "attributes_field p = slice_field p SeqKind (struct_field plain parse_Attribute nil_Attribute)"

definition parse_SignerInfo :: "bytes \<Rightarrow> SignerInfo outcome" where
  "parse_SignerInfo bs =
     obind (int_field plain bs) (\<lambda>(v, bs).
     obind (raw_field plain bs) (\<lambda>(sid, bs).
     obind (struct_field plain parse_AlgorithmIdentifier nil_AlgorithmIdentifier bs) (\<lambda>(da, bs).
     obind (attributes_field (opt_tag 0) bs) (\<lambda>(sa, bs).
     obind (struct_field plain parse_AlgorithmIdentifier nil_AlgorithmIdentifier bs) (\<lambda>(siga, bs).
     obind (octets_field plain bs) (\<lambda>(sig, bs).
     obind (attributes_field (opt_set_tag 1) bs) (\<lambda>(ua, _).
       Ok \<lparr>Version = v, SID = sid, DigestAlgorithm = da, SignedAttrs = sa, SignatureAlgorithm = siga,
           Signature = sig, UnsignedAttrs = ua\<rparr>)))))))"

definition marshal_Attributes :: "(bytes list \<Rightarrow> bytes) \<Rightarrow> nat \<Rightarrow> Attributes \<Rightarrow> bytes outcome" where
  "marshal_Attributes body tag attrs =
     (case attrs of
        None \<Rightarrow> Ok []
      | Some as \<Rightarrow> obind (traverse marshal_Attribute as) (\<lambda>encs. Ok (tlv 2 tag True (body encs))))"

definition marshal_SignerInfo :: "SignerInfo \<Rightarrow> bytes outcome" where
  "marshal_SignerInfo si =
     obind (marshal_AlgorithmIdentifier (DigestAlgorithm si)) (\<lambda>da.
     obind (marshal_Attributes concat 0 (SignedAttrs si)) (\<lambda>sa.
     obind (marshal_AlgorithmIdentifier (SignatureAlgorithm si)) (\<lambda>siga.
     obind (marshal_Attributes set_body 1 (UnsignedAttrs si)) (\<lambda>ua.
       Ok (seq_tlv (int_tlv (Version si) @ marshal_raw (SID si) @ da @ sa @ siga
         @ octets_tlv (Signature si) @ ua))))))"

definition issuerAndSerialNumberSID :: "SignerInfo \<Rightarrow> IssuerAndSerialNumber outcome" where
  "issuerAndSerialNumberSID si =
     (if rv_Class (SID si) \<noteq> 0 \<or> rv_Tag (SID si) \<noteq> 16 then Err ErrWrongType
      else no_trailing (struct_field plain parse_IssuerAndSerialNumber nil_IssuerAndSerialNumber
             (elems (rv_FullBytes (SID si)))))"

definition subjectKeyIdentifierSID :: "SignerInfo \<Rightarrow> bytes outcome" where
  "subjectKeyIdentifierSID si =
     (if rv_Class (SID si) \<noteq> 2 \<or> rv_Tag (SID si) \<noteq> 0 then Err ErrWrongType
      else Ok (elems (rv_Bytes (SID si))))"

text \<open>The first certificate that satisfies a test, and what \<open>FindCertificate\<close> returns when none does.\<close>

fun first_certificate :: "(certificate \<Rightarrow> bool) \<Rightarrow> certificate list \<Rightarrow> certificate outcome" where
  "first_certificate ok [] = Err ErrNoCertificate"
| "first_certificate ok (cert # certs) = (if ok cert then Ok cert else first_certificate ok certs)"

definition has_key_identifier :: "bytes \<Rightarrow> certificate \<Rightarrow> bool" where
  "has_key_identifier ski cert \<longleftrightarrow>
     list_ex (\<lambda>(id, value). id = ExtensionSubjectKeyIdentifier \<and> ski = value) (Extensions cert)"

definition FindCertificate :: "SignerInfo \<Rightarrow> certificate list \<Rightarrow> certificate outcome" where
  "FindCertificate si certs =
     (if Version si = 1 then
        obind (issuerAndSerialNumberSID si) (\<lambda>isn.
          first_certificate (\<lambda>cert. RawIssuer cert = elems (rv_FullBytes (Issuer isn)) \<and>
            SerialNumber isn = cert_SerialNumber cert) certs)
      else if Version si = 3 then
        obind (subjectKeyIdentifierSID si) (\<lambda>ski. first_certificate (has_key_identifier ski) certs)
      else Err ErrUnsupported)"

subsection \<open>Algorithms and signed attributes of a SignerInfo\<close>

text \<open>
  What the code calls outside the repository: the hash functions that are linked in, the X.509 parser
  and the PKIX encoding of keys.  \<open>crypto.Signer\<close> is its public key and its \<open>Sign\<close> method, which the
  code calls with a digest and the hash that made it.
\<close>

record crypto =
  Available :: "crypto_hash \<Rightarrow> bool"
  hash_sum :: "crypto_hash \<Rightarrow> bytes \<Rightarrow> bytes"
  MarshalPKIXPublicKey :: "public_key \<Rightarrow> bytes outcome"
  ParseCertificate :: "bytes \<Rightarrow> certificate outcome"

record signer =
  Public :: public_key
  Sign_digest :: "bytes \<Rightarrow> crypto_hash \<Rightarrow> bytes outcome"

definition hash_of_algorithm :: "crypto \<Rightarrow> AlgorithmIdentifier \<Rightarrow> crypto_hash outcome" where
  "hash_of_algorithm c a =
     (let hash = lookup DigestAlgorithmToCryptoHash NoHash (oid_String (Algorithm a)) in
      if hash = NoHash \<or> \<not> Available c hash then Err ErrUnsupported else Ok hash)"

definition SignerInfo_Hash :: "crypto \<Rightarrow> SignerInfo \<Rightarrow> crypto_hash outcome" where
  "SignerInfo_Hash c si = hash_of_algorithm c (DigestAlgorithm si)"

definition X509SignatureAlgorithm :: "SignerInfo \<Rightarrow> signature_algorithm" where
  "X509SignatureAlgorithm si =
     (let sigOID = oid_String (Algorithm (SignatureAlgorithm si));
          digestOID = oid_String (Algorithm (DigestAlgorithm si));
          sa = lookup SignatureAlgorithmToX509SignatureAlgorithm UnknownSignatureAlgorithm sigOID in
      if sa \<noteq> UnknownSignatureAlgorithm then sa
      else lookup (lookup PublicKeyAndDigestAlgorithmToX509SignatureAlgorithm (\<lambda>_. None) sigOID)
             UnknownSignatureAlgorithm digestOID)"

definition GetContentTypeAttribute :: "SignerInfo \<Rightarrow> oid outcome" where
  "GetContentTypeAttribute si =
     obind (GetOnlyAttributeValueBytes (SignedAttrs si) AttributeContentType) (\<lambda>rv.
       no_trailing (oid_field plain (elems (rv_FullBytes rv))))"

definition GetMessageDigestAttribute :: "SignerInfo \<Rightarrow> bytes outcome" where
  "GetMessageDigestAttribute si =
     obind (GetOnlyAttributeValueBytes (SignedAttrs si) AttributeMessageDigest) (\<lambda>rv.
       if rv_Class rv \<noteq> 0 \<or> rv_Tag rv \<noteq> 4 then Err (ASN1Error ''bad class or tag'')
       else Ok (elems (rv_Bytes rv)))"

definition parse_time :: "raw_value \<Rightarrow> go_time outcome" where
  "parse_time rv =
     (if rv_Class rv = 0 \<and> rv_Tag rv = 24 then parseGeneralizedTime (elems (rv_Bytes rv))
      else parseUTCTime (elems (rv_Bytes rv)))"

definition time_field :: "field_params \<Rightarrow> bytes \<Rightarrow> (go_time \<times> bytes) outcome" where
  "time_field p = field p TimeKind parse_time zero_time"

definition GetSigningTimeAttribute :: "SignerInfo \<Rightarrow> go_time outcome" where
  "GetSigningTimeAttribute si =
     (if \<not> HasAttribute (SignedAttrs si) AttributeSigningTime then Ok zero_time
      else obind (GetOnlyAttributeValueBytes (SignedAttrs si) AttributeSigningTime) (\<lambda>rv.
        if rv_Class rv \<noteq> 0 \<or> (rv_Tag rv \<noteq> 23 \<and> rv_Tag rv \<noteq> 24)
        then Err (ASN1Error ''bad class or tag'')
        else no_trailing (time_field plain (elems (rv_FullBytes rv)))))"

subsection \<open>SignedData\<close>

record SignedData =
  sd_Version :: int
  DigestAlgorithms :: "AlgorithmIdentifier list"
  EncapContentInfo :: EncapsulatedContentInfo
  Certificates :: "raw_value slice"
  CRLs :: "raw_value slice"
  SignerInfos :: "SignerInfo list"

definition nil_SignedData :: SignedData where
  "nil_SignedData = \<lparr>sd_Version = 0, DigestAlgorithms = [],
     EncapContentInfo = nil_EncapsulatedContentInfo, Certificates = None, CRLs = None, SignerInfos = []\<rparr>"

definition parse_SignedData :: "bytes \<Rightarrow> SignedData outcome" where
  "parse_SignedData bs =
     obind (int_field plain bs) (\<lambda>(v, bs).
     obind (slice_field as_set SeqKind
       (struct_field plain parse_AlgorithmIdentifier nil_AlgorithmIdentifier) bs) (\<lambda>(das, bs).
     obind (struct_field plain parse_EncapsulatedContentInfo nil_EncapsulatedContentInfo bs) (\<lambda>(eci, bs).
     obind (slice_field (opt_set_tag 0) RawKind (raw_field plain) bs) (\<lambda>(certs, bs).
     obind (slice_field (opt_set_tag 1) RawKind (raw_field plain) bs) (\<lambda>(crls, bs).
     obind (slice_field as_set SeqKind (struct_field plain parse_SignerInfo nil_SignerInfo) bs) (\<lambda>(sis, _).
       Ok \<lparr>sd_Version = v, DigestAlgorithms = elems das, EncapContentInfo = eci, Certificates = certs,
           CRLs = crls, SignerInfos = elems sis\<rparr>))))))"

definition marshal_raws :: "nat \<Rightarrow> raw_value slice \<Rightarrow> bytes" where
  "marshal_raws tag rvs =
     (case rvs of None \<Rightarrow> [] | Some xs \<Rightarrow> tlv 2 tag True (set_body (map marshal_raw xs)))"

definition marshal_SignedData :: "SignedData \<Rightarrow> bytes outcome" where
  "marshal_SignedData sd =
     obind (traverse marshal_AlgorithmIdentifier (DigestAlgorithms sd)) (\<lambda>das.
     obind (marshal_EncapsulatedContentInfo (EncapContentInfo sd)) (\<lambda>eci.
     obind (traverse marshal_SignerInfo (SignerInfos sd)) (\<lambda>sis.
       Ok (seq_tlv (int_tlv (sd_Version sd) @ set_tlv das @ eci @ marshal_raws 0 (Certificates sd)
         @ marshal_raws 1 (CRLs sd) @ set_tlv sis)))))"

definition SignedDataContent :: "ContentInfo \<Rightarrow> SignedData outcome" where
  "SignedDataContent ci =
     (if ContentType ci \<noteq> ContentTypeSignedData then Err ErrWrongType
      else no_trailing (struct_field plain parse_SignedData nil_SignedData
             (elems (rv_Bytes (Content ci)))))"

definition NewSignedData :: "EncapsulatedContentInfo \<Rightarrow> SignedData" where
  "NewSignedData eci =
     \<lparr>sd_Version = (if \<not> IsTypeData eci then 3 else 1), DigestAlgorithms = [], EncapContentInfo = eci,
      Certificates = None, CRLs = None, SignerInfos = []\<rparr>"

definition ClearCertificates :: "SignedData \<Rightarrow> SignedData" where
  "ClearCertificates sd = sd\<lparr>Certificates := Some []\<rparr>"

definition AddCertificate :: "certificate \<Rightarrow> SignedData \<Rightarrow> SignedData \<times> unit outcome" where
  "AddCertificate cert sd =
     (if list_ex (\<lambda>existing. elems (rv_Bytes existing) = Raw cert) (elems (Certificates sd))
      then (sd, Err (ErrorString ''certificate already added''))
      else attempt sd (unmarshal_raw (Raw cert)) (\<lambda>(rv, _).
        (sd\<lparr>Certificates := go_append (Certificates sd) [rv]\<rparr>, Ok ())))"

definition addDigestAlgorithm :: "AlgorithmIdentifier \<Rightarrow> SignedData \<Rightarrow> SignedData" where
  "addDigestAlgorithm algo sd =
     (if list_ex (\<lambda>existing. Algorithm existing = Algorithm algo) (DigestAlgorithms sd) then sd
      else sd\<lparr>DigestAlgorithms := DigestAlgorithms sd @ [algo]\<rparr>)"

definition sortAttributes :: "Attribute list \<Rightarrow> Attribute list" where
  "sortAttributes attrs = sort_key (\<lambda>a. elems (rv_FullBytes (attr_RawValue a))) attrs"

definition digestAlgorithmForPublicKey :: "public_key \<Rightarrow> AlgorithmIdentifier" where
  "digestAlgorithmForPublicKey pub =
     (case pub of
        ECDSAPublicKey P384 _ \<Rightarrow> \<lparr>Algorithm = DigestAlgorithmSHA384, Parameters = nil_raw\<rparr>
      | ECDSAPublicKey P521 _ \<Rightarrow> \<lparr>Algorithm = DigestAlgorithmSHA512, Parameters = nil_raw\<rparr>
      | _ \<Rightarrow> \<lparr>Algorithm = DigestAlgorithmSHA256, Parameters = nil_raw\<rparr>)"

text \<open>The loop over the chain: every certificate is added, the last one with the signer's key is kept.\<close>

fun add_chain :: "crypto \<Rightarrow> bytes \<Rightarrow> certificate option \<Rightarrow> certificate list \<Rightarrow> SignedData
    \<Rightarrow> SignedData \<times> certificate option outcome" where
  "add_chain c pub cert [] sd = (sd, Ok cert)"
| "add_chain c pub cert (x # chain) sd =
     (case AddCertificate x sd of (sd, added) \<Rightarrow>
        attempt sd added (\<lambda>_.
        attempt sd (MarshalPKIXPublicKey c (PublicKey x)) (\<lambda>certPub.
          add_chain c pub (if pub = certPub then Some x else cert) chain sd)))"

text \<open>The signed attributes of a new signature over \<open>content\<close>.\<close>

definition new_SignedAttrs :: "crypto \<Rightarrow> go_time \<Rightarrow> crypto_hash \<Rightarrow> oid \<Rightarrow> bytes \<Rightarrow> Attribute list outcome" where
  "new_SignedAttrs c now hash contentType content =
     obind (NewAttribute AttributeSigningTime (TimeValue now)) (\<lambda>stAttr.
     obind (NewAttribute AttributeMessageDigest (OctetsValue (hash_sum c hash content))) (\<lambda>mdAttr.
     obind (NewAttribute AttributeContentType (OidValue contentType)) (\<lambda>ctAttr.
       Ok (sortAttributes [stAttr, mdAttr, ctAttr]))))"

text \<open>
  The part of \<open>AddSignerInfo\<close> between the loop and the two final updates: it only reads the receiver.
  The digest algorithm is chosen from \<open>pub\<close>, the DER encoding of the key.
\<close>

definition new_SignerInfo ::
  "crypto \<Rightarrow> go_time \<Rightarrow> certificate \<Rightarrow> bytes \<Rightarrow> signer \<Rightarrow> SignedData \<Rightarrow> SignerInfo outcome" where
  "new_SignerInfo c now cert pub signer sd =
     obind (NewIssuerAndSerialNumber cert) (\<lambda>sid.
     let digestAlgorithmID = digestAlgorithmForPublicKey (DERBytes pub) in
     case lookup X509PublicKeyAndDigestAlgorithmToSignatureAlgorithm (\<lambda>_. None) (PublicKeyAlgorithm cert)
            (oid_String (Algorithm digestAlgorithmID)) of
       None \<Rightarrow> Err (ErrorString ''unsupported certificate public key algorithm'')
     | Some signatureAlgorithmOID \<Rightarrow>
         let si = \<lparr>Version = 1, SID = sid, DigestAlgorithm = digestAlgorithmID, SignedAttrs = None,
                   SignatureAlgorithm = \<lparr>Algorithm = signatureAlgorithmOID, Parameters = nil_raw\<rparr>,
                   Signature = [], UnsignedAttrs = None\<rparr> in
         obind (EContentValue (EncapContentInfo sd)) (\<lambda>content.
           case content of
             None \<Rightarrow> Err (ErrorString ''already detached'')
           | Some content \<Rightarrow>
               obind (SignerInfo_Hash c si) (\<lambda>hash.
               obind (new_SignedAttrs c now hash (EContentType (EncapContentInfo sd)) content) (\<lambda>attrs.
               obind (MarshaledForSigning (Some attrs)) (\<lambda>sm.
               obind (Sign_digest signer (hash_sum c hash sm) hash) (\<lambda>sig.
                 Ok (si\<lparr>SignedAttrs := Some attrs, Signature := sig\<rparr>)))))))"

definition AddSignerInfo ::
  "crypto \<Rightarrow> go_time \<Rightarrow> certificate list \<Rightarrow> signer \<Rightarrow> SignedData \<Rightarrow> SignedData \<times> unit outcome" where
  "AddSignerInfo c now chain signer sd =
     attempt sd (MarshalPKIXPublicKey c (Public signer)) (\<lambda>pub.
     case add_chain c pub None chain sd of (sd, found) \<Rightarrow>
     attempt sd found (\<lambda>cert.
     case cert of
       None \<Rightarrow> (sd, Err ErrNoCertificate)
     | Some cert \<Rightarrow>
         attempt sd (new_SignerInfo c now cert pub signer sd) (\<lambda>si.
           let sd = addDigestAlgorithm (DigestAlgorithm si) sd in
           (sd\<lparr>SignerInfos := SignerInfos sd @ [si]\<rparr>, Ok ()))))"

definition X509Certificates :: "crypto \<Rightarrow> SignedData \<Rightarrow> certificate slice outcome" where
  "X509Certificates c sd =
     (case Certificates sd of
        None \<Rightarrow> Ok None
      | Some rvs \<Rightarrow>
          obind (traverse (\<lambda>raw.
              if rv_Class raw \<noteq> 0 \<or> rv_Tag raw \<noteq> 16 then Err ErrUnsupported
              else ParseCertificate c (elems (rv_FullBytes raw))) rvs)
            (\<lambda>certs. Ok (Some certs)))"

definition SignedData_ContentInfo :: "SignedData \<Rightarrow> ContentInfo outcome" where
  "SignedData_ContentInfo sd =
     obind (marshal_SignedData sd) (\<lambda>der.
       Ok \<lparr>ContentType = ContentTypeSignedData,
           Content = \<lparr>rv_Class = 2, rv_Tag = 0, rv_IsCompound = True, rv_Bytes = Some der,
                      rv_FullBytes = None\<rparr>\<rparr>)"

definition ContentInfoDER :: "SignedData \<Rightarrow> bytes outcome" where
  "ContentInfoDER sd = obind (SignedData_ContentInfo sd) marshal_ContentInfo"

end
