(* ===== verification/Protocol_Codec.thy ===== *)
theory Protocol_Codec
  imports Protocol
begin

text \<open>
  The codec of ietf-cms/protocol: for every CMS type, the values whose encoding the parser reads back
  (\<open>wf\<close>) and the value it then returns (\<open>norm\<close>: raw values carry their full bytes, the members of a
  SET OF are in DER order), up to the round trip of a whole SignedData.
\<close>

subsection \<open>Raw values\<close>

definition norm_raw :: "raw_value \<Rightarrow> raw_value" where
  "norm_raw rv =
     (if elems (rv_FullBytes rv) \<noteq> [] then rv
      else raw_of (rv_Class rv) (rv_Tag rv) (rv_IsCompound rv) (elems (rv_Bytes rv)))"

definition wf_raw :: "raw_value \<Rightarrow> bool" where
  "wf_raw rv \<longleftrightarrow> decoded_raw (norm_raw rv)"

lemma marshal_norm_raw [simp]: "marshal_raw (norm_raw rv) = marshal_raw rv"
  by (simp add: norm_raw_def marshal_raw_fresh marshal_raw_def tlv_def)

lemma norm_raw_decoded: "decoded_raw rv \<Longrightarrow> norm_raw rv = rv"
  by (auto simp: norm_raw_def elim!: decoded_rawE)

lemma wf_raw_decoded: "decoded_raw rv \<Longrightarrow> wf_raw rv"
  by (simp add: wf_raw_def norm_raw_decoded)

lemma wf_rawE:
  assumes "wf_raw rv"
  obtains c t k body where "marshal_raw rv = tlv c t k body" "norm_raw rv = raw_of c t k body" "wf_tlv c t body"
proof -
  obtain c t k body where *: "norm_raw rv = raw_of c t k body" "wf_tlv c t body"
    using assms by (auto simp: wf_raw_def elim: decoded_rawE)
  then have "marshal_raw rv = tlv c t k body" using marshal_norm_raw [of rv] by simp
  then show ?thesis using * that by blast
qed

lemma unmarshal_marshal_wf_raw: "wf_raw rv \<Longrightarrow> unmarshal_raw (marshal_raw rv @ rest) = Ok (norm_raw rv, rest)"
  by (erule wf_rawE) simp

subsection \<open>Reading structs and slices that were written\<close>

named_theorems codec "fields that were written are read back"

lemma length_tlv_less: "length body < length (tlv c t k body)"
  by (cases "appendTagAndLength \<lparr>tl_class = c, tl_tag = t, tl_length = length body, tl_compound = k\<rparr>")
    (simp_all add: tlv_def)

lemma length_tlv_le:
  assumes "length body \<le> n" "t < 31" "n < 2 ^ 32"
  shows "length (tlv c t k body) \<le> n + 10"
proof -
  have "length (be_bytes (length body)) \<le> 8" using assms by (intro length_be_bytes_le) simp_all
  then show ?thesis using assms(1,2) by (simp add: tlv_def appendTagAndLength_def length_octets_def)
qed

lemma struct_field_seq [codec]:
  assumes "length body < 2 ^ 31"
  shows "struct_field plain parse z (seq_tlv body @ rest) = obind (parse body) (\<lambda>v. Ok (v, rest))"
  unfolding struct_field_def seq_tlv_def field_def using assms
  by (subst parseField_tlv)
    (simp_all add: wf_tlv_def tags_match_def universal_tag_def contents_def)

lemma octets_field_tlv [codec]:
  assumes "length bs < 2 ^ 31"
  shows "octets_field plain (octets_tlv bs @ rest) = Ok (bs, rest)"
  unfolding octets_field_def octets_tlv_def using assms
  by (intro field_tlv) (simp_all add: wf_tlv_def tags_match_def universal_tag_def contents_def)

lemma raw_field_plain_wf [codec]:
  "wf_raw rv \<Longrightarrow> raw_field plain (marshal_raw rv @ rest) = Ok (norm_raw rv, rest)"
  by (simp add: raw_field_plain_eq unmarshal_marshal_wf_raw)

lemma raw_field_opt_Nil [codec]: "raw_field opt [] = Ok (nil_raw, [])"
  by (simp add: field_absent_Nil opt_def)

lemma raw_field_opt_wf [codec]:
  assumes "wf_raw rv"
  shows "raw_field opt (marshal_raw rv @ rest) = Ok (norm_raw rv, rest)"
  using assms by (elim wf_rawE) (simp add: field_tlv tags_match_def opt_def)

definition norm_opt :: "raw_value \<Rightarrow> raw_value" where
  "norm_opt rv = (if rv = nil_raw then nil_raw else norm_raw rv)"

definition wf_opt :: "raw_value \<Rightarrow> bool" where
  "wf_opt rv \<longleftrightarrow> rv = nil_raw \<or> wf_raw rv"

lemma raw_field_optional_raw [codec]:
  assumes "wf_opt rv"
  shows "raw_field opt (optional_raw rv) = Ok (norm_opt rv, [])"
proof (cases "rv = nil_raw")
  case True
  then show ?thesis by (simp add: optional_raw_def norm_opt_def codec)
next
  case False
  then show ?thesis
    using assms raw_field_opt_wf [of rv "[]"] by (simp add: optional_raw_def norm_opt_def wf_opt_def)
qed

text \<open>The content of an explicit \<open>[0]\<close>: a raw value keeps the wrapper, and the wrapper is not empty.\<close>

definition wf_explicit :: "raw_value \<Rightarrow> bool" where
  "wf_explicit rv \<longleftrightarrow> (\<exists>body. norm_raw rv = raw_of 2 0 True body \<and> body \<noteq> [] \<and> length body < 2 ^ 31)"

lemma wf_explicit_wf_raw: "wf_explicit rv \<Longrightarrow> wf_raw rv"
  by (auto simp: wf_explicit_def wf_raw_def intro!: decoded_raw_raw_of) (simp add: wf_tlv_def)

lemma raw_field_explicit [codec]:
  assumes "wf_explicit rv" "p = explicit0 \<or> p = opt_explicit0"
  shows "raw_field p (marshal_raw rv @ rest) = Ok (norm_raw rv, rest)"
proof -
  obtain body where b: "norm_raw rv = raw_of 2 0 True body" "body \<noteq> []" "length body < 2 ^ 31"
    using assms by (auto simp: wf_explicit_def)
  then have m: "marshal_raw rv = tlv 2 0 True body" using marshal_norm_raw [of rv] by simp
  have "parseField p RawKind (tlv 2 0 True body @ rest) = Ok (Some (raw_of 2 0 True body), rest)"
    by (rule parseField_explicit_raw) (use assms(2) b in \<open>auto simp: wf_tlv_def tag_defs\<close>)
  then show ?thesis by (simp add: field_def m b)
qed

lemma raw_field_opt_explicit_Nil [codec]: "raw_field opt_explicit0 [] = Ok (nil_raw, [])"
  by (simp add: field_absent_Nil opt_explicit0_def)

lemma slice_field_set [codec]:
  assumes "length body < 2 ^ 31"
  shows "slice_field as_set k elt (tlv 0 17 True body @ rest)
    = obind (parseSequenceOf k elt body) (\<lambda>xs. Ok (Some xs, rest))"
  unfolding slice_field_def field_def using assms
  by (subst parseField_tlv)
    (simp_all add: wf_tlv_def tags_match_def universal_tag_def contents_def as_set_def obind_assoc)

lemma slice_field_tag [codec]:
  assumes "length body < 2 ^ 31" "n < 31" "p = opt_tag n \<or> p = opt_set_tag n"
  shows "slice_field p k elt (tlv 2 n True body @ rest)
    = obind (parseSequenceOf k elt body) (\<lambda>xs. Ok (Some xs, rest))"
  unfolding slice_field_def field_def using assms
  by (subst parseField_tlv)
    (auto simp: wf_tlv_def tags_match_def universal_tag_def contents_def tag_defs obind_assoc)

lemma slice_field_absent_Nil [codec]:
  "slice_field (opt_tag n) k elt [] = Ok (None, [])"
  "slice_field (opt_set_tag n) k elt [] = Ok (None, [])"
  by (auto simp: slice_field_def tag_defs intro!: field_absent_Nil)

lemma slice_field_absent_tlv [codec]:
  assumes "wf_tlv c t body" "c = 2 \<longrightarrow> t \<noteq> n"
  shows "slice_field (opt_tag n) k elt (tlv c t cpd body @ rest) = Ok (None, tlv c t cpd body @ rest)"
    and "slice_field (opt_set_tag n) k elt (tlv c t cpd body @ rest) = Ok (None, tlv c t cpd body @ rest)"
  unfolding slice_field_def using assms
  by (intro field_absent_tlv; auto simp: tag_defs tags_match_def)+

subsection \<open>Sets\<close>

fun ok_bytes :: "bytes outcome \<Rightarrow> bytes" where
  "ok_bytes (Ok bs) = bs"
| "ok_bytes _ = []"

lemma traverse_ok_bytes: "traverse m xs = Ok encs \<Longrightarrow> encs = map (\<lambda>x. ok_bytes (m x)) xs"
  by (induction xs arbitrary: encs) (auto simp: outcome_simps)

lemma traverse_member: "traverse m xs = Ok encs \<Longrightarrow> x \<in> set xs \<Longrightarrow> m x = Ok (ok_bytes (m x))"
  by (induction xs arbitrary: encs) (auto simp: outcome_simps)

lemma map_sort_key: "map f (sort_key f xs) = sort (map f xs)"
  by (rule properties_for_sort [symmetric]) simp_all

lemma set_body_traverse:
  assumes "traverse m xs = Ok encs"
  shows "set_body encs = concat (map (\<lambda>x. ok_bytes (m x)) (sort_key (\<lambda>x. ok_bytes (m x)) xs))"
  unfolding traverse_ok_bytes [OF assms] set_body_def map_sort_key ..

lemma length_concat_member: "bs \<in> set encs \<Longrightarrow> length bs \<le> length (concat encs)"
  by (induction encs) auto

lemma length_set_body [simp]: "length (set_body encs) = length (concat encs)"
proof -
  have "mset (set_body encs) = mset (concat encs)"
    unfolding set_body_def by (metis mset_concat mset_map mset_sort sum_mset_sum_list)
  then show ?thesis by (metis size_mset)
qed

lemma parseSequenceOf_traverse:
  assumes enc: "traverse m xs = Ok encs"
    and good: "\<And>x bs. x \<in> set xs \<Longrightarrow> m x = Ok bs \<Longrightarrow>
      element_tlv k bs \<and> (\<forall>rest. elt (bs @ rest) = Ok (n x, rest))"
  shows "parseSequenceOf k elt (concat encs) = Ok (map n xs)"
    and "parseSequenceOf k elt (set_body encs) = Ok (map n (sort_key (\<lambda>x. ok_bytes (m x)) xs))"
proof -
  have count: "countElements k (concat (map (\<lambda>x. ok_bytes (m x)) ys)) = Ok (length ys)"
    and elts: "parseElements elt (length ys) (concat (map (\<lambda>x. ok_bytes (m x)) ys)) = Ok (map n ys)"
    if "set ys \<subseteq> set xs" for ys
  proof -
    have m: "m y = Ok (ok_bytes (m y))" if "y \<in> set ys" for y
      using traverse_member [OF enc] \<open>set ys \<subseteq> set xs\<close> that by auto
    then show "countElements k (concat (map (\<lambda>x. ok_bytes (m x)) ys)) = Ok (length ys)"
      using countElements_concat [of "map (\<lambda>x. ok_bytes (m x)) ys" k] good that by auto
    have "y \<in> set ys \<Longrightarrow> elt (ok_bytes (m y) @ rest) = Ok (n y, rest)" for y rest
      using good m that by blast
    then show "parseElements elt (length ys) (concat (map (\<lambda>x. ok_bytes (m x)) ys)) = Ok (map n ys)"
      by (induction ys) simp_all
  qed
  show "parseSequenceOf k elt (concat encs) = Ok (map n xs)"
    using count [of xs] elts [of xs] by (simp add: parseSequenceOf_def traverse_ok_bytes [OF enc])
  show "parseSequenceOf k elt (set_body encs) = Ok (map n (sort_key (\<lambda>x. ok_bytes (m x)) xs))"
    using count [of "sort_key (\<lambda>x. ok_bytes (m x)) xs"] elts [of "sort_key (\<lambda>x. ok_bytes (m x)) xs"]
    by (simp add: parseSequenceOf_def set_body_traverse [OF enc])
qed

lemma element_tlv_seq: "length body < 2 ^ 31 \<Longrightarrow> element_tlv SeqKind (seq_tlv body)"
  unfolding element_tlv_def seq_tlv_def
  by (intro exI conjI) (auto simp: wf_tlv_def element_matches_def)

lemma element_tlv_raw: "wf_raw rv \<Longrightarrow> element_tlv RawKind (marshal_raw rv)"
  by (elim wf_rawE) (auto simp: element_tlv_def element_matches_def)

text \<open>The bound on the whole encoding bounds its parts.\<close>

lemma length_parts:
  "length (seq_tlv body) < N \<Longrightarrow> length body < N"
  "length (set_tlv encs) < N \<Longrightarrow> length (concat encs) < N"
  "length (tlv c t k body) < N \<Longrightarrow> length body < N"
  "length (octets_tlv body) < N \<Longrightarrow> length body < N"
  "length (int_tlv i) < N \<Longrightarrow> length (int_octets i) < N"
  using length_tlv_less less_trans length_set_body
  unfolding seq_tlv_def set_tlv_def octets_tlv_def int_tlv_def by metis+

subsection \<open>The codec of each type\<close>

definition norm_AlgorithmIdentifier :: "AlgorithmIdentifier \<Rightarrow> AlgorithmIdentifier" where
  "norm_AlgorithmIdentifier a = a\<lparr>Parameters := norm_opt (Parameters a)\<rparr>"

definition wf_AlgorithmIdentifier :: "AlgorithmIdentifier \<Rightarrow> bool" where
  "wf_AlgorithmIdentifier a \<longleftrightarrow> wf_oid (Algorithm a) \<and> wf_opt (Parameters a)"

lemma AlgorithmIdentifier_codec:
  assumes m: "marshal_AlgorithmIdentifier a = Ok bs" and "wf_AlgorithmIdentifier a" "length bs < 2 ^ 31"
  shows "element_tlv SeqKind bs \<and> (\<forall>rest. struct_field plain parse_AlgorithmIdentifier z (bs @ rest)
    = Ok (norm_AlgorithmIdentifier a, rest))"
proof -
  from m obtain o' where o': "oid_tlv (Algorithm a) = Ok o'"
    and bs: "bs = seq_tlv (o' @ optional_raw (Parameters a))"
    by (auto simp: marshal_AlgorithmIdentifier_def outcome_simps)
  have len: "length (o' @ optional_raw (Parameters a)) < 2 ^ 31"
    using assms(3) unfolding bs by (rule length_parts)
  then have "oid_field plain (o' @ optional_raw (Parameters a)) = Ok (Algorithm a, optional_raw (Parameters a))"
    using assms(2) by (intro oid_field_tlv [OF _ o']) (simp_all add: wf_AlgorithmIdentifier_def)
  then have "parse_AlgorithmIdentifier (o' @ optional_raw (Parameters a)) = Ok (norm_AlgorithmIdentifier a)"
    using assms(2)
    by (simp add: parse_AlgorithmIdentifier_def codec wf_AlgorithmIdentifier_def norm_AlgorithmIdentifier_def)
  then show ?thesis using len by (simp add: bs codec element_tlv_seq)
qed

definition norm_EncapsulatedContentInfo :: "EncapsulatedContentInfo \<Rightarrow> EncapsulatedContentInfo" where
  "norm_EncapsulatedContentInfo e = e\<lparr>EContent := norm_opt (EContent e)\<rparr>"

definition wf_EncapsulatedContentInfo :: "EncapsulatedContentInfo \<Rightarrow> bool" where
  "wf_EncapsulatedContentInfo e \<longleftrightarrow>
     wf_oid (EContentType e) \<and> (EContent e = nil_raw \<or> wf_explicit (EContent e))"

lemma EncapsulatedContentInfo_codec:
  assumes m: "marshal_EncapsulatedContentInfo e = Ok bs" and "wf_EncapsulatedContentInfo e" "length bs < 2 ^ 31"
  shows "struct_field plain parse_EncapsulatedContentInfo z (bs @ rest)
    = Ok (norm_EncapsulatedContentInfo e, rest)"
proof -
  from m obtain o' where o': "oid_tlv (EContentType e) = Ok o'"
    and bs: "bs = seq_tlv (o' @ optional_raw (EContent e))"
    by (auto simp: marshal_EncapsulatedContentInfo_def outcome_simps)
  have len: "length (o' @ optional_raw (EContent e)) < 2 ^ 31"
    using assms(3) unfolding bs by (rule length_parts)
  then have "oid_field plain (o' @ optional_raw (EContent e)) = Ok (EContentType e, optional_raw (EContent e))"
    using assms(2) by (intro oid_field_tlv [OF _ o']) (simp_all add: wf_EncapsulatedContentInfo_def)
  moreover have "raw_field opt_explicit0 (optional_raw (EContent e)) = Ok (norm_opt (EContent e), [])"
  proof (cases "EContent e = nil_raw")
    case False
    then show ?thesis
      using assms(2) raw_field_explicit [of "EContent e" opt_explicit0 "[]"]
      by (simp add: optional_raw_def norm_opt_def wf_EncapsulatedContentInfo_def)
  qed (simp add: optional_raw_def norm_opt_def codec)
  ultimately have "parse_EncapsulatedContentInfo (o' @ optional_raw (EContent e)) = Ok (norm_EncapsulatedContentInfo e)"
    by (simp add: parse_EncapsulatedContentInfo_def norm_EncapsulatedContentInfo_def)
  then show ?thesis using len by (simp add: bs codec)
qed

definition norm_ContentInfo :: "ContentInfo \<Rightarrow> ContentInfo" where
  "norm_ContentInfo ci = ci\<lparr>Content := norm_raw (Content ci)\<rparr>"

definition wf_ContentInfo :: "ContentInfo \<Rightarrow> bool" where
  "wf_ContentInfo ci \<longleftrightarrow> wf_oid (ContentType ci) \<and> wf_explicit (Content ci)"

lemma ContentInfo_codec:
  assumes m: "marshal_ContentInfo ci = Ok bs" and "wf_ContentInfo ci" "length bs < 2 ^ 31"
  shows "struct_field plain parse_ContentInfo_body z (bs @ rest) = Ok (norm_ContentInfo ci, rest)"
proof -
  from m obtain o' where o': "oid_tlv (ContentType ci) = Ok o'"
    and bs: "bs = seq_tlv (o' @ marshal_raw (Content ci))"
    by (auto simp: marshal_ContentInfo_def outcome_simps)
  have len: "length (o' @ marshal_raw (Content ci)) < 2 ^ 31"
    using assms(3) unfolding bs by (rule length_parts)
  then have "oid_field plain (o' @ marshal_raw (Content ci)) = Ok (ContentType ci, marshal_raw (Content ci))"
    using assms(2) by (intro oid_field_tlv [OF _ o']) (simp_all add: wf_ContentInfo_def)
  then have "parse_ContentInfo_body (o' @ marshal_raw (Content ci)) = Ok (norm_ContentInfo ci)"
    using assms(2) raw_field_explicit [of "Content ci" explicit0 "[]"]
    by (simp add: parse_ContentInfo_body_def norm_ContentInfo_def wf_ContentInfo_def)
  then show ?thesis using len by (simp add: bs codec)
qed

definition norm_Attribute :: "Attribute \<Rightarrow> Attribute" where
  "norm_Attribute a = a\<lparr>attr_RawValue := norm_raw (attr_RawValue a)\<rparr>"

definition wf_Attribute :: "Attribute \<Rightarrow> bool" where
  "wf_Attribute a \<longleftrightarrow> wf_oid (attr_Type a) \<and> wf_raw (attr_RawValue a)"

lemma Attribute_codec:
  assumes m: "marshal_Attribute a = Ok bs" and "wf_Attribute a" "length bs < 2 ^ 31"
  shows "element_tlv SeqKind bs \<and>
    (\<forall>rest. struct_field plain parse_Attribute z (bs @ rest) = Ok (norm_Attribute a, rest))"
proof -
  from m obtain o' where o': "oid_tlv (attr_Type a) = Ok o'"
    and bs: "bs = seq_tlv (o' @ marshal_raw (attr_RawValue a))"
    by (auto simp: marshal_Attribute_def outcome_simps)
  have len: "length (o' @ marshal_raw (attr_RawValue a)) < 2 ^ 31"
    using assms(3) unfolding bs by (rule length_parts)
  then have "oid_field plain (o' @ marshal_raw (attr_RawValue a)) = Ok (attr_Type a, marshal_raw (attr_RawValue a))"
    using assms(2) by (intro oid_field_tlv [OF _ o']) (simp_all add: wf_Attribute_def)
  then have "parse_Attribute (o' @ marshal_raw (attr_RawValue a)) = Ok (norm_Attribute a)"
    using assms(2) raw_field_plain_wf [of "attr_RawValue a" "[]"]
    by (simp add: parse_Attribute_def norm_Attribute_def wf_Attribute_def)
  then show ?thesis using len by (simp add: bs codec element_tlv_seq)
qed

lemma length_traverse_member:
  assumes "traverse m xs = Ok (encs :: bytes list)" "length (concat encs) < N" "x \<in> set xs" "m x = Ok bs"
  shows "length bs < N"
proof -
  have "bs \<in> set encs" using assms(3,4) traverse_ok_bytes [OF assms(1)] by force
  then show ?thesis using length_concat_member assms(2) by fastforce
qed

text \<open>The attributes of a SignerInfo: signed ones keep their order, unsigned ones are written as a set.\<close>

definition attribute_key :: "Attribute \<Rightarrow> bytes" where
  "attribute_key a = ok_bytes (marshal_Attribute a)"

definition norm_signed :: "Attributes \<Rightarrow> Attributes" where
  "norm_signed attrs = map_option (map norm_Attribute) attrs"

definition norm_unsigned :: "Attributes \<Rightarrow> Attributes" where
  "norm_unsigned attrs = map_option (\<lambda>as. map norm_Attribute (sort_key attribute_key as)) attrs"

definition wf_Attributes :: "Attributes \<Rightarrow> bool" where
  "wf_Attributes attrs \<longleftrightarrow> (\<forall>a \<in> set (elems attrs). wf_Attribute a)"

lemma parse_Attributes:
  assumes "traverse marshal_Attribute as = Ok encs" "length (concat encs) < 2 ^ 31" "\<forall>a \<in> set as. wf_Attribute a"
  shows "parseSequenceOf SeqKind (struct_field plain parse_Attribute z) (concat encs) = Ok (map norm_Attribute as)"
    and "parseSequenceOf SeqKind (struct_field plain parse_Attribute z) (set_body encs)
      = Ok (map norm_Attribute (sort_key attribute_key as))"
proof -
  have "element_tlv SeqKind bs \<and> (\<forall>rest. struct_field plain parse_Attribute z (bs @ rest) = Ok (norm_Attribute a, rest))"
    if "a \<in> set as" "marshal_Attribute a = Ok bs" for a bs
    using Attribute_codec that assms length_traverse_member by metis
  note * = parseSequenceOf_traverse [where n = norm_Attribute, OF assms(1) this]
  show "parseSequenceOf SeqKind (struct_field plain parse_Attribute z) (concat encs) = Ok (map norm_Attribute as)"
    by (rule *(1))
  have "attribute_key = (\<lambda>a. ok_bytes (marshal_Attribute a))"
    by (rule ext) (simp add: attribute_key_def)
  then show "parseSequenceOf SeqKind (struct_field plain parse_Attribute z) (set_body encs)
      = Ok (map norm_Attribute (sort_key attribute_key as))"
    using *(2) by simp
qed

lemma signed_attributes_codec:
  assumes m: "marshal_Attributes concat 0 attrs = Ok sa" and wf: "wf_Attributes attrs"
    and len: "length sa < 2 ^ 31" and follows: "wf_tlv c t body" "c = 2 \<longrightarrow> t \<noteq> 0"
  shows "attributes_field (opt_tag 0) (sa @ tlv c t k body @ rest) = Ok (norm_signed attrs, tlv c t k body @ rest)"
proof (cases attrs)
  case None
  then show ?thesis
    using m follows by (simp add: marshal_Attributes_def attributes_field_def norm_signed_def codec del: One_nat_def)
next
  case (Some as)
  then obtain encs where encs: "traverse marshal_Attribute as = Ok encs" "sa = tlv 2 0 True (concat encs)"
    using m by (auto simp: marshal_Attributes_def outcome_simps)
  then have "length (concat encs) < 2 ^ 31" using len length_parts(3) by metis
  then show ?thesis
    using parse_Attributes(1) [OF encs(1)] wf Some
    by (simp add: encs(2) attributes_field_def norm_signed_def wf_Attributes_def codec)
qed

lemma unsigned_attributes_codec:
  assumes m: "marshal_Attributes set_body 1 attrs = Ok ua" and wf: "wf_Attributes attrs"
    and len: "length ua < 2 ^ 31"
  shows "attributes_field (opt_set_tag 1) ua = Ok (norm_unsigned attrs, [])"
proof (cases attrs)
  case None
  then show ?thesis
    using m by (simp add: marshal_Attributes_def attributes_field_def norm_unsigned_def codec del: One_nat_def)
next
  case (Some as)
  then obtain encs where encs: "traverse marshal_Attribute as = Ok encs" "ua = tlv 2 1 True (set_body encs)"
    using m by (auto simp: marshal_Attributes_def outcome_simps)
  then have "length (set_body encs) < 2 ^ 31" using len length_parts(3) by metis
  then show ?thesis
    using parse_Attributes(2) [OF encs(1)] wf Some slice_field_tag
      [of "set_body encs" 1 "opt_set_tag 1" SeqKind "struct_field plain parse_Attribute nil_Attribute" "[]"]
    by (simp add: encs(2) attributes_field_def norm_unsigned_def wf_Attributes_def)
qed

definition norm_SignerInfo :: "SignerInfo \<Rightarrow> SignerInfo" where
  "norm_SignerInfo si = \<lparr>Version = Version si, SID = norm_raw (SID si),
     DigestAlgorithm = norm_AlgorithmIdentifier (DigestAlgorithm si),
     SignedAttrs = norm_signed (SignedAttrs si),
     SignatureAlgorithm = norm_AlgorithmIdentifier (SignatureAlgorithm si),
     Signature = Signature si, UnsignedAttrs = norm_unsigned (UnsignedAttrs si)\<rparr>"

definition wf_SignerInfo :: "SignerInfo \<Rightarrow> bool" where
  "wf_SignerInfo si \<longleftrightarrow> length (int_octets (Version si)) \<le> 8 \<and> wf_raw (SID si) \<and>
     wf_AlgorithmIdentifier (DigestAlgorithm si) \<and> wf_Attributes (SignedAttrs si) \<and>
     wf_AlgorithmIdentifier (SignatureAlgorithm si) \<and> wf_Attributes (UnsignedAttrs si)"

lemma marshal_AlgorithmIdentifier_tlv:
  assumes "marshal_AlgorithmIdentifier a = Ok bs" "length bs < 2 ^ 31"
  obtains body where "bs = tlv 0 16 True body" "wf_tlv 0 16 body"
  using assms length_parts(3) [of 0 16 True _ "2 ^ 31"]
  by (force simp: marshal_AlgorithmIdentifier_def seq_tlv_def wf_tlv_def outcome_simps)

lemma SignerInfo_codec:
  assumes m: "marshal_SignerInfo si = Ok bs" and wf: "wf_SignerInfo si" and len: "length bs < 2 ^ 31"
  shows "element_tlv SeqKind bs \<and>
    (\<forall>rest. struct_field plain parse_SignerInfo z (bs @ rest) = Ok (norm_SignerInfo si, rest))"
proof -
  from m obtain da sa siga ua where
        da: "marshal_AlgorithmIdentifier (DigestAlgorithm si) = Ok da"
    and sa: "marshal_Attributes concat 0 (SignedAttrs si) = Ok sa"
    and siga: "marshal_AlgorithmIdentifier (SignatureAlgorithm si) = Ok siga"
    and ua: "marshal_Attributes set_body 1 (UnsignedAttrs si) = Ok ua"
    and bs: "bs = seq_tlv (int_tlv (Version si) @ marshal_raw (SID si) @ da @ sa @ siga
         @ octets_tlv (Signature si) @ ua)"
    by (auto simp: marshal_SignerInfo_def outcome_simps)
  let ?body = "int_tlv (Version si) @ marshal_raw (SID si) @ da @ sa @ siga @ octets_tlv (Signature si) @ ua"
  have body: "length ?body < 2 ^ 31" using len unfolding bs by (rule length_parts)
  then have lens: "length da < 2 ^ 31" "length sa < 2 ^ 31" "length siga < 2 ^ 31" "length ua < 2 ^ 31"
      "length (octets_tlv (Signature si)) < 2 ^ 31"
    by auto
  obtain sb where sb: "siga = tlv 0 16 True sb" "wf_tlv 0 16 sb"
    using marshal_AlgorithmIdentifier_tlv [OF siga lens(3)] .
  have w: "length (int_octets (Version si)) \<le> 8" "wf_raw (SID si)"
      "wf_AlgorithmIdentifier (DigestAlgorithm si)" "wf_Attributes (SignedAttrs si)"
      "wf_AlgorithmIdentifier (SignatureAlgorithm si)" "wf_Attributes (UnsignedAttrs si)"
    using wf by (simp_all add: wf_SignerInfo_def)
  have 3: "struct_field plain parse_AlgorithmIdentifier z (da @ rest)
      = Ok (norm_AlgorithmIdentifier (DigestAlgorithm si), rest)" for z rest
    using AlgorithmIdentifier_codec [OF da w(3) lens(1)] by blast
  have 4: "attributes_field (opt_tag 0) (sa @ siga @ rest) = Ok (norm_signed (SignedAttrs si), siga @ rest)" for rest
    unfolding sb(1) by (rule signed_attributes_codec [OF sa w(4) lens(2) sb(2)]) simp
  have 5: "struct_field plain parse_AlgorithmIdentifier z (siga @ rest)
      = Ok (norm_AlgorithmIdentifier (SignatureAlgorithm si), rest)" for z rest
    using AlgorithmIdentifier_codec [OF siga w(5) lens(3)] by blast
  have 6: "octets_field plain (octets_tlv (Signature si) @ ua) = Ok (Signature si, ua)"
    by (rule octets_field_tlv) (rule length_parts(4) [OF lens(5)])
  have 7: "attributes_field (opt_set_tag 1) ua = Ok (norm_unsigned (UnsignedAttrs si), [])"
    by (rule unsigned_attributes_codec [OF ua w(6) lens(4)])
  have "parse_SignerInfo ?body = Ok (norm_SignerInfo si)"
    using w by (simp add: parse_SignerInfo_def norm_SignerInfo_def raw_field_plain_wf 3 4 5 6 7 del: One_nat_def)
  then show ?thesis using body by (simp add: bs codec element_tlv_seq)
qed

text \<open>The optional sets of raw values, in front of another element.\<close>

definition norm_raws :: "raw_value slice \<Rightarrow> raw_value slice" where
  "norm_raws rvs = map_option (\<lambda>xs. map norm_raw (sort_key marshal_raw xs)) rvs"

lemma parse_raws:
  assumes "\<forall>rv \<in> set xs. wf_raw rv"
  shows "parseSequenceOf RawKind (raw_field plain) (set_body (map marshal_raw xs))
    = Ok (map norm_raw (sort_key marshal_raw xs))"
proof -
  have "traverse (\<lambda>rv. Ok (marshal_raw rv)) xs = Ok (map marshal_raw xs)"
    by (rule traverse_map_Ok) simp
  then have "parseSequenceOf RawKind (raw_field plain) (set_body (map marshal_raw xs))
      = Ok (map norm_raw (sort_key (\<lambda>x. ok_bytes (Ok (marshal_raw x))) xs))"
    by (rule parseSequenceOf_traverse(2)) (use assms in \<open>auto simp: element_tlv_raw raw_field_plain_wf\<close>)
  then show ?thesis by simp
qed

lemma raws_codec:
  assumes wf: "\<forall>rv \<in> set (elems rvs). wf_raw rv" and len: "length (marshal_raws n rvs) < 2 ^ 31" "n < 31"
    and follows: "wf_tlv c t body" "c = 2 \<longrightarrow> t \<noteq> n"
  shows "slice_field (opt_set_tag n) RawKind (raw_field plain) (marshal_raws n rvs @ tlv c t k body @ rest)
    = Ok (norm_raws rvs, tlv c t k body @ rest)"
proof (cases rvs)
  case None
  then show ?thesis using follows by (simp add: marshal_raws_def norm_raws_def slice_field_absent_tlv)
next
  case (Some xs)
  have "length (tlv 2 n True (set_body (map marshal_raw xs))) < 2 ^ 31"
    using len(1) by (simp add: marshal_raws_def Some)
  then have "length (set_body (map marshal_raw xs)) < 2 ^ 31" by (rule length_parts(3))
  then show ?thesis
    using Some wf len(2) by (simp add: marshal_raws_def norm_raws_def slice_field_tag parse_raws)
qed

lemma raws_then:
  assumes "wf_tlv c t body"
  obtains c' t' k' body' rest' where
    "marshal_raws n rvs @ tlv c t k body @ rest = tlv c' t' k' body' @ rest'"
    "rvs = None \<and> c' = c \<and> t' = t \<and> body' = body \<or> rvs \<noteq> None \<and> c' = 2 \<and> t' = n \<and> tlv c' t' k' body' = marshal_raws n rvs"
proof (cases rvs)
  case None
  then show ?thesis using that [of c t k body rest] by (simp add: marshal_raws_def)
next
  case (Some xs)
  then show ?thesis
    using that [of 2 n True "set_body (map marshal_raw xs)" "tlv c t k body @ rest"]
    by (simp add: marshal_raws_def)
qed

text \<open>The whole SignedData.\<close>

definition norm_SignedData :: "SignedData \<Rightarrow> SignedData" where
  "norm_SignedData sd = \<lparr>sd_Version = sd_Version sd,
     DigestAlgorithms = map norm_AlgorithmIdentifier
       (sort_key (\<lambda>a. ok_bytes (marshal_AlgorithmIdentifier a)) (DigestAlgorithms sd)),
     EncapContentInfo = norm_EncapsulatedContentInfo (EncapContentInfo sd),
     Certificates = norm_raws (Certificates sd), CRLs = norm_raws (CRLs sd),
     SignerInfos = map norm_SignerInfo
       (sort_key (\<lambda>si. ok_bytes (marshal_SignerInfo si)) (SignerInfos sd))\<rparr>"

definition wf_SignedData :: "SignedData \<Rightarrow> bool" where
  "wf_SignedData sd \<longleftrightarrow> length (int_octets (sd_Version sd)) \<le> 8 \<and>
     (\<forall>a \<in> set (DigestAlgorithms sd). wf_AlgorithmIdentifier a) \<and>
     wf_EncapsulatedContentInfo (EncapContentInfo sd) \<and>
     (\<forall>rv \<in> set (elems (Certificates sd)). wf_raw rv) \<and>
     (\<forall>rv \<in> set (elems (CRLs sd)). wf_raw rv) \<and>
     (\<forall>si \<in> set (SignerInfos sd). wf_SignerInfo si)"

lemma set_field_codec:
  assumes "traverse m xs = Ok encs" "length (concat encs) < 2 ^ 31"
    and "\<And>x bs. x \<in> set xs \<Longrightarrow> m x = Ok bs \<Longrightarrow> length bs < 2 ^ 31 \<Longrightarrow>
      element_tlv k bs \<and> (\<forall>rest. elt (bs @ rest) = Ok (n x, rest))"
  shows "slice_field as_set k elt (set_tlv encs @ rest)
    = Ok (Some (map n (sort_key (\<lambda>x. ok_bytes (m x)) xs)), rest)"
proof -
  have "parseSequenceOf k elt (set_body encs) = Ok (map n (sort_key (\<lambda>x. ok_bytes (m x)) xs))"
    by (rule parseSequenceOf_traverse(2) [where n = n, OF assms(1)])
      (rule assms(3), assumption+, rule length_traverse_member [OF assms(1,2)])
  then show ?thesis using assms(2) by (simp add: set_tlv_def slice_field_set)
qed

lemma SignedData_codec:
  assumes m: "marshal_SignedData sd = Ok bs" and wf: "wf_SignedData sd" and len: "length bs < 2 ^ 31"
  shows "struct_field plain parse_SignedData z (bs @ rest) = Ok (norm_SignedData sd, rest)"
proof -
  from m obtain das eci sis where
        das: "traverse marshal_AlgorithmIdentifier (DigestAlgorithms sd) = Ok das"
    and eci: "marshal_EncapsulatedContentInfo (EncapContentInfo sd) = Ok eci"
    and sis: "traverse marshal_SignerInfo (SignerInfos sd) = Ok sis"
    and bs: "bs = seq_tlv (int_tlv (sd_Version sd) @ set_tlv das @ eci @ marshal_raws 0 (Certificates sd)
         @ marshal_raws 1 (CRLs sd) @ set_tlv sis)"
    by (auto simp: marshal_SignedData_def outcome_simps)
  let ?body = "int_tlv (sd_Version sd) @ set_tlv das @ eci @ marshal_raws 0 (Certificates sd)
         @ marshal_raws 1 (CRLs sd) @ set_tlv sis"
  have body: "length ?body < 2 ^ 31" using len unfolding bs by (rule length_parts)
  then have lens: "length (set_tlv das) < 2 ^ 31" "length eci < 2 ^ 31"
      "length (marshal_raws 0 (Certificates sd)) < 2 ^ 31" "length (marshal_raws 1 (CRLs sd)) < 2 ^ 31"
      "length (set_tlv sis) < 2 ^ 31"
    by auto
  note das_len = length_parts(2) [OF lens(1)] and sis_len = length_parts(2) [OF lens(5)]
  have sis_wf: "wf_tlv 0 17 (set_body sis)" using sis_len by (simp add: wf_tlv_def)
  have w: "length (int_octets (sd_Version sd)) \<le> 8"
      "\<forall>a \<in> set (DigestAlgorithms sd). wf_AlgorithmIdentifier a"
      "wf_EncapsulatedContentInfo (EncapContentInfo sd)"
      "\<forall>rv \<in> set (elems (Certificates sd)). wf_raw rv" "\<forall>rv \<in> set (elems (CRLs sd)). wf_raw rv"
      "\<forall>si \<in> set (SignerInfos sd). wf_SignerInfo si"
    using wf by (simp_all add: wf_SignedData_def)
  have 2: "slice_field as_set SeqKind (struct_field plain parse_AlgorithmIdentifier z) (set_tlv das @ rest)
    = Ok (Some (DigestAlgorithms (norm_SignedData sd)), rest)" for z rest
    unfolding norm_SignedData_def SignedData.simps
    by (rule set_field_codec [where n = norm_AlgorithmIdentifier, OF das das_len])
      (use w(2) AlgorithmIdentifier_codec in blast)
  have 3: "struct_field plain parse_EncapsulatedContentInfo z (eci @ rest)
    = Ok (norm_EncapsulatedContentInfo (EncapContentInfo sd), rest)" for z rest
    by (rule EncapsulatedContentInfo_codec [OF eci w(3) lens(2)])
  have 5: "slice_field (opt_set_tag 1) RawKind (raw_field plain) (marshal_raws 1 (CRLs sd) @ set_tlv sis)
    = Ok (norm_raws (CRLs sd), set_tlv sis)"
    using raws_codec [OF w(5) lens(4) _ sis_wf, of True "[]"] by (simp add: set_tlv_def)
  have 4: "slice_field (opt_set_tag 0) RawKind (raw_field plain)
      (marshal_raws 0 (Certificates sd) @ marshal_raws 1 (CRLs sd) @ set_tlv sis)
    = Ok (norm_raws (Certificates sd), marshal_raws 1 (CRLs sd) @ set_tlv sis)"
  proof -
    obtain c t k b r where next_tlv: "marshal_raws 1 (CRLs sd) @ tlv 0 17 True (set_body sis) @ [] = tlv c t k b @ r"
      "CRLs sd = None \<and> c = 0 \<and> t = 17 \<and> b = set_body sis \<or>
        CRLs sd \<noteq> None \<and> c = 2 \<and> t = 1 \<and> tlv c t k b = marshal_raws 1 (CRLs sd)"
      by (rule raws_then [OF sis_wf])
    have "wf_tlv c t b"
      using next_tlv(2)
    proof
      assume *: "CRLs sd \<noteq> None \<and> c = 2 \<and> t = 1 \<and> tlv c t k b = marshal_raws 1 (CRLs sd)"
      then have "length b < 2 ^ 31" using lens(4) length_parts(3) by metis
      then show ?thesis using * by (simp add: wf_tlv_def)
    qed (use sis_wf in simp)
    then show ?thesis
      using raws_codec [OF w(4) lens(3), of c t b k r] next_tlv by (auto simp: set_tlv_def)
  qed
  have 6: "slice_field as_set SeqKind (struct_field plain parse_SignerInfo z) (set_tlv sis @ rest)
    = Ok (Some (SignerInfos (norm_SignedData sd)), rest)" for z rest
    unfolding norm_SignedData_def SignedData.simps
    by (rule set_field_codec [where n = norm_SignerInfo, OF sis sis_len])
      (use w(6) SignerInfo_codec in blast)
  have "parse_SignedData ?body = Ok (norm_SignedData sd)"
    using w(1) 6 [of _ "[]"]
    by (simp add: parse_SignedData_def 2 3 4 5 del: One_nat_def) (simp add: norm_SignedData_def)
  then show ?thesis using body by (simp add: bs codec)
qed

subsection \<open>DER throughout\<close>

text \<open>
  \<open>BER2DER\<close> rewrites the inside of constructed elements, so a written structure survives it when the
  raw values it embeds are themselves DER: then the whole is, and \<open>BER2DER\<close> leaves it as it is.
\<close>

definition is_der :: "bytes \<Rightarrow> bool" where
  "is_der bs \<longleftrightarrow> (\<exists>obj. wf_object obj \<and> bs = der obj)"

definition ders :: "bytes \<Rightarrow> bool" where
  "ders bs \<longleftrightarrow> (\<exists>objs. (\<forall>obj \<in> set objs. wf_object obj) \<and> bs = concat (map der objs))"

lemma ders_Nil [simp]: "ders []"
  unfolding ders_def by (intro exI [of _ "[]"]) simp

lemma ders_append [intro]: "ders a \<Longrightarrow> ders b \<Longrightarrow> ders (a @ b)"
  unfolding ders_def by (elim exE, rename_tac xs ys, rule_tac x = "xs @ ys" in exI) auto

lemma is_der_ders [intro]: "is_der a \<Longrightarrow> ders a"
  unfolding ders_def is_der_def by (elim exE, rename_tac obj, rule_tac x = "[obj]" in exI) simp

lemma ders_concat [intro]: "(\<And>a. a \<in> set as \<Longrightarrow> is_der a) \<Longrightarrow> ders (concat as)"
  by (induction as) auto

lemma BER2DER_is_der:
  assumes "is_der bs" "length bs < 2 ^ 31"
  shows "BER2DER (bs @ junk) = Ok bs"
  using assms BER2DER_der unfolding is_der_def by blast

text \<open>The identifier octets the writers use.\<close>

lemma wf_tag_octets:
  "wf_tag [octet 2] False" "wf_tag [octet 4] False" "wf_tag [octet 5] False" "wf_tag [octet 6] False"
  "wf_tag [octet 23] False" "wf_tag [octet 24] False"
  "wf_tag [octet 48] True" "wf_tag [octet 49] True" "wf_tag [octet 160] True" "wf_tag [octet 161] True"
  by (simp_all add: wf_tag_def octet_def)

lemma is_der_primitive:
  assumes "t \<in> {2, 4, 5, 6, 23, 24}" "length body < 2 ^ 31"
  shows "is_der (tlv 0 t False body)"
  unfolding is_der_def
  by (rule exI [of _ "asn1Primitive [octet t] (length body) body"])
    (use assms wf_tag_octets in \<open>auto simp: tlv_def appendTagAndLength_def\<close>)

lemma is_der_constructed:
  assumes "ders body"
  shows "is_der (tlv 0 16 True body)" "is_der (tlv 0 17 True body)"
    "is_der (tlv 2 0 True body)" "is_der (tlv 2 1 True body)"
proof -
  obtain objs where objs: "\<forall>obj \<in> set objs. wf_object obj" "body = concat (map der objs)"
    using assms by (auto simp: ders_def)
  have "is_der ([octet i] @ length_octets (length body) @ body)" if "wf_tag [octet i] True" for i
    unfolding is_der_def
    by (rule exI [of _ "asn1Structured [octet i] objs"]) (use objs that in simp)
  from this [OF wf_tag_octets(7)] this [OF wf_tag_octets(8)] this [OF wf_tag_octets(9)]
    this [OF wf_tag_octets(10)]
  show "is_der (tlv 0 16 True body)" "is_der (tlv 0 17 True body)"
    "is_der (tlv 2 0 True body)" "is_der (tlv 2 1 True body)"
    by (simp_all add: tlv_def appendTagAndLength_def)
qed

lemma is_der_seq_tlv: "ders body \<Longrightarrow> is_der (seq_tlv body)"
  unfolding seq_tlv_def by (rule is_der_constructed)

lemma ders_set_body: "(\<And>e. e \<in> set encs \<Longrightarrow> is_der e) \<Longrightarrow> ders (set_body encs)"
  unfolding set_body_def by (rule ders_concat) simp

lemma is_der_set_tlv: "(\<And>e. e \<in> set encs \<Longrightarrow> is_der e) \<Longrightarrow> is_der (set_tlv encs)"
  unfolding set_tlv_def by (intro is_der_constructed ders_set_body)

lemma is_der_oid_tlv: "oid_tlv oid = Ok bs \<Longrightarrow> length bs < 2 ^ 31 \<Longrightarrow> is_der bs"
proof -
  assume "oid_tlv oid = Ok bs" and len: "length bs < 2 ^ 31"
  then obtain os where bs: "bs = tlv 0 6 False os" by (auto simp: oid_tlv_def outcome_simps)
  have "length os < 2 ^ 31" using len unfolding bs by (rule length_parts)
  then show "is_der bs" unfolding bs by (intro is_der_primitive) simp_all
qed

definition der_opt :: "raw_value \<Rightarrow> bool" where
  "der_opt rv \<longleftrightarrow> rv = nil_raw \<or> is_der (marshal_raw rv)"

lemma ders_optional_raw: "der_opt rv \<Longrightarrow> ders (optional_raw rv)"
  by (auto simp: der_opt_def optional_raw_def)

lemma is_der_AlgorithmIdentifier:
  assumes "marshal_AlgorithmIdentifier a = Ok bs" "der_opt (Parameters a)" "length bs < 2 ^ 31"
  shows "is_der bs"
proof -
  from assms(1) obtain o' where o': "oid_tlv (Algorithm a) = Ok o'"
    and bs: "bs = seq_tlv (o' @ optional_raw (Parameters a))"
    by (auto simp: marshal_AlgorithmIdentifier_def outcome_simps)
  have "length (o' @ optional_raw (Parameters a)) < 2 ^ 31" using assms(3) unfolding bs by (rule length_parts)
  then have "is_der o'" by (intro is_der_oid_tlv [OF o']) simp
  then show ?thesis unfolding bs by (intro is_der_seq_tlv ders_append is_der_ders ders_optional_raw assms(2))
qed

lemma is_der_Attribute:
  assumes "marshal_Attribute a = Ok bs" "is_der (marshal_raw (attr_RawValue a))" "length bs < 2 ^ 31"
  shows "is_der bs"
proof -
  from assms(1) obtain o' where o': "oid_tlv (attr_Type a) = Ok o'"
    and bs: "bs = seq_tlv (o' @ marshal_raw (attr_RawValue a))"
    by (auto simp: marshal_Attribute_def outcome_simps)
  have "length (o' @ marshal_raw (attr_RawValue a)) < 2 ^ 31" using assms(3) unfolding bs by (rule length_parts)
  then have "is_der o'" by (intro is_der_oid_tlv [OF o']) simp
  then show ?thesis unfolding bs by (intro is_der_seq_tlv ders_append is_der_ders assms(2))
qed

definition der_Attributes :: "Attributes \<Rightarrow> bool" where
  "der_Attributes attrs \<longleftrightarrow> (\<forall>a \<in> set (elems attrs). is_der (marshal_raw (attr_RawValue a)))"

lemma traverse_all:
  assumes "traverse m xs = Ok (encs :: bytes list)" "length (concat encs) < N"
    and "\<And>x bs. x \<in> set xs \<Longrightarrow> m x = Ok bs \<Longrightarrow> length bs < N \<Longrightarrow> P bs"
    and "e \<in> set encs"
  shows "P e"
proof -
  obtain x where x: "x \<in> set xs" "e = ok_bytes (m x)"
    using assms(4) traverse_ok_bytes [OF assms(1)] by auto
  then have "m x = Ok e" using traverse_member [OF assms(1)] by simp
  then show ?thesis using x assms(3) length_traverse_member [OF assms(1,2)] by blast
qed

lemma ders_Attributes:
  assumes m: "marshal_Attributes body n attrs = Ok bs" and der: "der_Attributes attrs"
    and len: "length bs < 2 ^ 31" and n: "body = concat \<and> n = 0 \<or> body = set_body \<and> n = 1"
  shows "ders bs"
proof (cases attrs)
  case None
  then show ?thesis using m by (simp add: marshal_Attributes_def)
next
  case (Some as)
  then obtain encs where encs: "traverse marshal_Attribute as = Ok encs" "bs = tlv 2 n True (body encs)"
    using m by (auto simp: marshal_Attributes_def outcome_simps)
  have "length (body encs) < 2 ^ 31" using len unfolding encs(2) by (rule length_parts)
  then have "length (concat encs) < 2 ^ 31" using n by auto
  then have "is_der e" if "e \<in> set encs" for e
    by (rule traverse_all [OF encs(1)])
      (use that der Some in \<open>auto simp: der_Attributes_def intro: is_der_Attribute\<close>)
  then have "ders (concat encs)" "ders (set_body encs)"
    by (auto intro: ders_concat ders_set_body)
  then have "is_der (tlv 2 0 True (concat encs))" "is_der (tlv 2 1 True (set_body encs))"
    by (auto intro: is_der_constructed simp del: One_nat_def)
  then show ?thesis using n unfolding encs(2) by (auto simp del: One_nat_def)
qed

definition der_SignerInfo :: "SignerInfo \<Rightarrow> bool" where
  "der_SignerInfo si \<longleftrightarrow> is_der (marshal_raw (SID si)) \<and> der_opt (Parameters (DigestAlgorithm si)) \<and>
     der_Attributes (SignedAttrs si) \<and> der_opt (Parameters (SignatureAlgorithm si)) \<and>
     der_Attributes (UnsignedAttrs si)"

lemma is_der_SignerInfo:
  assumes m: "marshal_SignerInfo si = Ok bs" and d: "der_SignerInfo si"
    and v: "length (int_octets (Version si)) \<le> 8" and len: "length bs < 2 ^ 31"
  shows "is_der bs"
proof -
  from m obtain da sa siga ua where
        da: "marshal_AlgorithmIdentifier (DigestAlgorithm si) = Ok da"
    and sa: "marshal_Attributes concat 0 (SignedAttrs si) = Ok sa"
    and siga: "marshal_AlgorithmIdentifier (SignatureAlgorithm si) = Ok siga"
    and ua: "marshal_Attributes set_body 1 (UnsignedAttrs si) = Ok ua"
    and bs: "bs = seq_tlv (int_tlv (Version si) @ marshal_raw (SID si) @ da @ sa @ siga
         @ octets_tlv (Signature si) @ ua)"
    by (auto simp: marshal_SignerInfo_def outcome_simps)
  have "length (int_tlv (Version si) @ marshal_raw (SID si) @ da @ sa @ siga
         @ octets_tlv (Signature si) @ ua) < 2 ^ 31"
    using len unfolding bs by (rule length_parts)
  then have lens: "length da < 2 ^ 31" "length sa < 2 ^ 31" "length siga < 2 ^ 31" "length ua < 2 ^ 31"
      "length (octets_tlv (Signature si)) < 2 ^ 31"
    by auto
  have "ders (int_tlv (Version si))" unfolding int_tlv_def using v by (intro is_der_ders is_der_primitive) simp_all
  moreover have "ders (octets_tlv (Signature si))"
    unfolding octets_tlv_def using length_parts(4) [OF lens(5)] by (intro is_der_ders is_der_primitive) simp_all
  moreover have "ders da" "ders siga"
    using d is_der_AlgorithmIdentifier [OF da _ lens(1)] is_der_AlgorithmIdentifier [OF siga _ lens(3)]
    by (auto simp: der_SignerInfo_def)
  moreover have "ders sa" "ders ua"
    using d ders_Attributes [OF sa _ lens(2)] ders_Attributes [OF ua _ lens(4)]
    by (simp_all add: der_SignerInfo_def)
  ultimately show ?thesis
    using d unfolding bs by (intro is_der_seq_tlv ders_append) (simp_all add: der_SignerInfo_def is_der_ders)
qed

definition der_SignedData :: "SignedData \<Rightarrow> bool" where
  "der_SignedData sd \<longleftrightarrow> (\<forall>a \<in> set (DigestAlgorithms sd). der_opt (Parameters a)) \<and>
     der_opt (EContent (EncapContentInfo sd)) \<and>
     (\<forall>rv \<in> set (elems (Certificates sd)). is_der (marshal_raw rv)) \<and>
     (\<forall>rv \<in> set (elems (CRLs sd)). is_der (marshal_raw rv)) \<and>
     (\<forall>si \<in> set (SignerInfos sd). der_SignerInfo si)"

lemma ders_marshal_raws:
  assumes "\<forall>rv \<in> set (elems rvs). is_der (marshal_raw rv)"
  shows "ders (marshal_raws 0 rvs)" "ders (marshal_raws 1 rvs)"
proof -
  have "ders (set_body (map marshal_raw (elems rvs)))" by (rule ders_set_body) (use assms in auto)
  then have "is_der (tlv 2 0 True (set_body (map marshal_raw (elems rvs))))"
    "is_der (tlv 2 1 True (set_body (map marshal_raw (elems rvs))))"
    by (auto intro: is_der_constructed simp del: One_nat_def)
  then show "ders (marshal_raws 0 rvs)" "ders (marshal_raws 1 rvs)"
    by (cases rvs; simp add: marshal_raws_def is_der_ders del: One_nat_def)+
qed

lemma is_der_EncapsulatedContentInfo:
  assumes "marshal_EncapsulatedContentInfo e = Ok bs" "der_opt (EContent e)" "length bs < 2 ^ 31"
  shows "is_der bs"
proof -
  from assms(1) obtain o' where o': "oid_tlv (EContentType e) = Ok o'"
    and bs: "bs = seq_tlv (o' @ optional_raw (EContent e))"
    by (auto simp: marshal_EncapsulatedContentInfo_def outcome_simps)
  have "length (o' @ optional_raw (EContent e)) < 2 ^ 31" using assms(3) unfolding bs by (rule length_parts)
  then have "is_der o'" by (intro is_der_oid_tlv [OF o']) simp
  then show ?thesis unfolding bs by (intro is_der_seq_tlv ders_append is_der_ders ders_optional_raw assms(2))
qed

lemma is_der_SignedData:
  assumes m: "marshal_SignedData sd = Ok bs" and wf: "wf_SignedData sd" and d: "der_SignedData sd"
    and len: "length bs < 2 ^ 31"
  shows "is_der bs"
proof -
  from m obtain das eci sis where
        das: "traverse marshal_AlgorithmIdentifier (DigestAlgorithms sd) = Ok das"
    and eci: "marshal_EncapsulatedContentInfo (EncapContentInfo sd) = Ok eci"
    and sis: "traverse marshal_SignerInfo (SignerInfos sd) = Ok sis"
    and bs: "bs = seq_tlv (int_tlv (sd_Version sd) @ set_tlv das @ eci @ marshal_raws 0 (Certificates sd)
         @ marshal_raws 1 (CRLs sd) @ set_tlv sis)"
    by (auto simp: marshal_SignedData_def outcome_simps)
  have "length (int_tlv (sd_Version sd) @ set_tlv das @ eci @ marshal_raws 0 (Certificates sd)
         @ marshal_raws 1 (CRLs sd) @ set_tlv sis) < 2 ^ 31"
    using len unfolding bs by (rule length_parts)
  then have lens: "length (set_tlv das) < 2 ^ 31" "length eci < 2 ^ 31" "length (set_tlv sis) < 2 ^ 31" by auto
  have v: "ders (int_tlv (sd_Version sd))"
    unfolding int_tlv_def using wf by (intro is_der_ders is_der_primitive) (simp_all add: wf_SignedData_def)
  have "is_der e" if "e \<in> set das" for e
    by (rule traverse_all [OF das length_parts(2) [OF lens(1)] _ that])
      (use d in \<open>auto simp: der_SignedData_def intro: is_der_AlgorithmIdentifier\<close>)
  then have 1: "ders (set_tlv das)" by (intro is_der_ders is_der_set_tlv)
  have "is_der e" if "e \<in> set sis" for e
    by (rule traverse_all [OF sis length_parts(2) [OF lens(3)] _ that])
      (use d wf in \<open>auto simp: der_SignedData_def wf_SignedData_def wf_SignerInfo_def intro: is_der_SignerInfo\<close>)
  then have 2: "ders (set_tlv sis)" by (intro is_der_ders is_der_set_tlv)
  have 3: "ders eci"
    using d is_der_EncapsulatedContentInfo [OF eci _ lens(2)] by (auto simp: der_SignedData_def)
  have 4: "ders (marshal_raws 0 (Certificates sd))" "ders (marshal_raws 1 (CRLs sd))"
    using d ders_marshal_raws by (simp_all add: der_SignedData_def)
  show ?thesis unfolding bs by (intro is_der_seq_tlv ders_append v 1 2 3 4)
qed

subsection \<open>The round trip of a SignedData\<close>

lemma wf_oid_ContentTypeSignedData: "wf_oid ContentTypeSignedData" "wf_oid ContentTypeData"
  by (simp_all add: wf_oid_def oid_defs)

lemma marshal_explicit0:
  assumes "body \<noteq> []" "length body < 2 ^ 31"
  shows "wf_explicit \<lparr>rv_Class = 2, rv_Tag = 0, rv_IsCompound = True, rv_Bytes = Some body, rv_FullBytes = None\<rparr>"
  using assms unfolding wf_explicit_def by (intro exI [of _ body]) (simp add: norm_raw_def)

lemma ContentInfoDER_parse:
  assumes m: "ContentInfoDER sd = Ok bs" and wf: "wf_SignedData sd" and d: "der_SignedData sd"
    and len: "length bs < 2 ^ 31"
  shows "\<exists>ci. ParseContentInfo (bs @ junk) = Ok ci \<and> SignedDataContent ci = Ok (norm_SignedData sd)"
proof -
  from m obtain body where body: "marshal_SignedData sd = Ok body"
    and ci: "marshal_ContentInfo \<lparr>ContentType = ContentTypeSignedData,
      Content = \<lparr>rv_Class = 2, rv_Tag = 0, rv_IsCompound = True, rv_Bytes = Some body, rv_FullBytes = None\<rparr>\<rparr> = Ok bs"
    (is "marshal_ContentInfo ?ci = _")
    by (auto simp: ContentInfoDER_def SignedData_ContentInfo_def outcome_simps)
  from ci obtain o' where o': "oid_tlv ContentTypeSignedData = Ok o'"
    and bs: "bs = seq_tlv (o' @ tlv 2 0 True body)"
    by (auto simp: marshal_ContentInfo_def outcome_simps marshal_raw_fresh)
  have lens: "length (o' @ tlv 2 0 True body) < 2 ^ 31" using len unfolding bs by (rule length_parts)
  then have "length (tlv 2 0 True body) < 2 ^ 31" by simp
  then have len_body: "length body < 2 ^ 31" by (rule length_parts)
  have nonempty: "body \<noteq> []" using body by (auto simp: marshal_SignedData_def outcome_simps seq_tlv_def)
  have wf_ci: "wf_ContentInfo ?ci"
    using marshal_explicit0 [OF nonempty len_body]
    by (simp add: wf_ContentInfo_def wf_oid_ContentTypeSignedData)
  have "is_der body" by (rule is_der_SignedData [OF body wf d len_body])
  then have "is_der (tlv 2 0 True body)" by (intro is_der_constructed is_der_ders)
  moreover have "is_der o'" using lens by (intro is_der_oid_tlv [OF o']) simp
  ultimately have "is_der bs" unfolding bs by (intro is_der_seq_tlv ders_append is_der_ders)
  then have "BER2DER (bs @ junk) = Ok bs" using len by (rule BER2DER_is_der)
  then have "ParseContentInfo (bs @ junk) = Ok (norm_ContentInfo ?ci)"
    using ContentInfo_codec [OF ci wf_ci len, of nil_ContentInfo "[]"]
    by (simp add: ParseContentInfo_def no_trailing_def)
  moreover have "SignedDataContent (norm_ContentInfo ?ci) = Ok (norm_SignedData sd)"
    using SignedData_codec [OF body wf len_body, of nil_SignedData "[]"]
    by (simp add: SignedDataContent_def norm_ContentInfo_def norm_raw_def no_trailing_def)
  ultimately show ?thesis by blast
qed

end
