(* ===== verification/Protocol_Spec.thy ===== *)
theory Protocol_Spec
  imports Protocol_Codec
begin

text \<open>
  What ietf-cms/protocol promises: encoded SignedData comes back from the parser and re-encodes to the
  same bytes, content and attributes are read as they were written, the bytes that are signed are the
  bytes a verifier reconstructs, and \<open>AddSignerInfo\<close> touches the message only when it succeeds.
\<close>

subsection \<open>Re-encoding what was parsed\<close>

lemma norm_raw_not_nil: "norm_raw rv \<noteq> nil_raw"
  by (auto simp: norm_raw_def nil_raw_def raw_of_def)

lemma optional_norm_opt [simp]: "optional_raw (norm_opt rv) = optional_raw rv"
  by (simp add: optional_raw_def norm_opt_def norm_raw_not_nil)

lemma marshal_norm [simp]:
  "marshal_AlgorithmIdentifier (norm_AlgorithmIdentifier a) = marshal_AlgorithmIdentifier a"
  "marshal_EncapsulatedContentInfo (norm_EncapsulatedContentInfo e) = marshal_EncapsulatedContentInfo e"
  "marshal_Attribute (norm_Attribute at) = marshal_Attribute at"
  by (simp_all add: marshal_AlgorithmIdentifier_def norm_AlgorithmIdentifier_def
      marshal_EncapsulatedContentInfo_def norm_EncapsulatedContentInfo_def
      marshal_Attribute_def norm_Attribute_def)

lemma traverse_map: "traverse m (map n xs) = traverse (\<lambda>x. m (n x)) xs"
  by (induction xs) simp_all

lemma traverse_sort:
  assumes "traverse m xs = Ok encs"
  shows "traverse m (sort_key (\<lambda>x. ok_bytes (m x)) xs) = Ok (sort encs)"
proof -
  have "traverse m (sort_key (\<lambda>x. ok_bytes (m x)) xs)
      = Ok (map (\<lambda>x. ok_bytes (m x)) (sort_key (\<lambda>x. ok_bytes (m x)) xs))"
    by (rule traverse_map_Ok) (use traverse_member [OF assms] in simp)
  then show ?thesis by (simp add: map_sort_key traverse_ok_bytes [OF assms])
qed

lemma set_body_sort [simp]: "set_body (sort encs) = set_body encs"
  by (simp add: set_body_def sorted_sort_id)

lemma marshal_norm_signed [simp]: "marshal_Attributes body n (norm_signed attrs) = marshal_Attributes body n attrs"
  by (cases attrs) (simp_all add: marshal_Attributes_def norm_signed_def traverse_map)

lemma marshal_norm_unsigned:
  assumes "marshal_Attributes set_body n attrs = Ok bs"
  shows "marshal_Attributes set_body n (norm_unsigned attrs) = Ok bs"
proof (cases attrs)
  case (Some as)
  have key: "attribute_key = (\<lambda>a. ok_bytes (marshal_Attribute a))"
    by (rule ext) (simp add: attribute_key_def)
  from assms Some obtain encs where "traverse marshal_Attribute as = Ok encs" "bs = tlv 2 n True (set_body encs)"
    by (auto simp: marshal_Attributes_def outcome_simps)
  then show ?thesis
    using Some traverse_sort [of marshal_Attribute as encs]
    by (simp add: marshal_Attributes_def norm_unsigned_def traverse_map key)
qed (use assms in \<open>simp add: norm_unsigned_def\<close>)

lemma marshal_norm_SignerInfo:
  assumes "marshal_SignerInfo si = Ok bs"
  shows "marshal_SignerInfo (norm_SignerInfo si) = Ok bs"
  using assms by (auto simp: marshal_SignerInfo_def norm_SignerInfo_def outcome_simps marshal_norm_unsigned)

lemma marshal_norm_raws [simp]: "marshal_raws n (norm_raws rvs) = marshal_raws n rvs"
  by (cases rvs) (simp_all add: marshal_raws_def norm_raws_def comp_def map_sort_key)

lemma traverse_cong_Ok:
  assumes "traverse m xs = Ok encs" "\<And>x bs. x \<in> set xs \<Longrightarrow> m x = Ok bs \<Longrightarrow> m' x = Ok bs"
  shows "traverse m' xs = Ok encs"
  using assms by (induction xs arbitrary: encs) (auto simp: outcome_simps)

lemma marshal_norm_SignedData:
  assumes "marshal_SignedData sd = Ok bs"
  shows "marshal_SignedData (norm_SignedData sd) = Ok bs"
proof -
  from assms obtain das eci sis where
        das: "traverse marshal_AlgorithmIdentifier (DigestAlgorithms sd) = Ok das"
    and eci: "marshal_EncapsulatedContentInfo (EncapContentInfo sd) = Ok eci"
    and sis: "traverse marshal_SignerInfo (SignerInfos sd) = Ok sis"
    and bs: "bs = seq_tlv (int_tlv (sd_Version sd) @ set_tlv das @ eci @ marshal_raws 0 (Certificates sd)
         @ marshal_raws 1 (CRLs sd) @ set_tlv sis)"
    by (auto simp: marshal_SignedData_def outcome_simps)
  have "traverse marshal_SignerInfo (map norm_SignerInfo
      (sort_key (\<lambda>si. ok_bytes (marshal_SignerInfo si)) (SignerInfos sd))) = Ok (sort sis)"
    unfolding traverse_map
    by (rule traverse_cong_Ok [OF traverse_sort [OF sis]]) (rule marshal_norm_SignerInfo)
  then show ?thesis
    using traverse_sort [OF das] eci
    by (simp add: marshal_SignedData_def norm_SignedData_def traverse_map bs set_tlv_def)
qed

subsection \<open>Properties: parsing\<close>

text \<open>
  C5: A SignedData that is written with \<open>ContentInfoDER\<close> comes back from \<open>ParseContentInfo\<close> and
  \<open>SignedDataContent\<close>, field by field, with its raw values filled in and its SET OF members in DER
  order, and writing it again gives the same bytes.  Bytes after the message are ignored.
\<close>

theorem SignedData_roundtrip:
  assumes "ContentInfoDER sd = Ok bs" and "wf_SignedData sd" and "der_SignedData sd"
    and "length bs < 2 ^ 31"
  shows "obind (ParseContentInfo (bs @ junk)) SignedDataContent = Ok (norm_SignedData sd) \<and>
    ContentInfoDER (norm_SignedData sd) = Ok bs"
  using ContentInfoDER_parse [OF assms, of junk] assms(1) marshal_norm_SignedData [of sd]
  by (auto simp: ContentInfoDER_def SignedData_ContentInfo_def outcome_simps)

definition example_data :: SignedData where
  "example_data = NewSignedData (NewDataEncapsulatedContentInfo [104, 105])"

lemma example_data_wf: "wf_SignedData example_data"
  by (simp add: example_data_def NewSignedData_def NewDataEncapsulatedContentInfo_def
      NewEncapsulatedContentInfo_def IsTypeData_def wf_SignedData_def int_octets_small
      wf_EncapsulatedContentInfo_def wf_oid_ContentTypeSignedData marshal_explicit0 marshal_raw_fresh
      tlv_def appendTagAndLength_def length_octets_def)

lemma example_data_der: "der_SignedData example_data"
proof -
  have "is_der (octets_tlv [104, 105])" unfolding octets_tlv_def by (rule is_der_primitive) simp_all
  then have "is_der (tlv 2 0 True (octets_tlv [104, 105]))" by (intro is_der_constructed is_der_ders)
  then show ?thesis
    by (simp add: example_data_def NewSignedData_def NewDataEncapsulatedContentInfo_def
        NewEncapsulatedContentInfo_def IsTypeData_def der_SignedData_def der_opt_def marshal_raw_fresh
        octets_tlv_def)
qed

lemma oid_tlv_content_types:
  "oid_tlv ContentTypeSignedData = Ok [6, 9, 42, 134, 72, 134, 247, 13, 1, 7, 2]"
  "oid_tlv ContentTypeData = Ok [6, 9, 42, 134, 72, 134, 247, 13, 1, 7, 1]"
  by (simp_all add: oid_tlv_def makeObjectIdentifier_def oid_defs appendBase128Int_def
      base128_hi.simps tlv_def appendTagAndLength_def length_octets_def octet_def)

lemma example_data_encoding: "\<exists>bs. ContentInfoDER example_data = Ok bs \<and> length bs < 2 ^ 31"
  by (simp add: example_data_def NewSignedData_def NewDataEncapsulatedContentInfo_def
      NewEncapsulatedContentInfo_def IsTypeData_def ContentInfoDER_def SignedData_ContentInfo_def
      marshal_SignedData_def marshal_EncapsulatedContentInfo_def marshal_ContentInfo_def
      oid_tlv_content_types marshal_raw_fresh optional_raw_def nil_raw_def marshal_raws_def int_tlv_def
      int_octets_small seq_tlv_def set_tlv_def set_body_def tlv_def appendTagAndLength_def
      length_octets_def)

theorem SignedData_roundtrip_witness:
  "\<exists>bs. ContentInfoDER example_data = Ok bs \<and>
    obind (ParseContentInfo (bs @ [0xFF])) SignedDataContent = Ok (norm_SignedData example_data)"
proof -
  obtain bs where "ContentInfoDER example_data = Ok bs" "length bs < 2 ^ 31"
    using example_data_encoding by blast
  then show ?thesis
    using SignedData_roundtrip [OF _ example_data_wf example_data_der, of bs "[0xFF]"] by blast
qed

text \<open>Go's own parser never returns the package's \<open>ASN1Error\<close>.\<close>

lemma parseTagAndLength_no_ASN1Error [simp]: "parseTagAndLength bs \<noteq> Err (ASN1Error m)"
proof -
  have loop: "parseBase128Int_loop s a xs \<noteq> Err (ASN1Error m)" for s a xs
    by (induction s a xs rule: parseBase128Int_loop.induct) (auto simp: Let_def)
  have octs: "parse_length_octets k l xs \<noteq> Err (ASN1Error m)" for k l xs
    by (induction k l xs rule: parse_length_octets.induct) (auto simp: Let_def)
  have "parse_length xs \<noteq> Err (ASN1Error m)" for xs
    by (cases xs) (auto simp: outcome_simps octs split: prod.splits)
  then show ?thesis
    by (cases bs) (auto simp: outcome_simps loop parseBase128Int_def split: prod.splits)
qed

lemma parseObjectIdentifier_no_ASN1Error [simp]: "parseObjectIdentifier bs \<noteq> Err (ASN1Error m)"
proof -
  have base: "parseBase128Int xs \<noteq> Err (ASN1Error m)" for xs
  proof -
    have "parseBase128Int_loop s a xs \<noteq> Err (ASN1Error m)" for s a
      by (induction s a xs rule: parseBase128Int_loop.induct) (auto simp: Let_def)
    then show ?thesis by (simp add: parseBase128Int_def)
  qed
  have "parse_arcs xs \<noteq> Err (ASN1Error m)" for xs
  proof (induction xs rule: parse_arcs.induct)
    case (1 xs)
    then show ?case
      by (subst parse_arcs.simps) (auto simp: outcome_simps base split: prod.splits)
  qed
  then show ?thesis by (auto simp: parseObjectIdentifier_def outcome_simps base split: prod.splits)
qed

lemma field_no_ASN1Error:
  assumes "\<And>rv. dec rv \<noteq> Err (ASN1Error m)"
  shows "field p k dec z bs \<noteq> Err (ASN1Error m)"
proof -
  have "take_element xs t ys \<noteq> Err (ASN1Error m)" for xs t ys
    by (simp add: take_element_def Let_def)
  moreover have "strip_explicit p k t ys \<noteq> Err (ASN1Error m)" for t ys
    by (auto simp: strip_explicit_def outcome_simps)
  ultimately have "parseField p k bs \<noteq> Err (ASN1Error m)"
    by (auto simp: parseField_def absent_def outcome_simps split: prod.splits option.splits)
  then show ?thesis
    using assms by (auto simp: field_def outcome_simps split: prod.splits option.splits)
qed

lemma parse_ContentInfo_no_ASN1Error:
  "struct_field plain parse_ContentInfo_body z bs \<noteq> Err (ASN1Error m)"
proof -
  have "oid_field plain xs \<noteq> Err (ASN1Error m)" for xs
    by (rule field_no_ASN1Error) (simp add: contents_def)
  moreover have "raw_field explicit0 xs \<noteq> Err (ASN1Error m)" for xs
    by (rule field_no_ASN1Error) simp
  ultimately show ?thesis
    unfolding struct_field_def
    by (intro field_no_ASN1Error)
      (auto simp: contents_def parse_ContentInfo_body_def outcome_simps split: prod.splits)
qed

lemma struct_field_plain_tag:
  assumes "struct_field plain parse z bs = Ok (v, rest)"
  obtains body where "bs = seq_tlv body @ rest" "length body < 2 ^ 31" "parse body = Ok v"
proof -
  obtain rv where rv: "parseField plain SeqKind bs = Ok (Some rv, rest)" "contents parse rv = Ok v"
  proof -
    from assms obtain r where "parseField plain SeqKind bs = Ok (r, rest)"
        "(case r of None \<Rightarrow> Ok (z, rest) | Some rv \<Rightarrow> obind (contents parse rv) (\<lambda>v. Ok (v, rest))) = Ok (v, rest)"
      by (auto simp: struct_field_def field_def outcome_simps split: option.splits)
    then show ?thesis
      using that parseField_missing(2) [of plain SeqKind bs rest]
      by (cases r) (auto simp: outcome_simps)
  qed
  obtain c t cpd body where el: "bs = tlv c t cpd body @ rest" "rv = raw_of c t cpd body" "wf_tlv c t body"
      "tags_match plain SeqKind \<lparr>tl_class = c, tl_tag = t, tl_length = length body, tl_compound = cpd\<rparr>"
    by (rule parseField_present [OF rv(1)]) auto
  then show ?thesis
    using that [of body] rv(2)
    by (simp add: tags_match_def universal_tag_def seq_tlv_def contents_def wf_tlv_def)
qed

text \<open>
  \<open>ParseContentInfo\<close> never reports trailing data: \<open>BER2DER\<close> has already dropped whatever follows
  the first element, so the check behind \<open>asn1.Unmarshal\<close> cannot fire and a message with bytes appended
  to it parses as the message itself.
\<close>

theorem ParseContentInfo_ignores_trailing:
  assumes "ber_encodes bs obj" and "length (der obj) < 2 ^ 31"
  shows "ParseContentInfo (bs @ junk) = ParseContentInfo bs \<and>
    ParseContentInfo (bs @ junk) \<noteq> Err ErrTrailingData"
proof -
  have "small_object obj" by (rule small_object_der [OF ber_encodes_wf_object [OF assms(1)]]) (use assms(2) in simp)
  then have der: "BER2DER (bs @ more) = Ok (der obj)" for more
    using assms by (intro BER2DER_of_encoding) simp_all
  have "rest = []" if parse: "struct_field plain parse_ContentInfo_body nil_ContentInfo (der obj) = Ok (v, rest)" for v rest
  proof -
    obtain body where "der obj = seq_tlv body @ rest" "length body < 2 ^ 31"
      using struct_field_plain_tag [OF parse] .
    then have "unmarshal_raw (der obj) = Ok (raw_of 0 16 True body, rest)"
      by (simp add: seq_tlv_def wf_tlv_def)
    then show ?thesis by (rule ber.unmarshal_raw_all [OF der [of "[]"] assms(2)])
  qed
  then show ?thesis
    using der [of junk] der [of "[]"]
    by (auto simp: ParseContentInfo_def no_trailing_def outcome_simps parse_ContentInfo_no_ASN1Error)
qed

lemma ber_encodes_octets_1: "ber_encodes ([4] @ [octet 1] @ [7]) (asn1Primitive [4] 1 [7])"
  using primitive [of "[4]" "[octet 1]" "[7]"]
  by (simp add: wf_tag_def ber_length_def)

theorem ParseContentInfo_ignores_trailing_witness:
  "ParseContentInfo ([4, octet 1, 7] @ [1, 2, 3]) = ParseContentInfo [4, octet 1, 7]"
  using ParseContentInfo_ignores_trailing [OF ber_encodes_octets_1, of "[1, 2, 3]"]
  by (simp add: length_octets_def)

subsection \<open>Properties: the encapsulated content\<close>

lemma join_octets_concat:
  assumes "\<forall>chunk \<in> set chunks. length chunk < 2 ^ 31"
  shows "join_octets acc (concat (map octets_tlv chunks)) = Ok (go_append acc (concat chunks))"
  using assms
proof (induction chunks arbitrary: acc)
  case Nil
  show ?case by (simp add: join_octets.simps go_append_def)
next
  case (Cons chunk chunks)
  have "join_octets acc (octets_tlv chunk @ concat (map octets_tlv chunks))
      = join_octets (go_append acc chunk) (concat (map octets_tlv chunks))"
    using Cons.prems by (subst join_octets.simps) (simp add: octets_tlv_def wf_tlv_def)
  also have "\<dots> = Ok (go_append (go_append acc chunk) (concat chunks))"
    using Cons by simp
  also have "go_append (go_append acc chunk) (concat chunks) = go_append acc (chunk @ concat chunks)"
    by (simp add: go_append_def)
  finally show ?case by simp
qed

lemma length_octets_tlv_le: "length chunk < length (octets_tlv chunk)"
  unfolding octets_tlv_def by (rule length_tlv_less)

text \<open>
  The content that goes into a new EncapsulatedContentInfo is the content that comes out, and a
  constructed OCTET STRING gives the concatenation of its pieces.  The content is lost, though, when
  it is empty and constructed: the result is then the nil slice that stands for a detached signature.
\<close>

theorem EContentValue_contents:
  assumes "length (octets_tlv data) < 2 ^ 31" and "length (concat (map octets_tlv chunks)) < 2 ^ 31"
  shows "EContentValue (NewEncapsulatedContentInfo contentType data) = Ok (Some data) \<and>
    EContentValue \<lparr>EContentType = contentType,
        EContent = raw_of 2 0 True (tlv 0 4 True (concat (map octets_tlv chunks)))\<rparr>
      = Ok (if concat chunks = [] then None else Some (concat chunks))"
proof -
  have data: "length data < 2 ^ 31" using assms(1) by (rule length_parts)
  have "length chunk < 2 ^ 31" if "chunk \<in> set chunks" for chunk
  proof -
    have "length (octets_tlv chunk) \<le> length (concat (map octets_tlv chunks))"
      using that by (intro length_concat_member) simp
    then show ?thesis using assms(2) length_octets_tlv_le [of chunk] by linarith
  qed
  then have "join_octets None (concat (map octets_tlv chunks)) = Ok (go_append None (concat chunks))"
    by (intro join_octets_concat) blast
  moreover have "unmarshal_raw (tlv 0 4 True (concat (map octets_tlv chunks)))
      = Ok (raw_of 0 4 True (concat (map octets_tlv chunks)), [])"
    using unmarshal_raw_tlv [of 0 4 "concat (map octets_tlv chunks)" True "[]"] assms(2)
    by (simp add: wf_tlv_def)
  ultimately have "EContentValue \<lparr>EContentType = contentType,
      EContent = raw_of 2 0 True (tlv 0 4 True (concat (map octets_tlv chunks)))\<rparr>
      = Ok (if concat chunks = [] then None else Some (concat chunks))"
    by (simp add: EContentValue_def no_trailing_def go_append_None)
  moreover have "unmarshal_raw (tlv 0 4 False data) = Ok (raw_of 0 4 False data, [])"
    using unmarshal_raw_tlv [of 0 4 data False "[]"] data by (simp add: wf_tlv_def)
  then have "EContentValue (NewEncapsulatedContentInfo contentType data) = Ok (Some data)"
    by (simp add: EContentValue_def NewEncapsulatedContentInfo_def marshal_raw_fresh no_trailing_def)
  ultimately show ?thesis by blast
qed

theorem EContentValue_contents_witness:
  "EContentValue \<lparr>EContentType = ContentTypeData,
      EContent = raw_of 2 0 True (tlv 0 4 True (octets_tlv [1] @ octets_tlv [2, 3]))\<rparr> = Ok (Some [1, 2, 3]) \<and>
   EContentValue \<lparr>EContentType = ContentTypeData, EContent = raw_of 2 0 True (tlv 0 4 True [])\<rparr> = Ok None"
  using EContentValue_contents [of "[]" "[[1], [2, 3]]" ContentTypeData]
    EContentValue_contents [of "[]" "[]" ContentTypeData]
  by (simp add: octets_tlv_def tlv_def appendTagAndLength_def length_octets_def)

subsection \<open>Properties: attributes\<close>

lemma GetOnlyAttributeValueBytes_Ok_iff:
  "GetOnlyAttributeValueBytes attrs oid = Ok rv \<longleftrightarrow>
     (\<exists>a. filter (\<lambda>a. attr_Type a = oid) (elems attrs) = [a] \<and>
        DecodeAnySet (attr_RawValue a) = Ok \<lparr>Elements = Some [rv]\<rparr>)"
proof (cases attrs)
  case None
  then show ?thesis by (simp add: GetOnlyAttributeValueBytes_def GetValues_def)
next
  case (Some as)
  have one: "(case elems (Elements v) of [rv] \<Rightarrow> Ok rv | _ \<Rightarrow> Err e) = Ok rv \<longleftrightarrow> v = \<lparr>Elements = Some [rv]\<rparr>" for v e
    by (cases v; cases "Elements v") (auto split: list.splits)
  show ?thesis
  proof (cases "filter (\<lambda>a. attr_Type a = oid) as")
    case Nil
    then show ?thesis using Some by (simp add: GetOnlyAttributeValueBytes_def GetValues_def)
  next
    case (Cons a rest)
    show ?thesis
    proof (cases rest)
      case Nil
      then show ?thesis
        using Some Cons
        by (cases "DecodeAnySet (attr_RawValue a)")
          (simp_all add: GetOnlyAttributeValueBytes_def GetValues_def Attribute_Value_def one)
    next
      case more: (Cons b bs)
      have "GetOnlyAttributeValueBytes attrs oid \<noteq> Ok rv"
        using Some Cons more traverse_Ok_length [of Attribute_Value "a # b # bs"]
        by (auto simp: GetOnlyAttributeValueBytes_def GetValues_def outcome_simps split: list.splits)
      then show ?thesis using Some Cons more by simp
    qed
  qed
qed

text \<open>
  \<open>GetOnlyAttributeValueBytes\<close> returns a value exactly when there is one attribute of the type
  asked for and its value is a SET with that one element: a second attribute of the same type, or a
  second value in it, is never passed over.
\<close>

theorem GetOnlyAttributeValueBytes_unique:
  "GetOnlyAttributeValueBytes attrs oid = Ok rv \<longleftrightarrow>
     (\<exists>a. filter (\<lambda>a. attr_Type a = oid) (elems attrs) = [a] \<and>
        DecodeAnySet (attr_RawValue a) = Ok \<lparr>Elements = Some [rv]\<rparr>)"
  by (rule GetOnlyAttributeValueBytes_Ok_iff)

text \<open>A new attribute holds the value it was made for.\<close>

definition short_tlv :: "bytes \<Rightarrow> bool" where
  "short_tlv bs \<longleftrightarrow> (\<exists>c t k body. bs = tlv c t k body \<and> c < 4 \<and> t < 31)"

lemma short_tlv_tlv [simp]: "c < 4 \<Longrightarrow> t < 31 \<Longrightarrow> short_tlv (tlv c t k body)"
  by (auto simp: short_tlv_def)

lemma marshal_value_tlv:
  assumes "marshal_value val = Ok enc" "length enc < 2 ^ 31"
  obtains c t k body where "enc = tlv c t k body" "wf_tlv c t body"
proof -
  have "short_tlv enc"
    using assms(1)
    by (cases val)
      (auto simp: marshal_time_def octets_tlv_def oid_tlv_def marshal_ContentInfo_def seq_tlv_def
        outcome_simps split: if_splits)
  then obtain c t k body where *: "enc = tlv c t k body" "c < 4" "t < 31" by (auto simp: short_tlv_def)
  then have "length body < 2 ^ 31" using assms(2) length_parts(3) by metis
  then show ?thesis using that * by (simp add: wf_tlv_def)
qed

lemma NewAttribute_Ok:
  assumes "marshal_value val = Ok enc" "length enc < 2 ^ 31"
  obtains c t k body where "enc = tlv c t k body" "wf_tlv c t body"
    "NewAttribute typ val = Ok \<lparr>attr_Type = typ, attr_RawValue = raw_of 0 17 True enc\<rparr>"
proof -
  obtain c t k body where enc: "enc = tlv c t k body" "wf_tlv c t body"
    using marshal_value_tlv [OF assms] .
  then have "unmarshal_raw enc = Ok (raw_of c t k body, [])"
    using unmarshal_raw_tlv [of c t body k "[]"] by simp
  moreover have "AnySet_Encode (NewAnySet (Some [raw_of c t k body])) nil_raw = raw_of 0 17 True enc"
    by (simp add: NewAnySet_def AnySet_Encode_def nil_raw_def Let_def go_append_def marshal_raw_fresh enc)
  ultimately have "NewAttribute typ val = Ok \<lparr>attr_Type = typ, attr_RawValue = raw_of 0 17 True enc\<rparr>"
    using assms(1) by (simp add: NewAttribute_def)
  then show ?thesis using that enc by blast
qed

lemma DecodeAnySet_single:
  assumes "wf_tlv c t body"
  shows "DecodeAnySet (raw_of 0 17 True (tlv c t k body)) = Ok \<lparr>Elements = Some [raw_of c t k body]\<rparr>"
  using assms by (simp add: DecodeAnySet_Ok_iff decoded_raw_raw_of)

subsection \<open>Properties: the bytes that are signed\<close>

lemma tlv_16_17: "0x31 # tl (tlv 0 16 True body) = tlv 0 17 True body"
  by (simp add: tlv_def appendTagAndLength_def octet_def)

lemma Marshaled_Ok:
  assumes "traverse marshal_Attribute (elems attrs) = Ok encs" and "length (set_tlv encs) < 2 ^ 31"
  shows "MarshaledForSigning attrs = Ok (tlv 0 17 True (concat (sort encs)))"
    and "MarshaledForVerification attrs = Ok (tlv 0 17 True (concat encs))"
proof -
  have "unmarshal_raw (seq_tlv (set_tlv encs)) = Ok (raw_of 0 16 True (set_tlv encs), [])"
    using assms(2) unmarshal_raw_tlv [of 0 16 "set_tlv encs" True "[]"] by (simp add: seq_tlv_def wf_tlv_def)
  then show "MarshaledForSigning attrs = Ok (tlv 0 17 True (concat (sort encs)))"
    using assms(1) by (simp add: MarshaledForSigning_def set_tlv_def set_body_def)
  have "length (seq_tlv (concat encs)) = length (set_tlv encs)"
    by (simp add: seq_tlv_def set_tlv_def tlv_def appendTagAndLength_def)
  then have "unmarshal_raw (seq_tlv (seq_tlv (concat encs))) = Ok (raw_of 0 16 True (seq_tlv (concat encs)), [])"
    using assms(2) unmarshal_raw_tlv [of 0 16 "seq_tlv (concat encs)" True "[]"]
    by (simp add: seq_tlv_def wf_tlv_def)
  moreover obtain b bs where "seq_tlv (concat encs) = b # bs"
    by (cases "seq_tlv (concat encs)") (simp_all add: seq_tlv_def)
  moreover then have "0x31 # bs = tlv 0 17 True (concat encs)"
    using tlv_16_17 [of "concat encs"] by (simp add: seq_tlv_def)
  ultimately show "MarshaledForVerification attrs = Ok (tlv 0 17 True (concat encs))"
    using assms(1) by (simp add: MarshaledForVerification_def)
qed

text \<open>
  The bytes that are signed are the DER encoding of the attributes as a SET OF, whatever the order
  of the slice; the bytes that are verified are the SET with the order of the slice.  The two agree
  exactly for attributes whose encodings are in DER order, as far as the bytes tell.
\<close>

theorem Marshaled_agree:
  assumes "traverse marshal_Attribute as = Ok encs" and "length (set_tlv encs) < 2 ^ 31"
  shows "MarshaledForSigning (Some as) = Ok (tlv 0 17 True (concat (sort encs))) \<and>
    MarshaledForVerification (Some as) = Ok (tlv 0 17 True (concat encs)) \<and>
    (MarshaledForVerification (Some as) = MarshaledForSigning (Some as) \<longleftrightarrow> concat encs = concat (sort encs))"
  using Marshaled_Ok [of "Some as" encs] assms
  using length_set_body [of encs]
  by (simp add: tlv_def appendTagAndLength_def set_body_def)

theorem Marshaled_agree_witness:
  "MarshaledForSigning (Some [\<lparr>attr_Type = [1, 2], attr_RawValue = raw_of 0 17 True []\<rparr>])
   = Ok (tlv 0 17 True (seq_tlv [6, 1, 42, 49, 0]))"
proof -
  have "traverse marshal_Attribute [\<lparr>attr_Type = [1, 2], attr_RawValue = raw_of 0 17 True []\<rparr>]
      = Ok [seq_tlv [6, 1, 42, 49, 0]]"
    by (simp add: marshal_Attribute_def oid_tlv_def makeObjectIdentifier_def appendBase128Int_def
        base128_hi.simps tlv_def appendTagAndLength_def length_octets_def octet_def)
  moreover have "length (set_tlv [seq_tlv [6, 1, 42, 49, 0]]) < 2 ^ 31"
    by (simp add: set_tlv_def set_body_def seq_tlv_def tlv_def appendTagAndLength_def length_octets_def)
  ultimately show ?thesis using Marshaled_agree by fastforce
qed

text \<open>The three attributes of a new signature, by the sizes of their values.\<close>

lemma octet_less: "a < b \<Longrightarrow> b < 256 \<Longrightarrow> octet a < octet b"
  by (simp add: byte_less_iff)

lemma short_set: "length body < 128 \<Longrightarrow> tlv 0 17 True body = octet 49 # octet (length body) # body"
  by (simp add: tlv_def appendTagAndLength_def length_octets_def)

lemma short_seq: "length body < 128 \<Longrightarrow> seq_tlv body = octet 48 # octet (length body) # body"
  by (simp add: seq_tlv_def tlv_def appendTagAndLength_def length_octets_def)

definition attribute_oid :: "nat \<Rightarrow> bytes" where
  "attribute_oid n = [6, 9, 42, 134, 72, 134, 247, 13, 1, 9, octet n]"

lemma oid_tlv_attributes:
  "oid_tlv AttributeContentType = Ok (attribute_oid 3)"
  "oid_tlv AttributeMessageDigest = Ok (attribute_oid 4)"
  "oid_tlv AttributeSigningTime = Ok (attribute_oid 5)"
  by (simp_all add: oid_tlv_def makeObjectIdentifier_def oid_defs appendBase128Int_def attribute_oid_def
      base128_hi.simps tlv_def appendTagAndLength_def length_octets_def octet_def)

lemma length_appendUTCTime:
  assumes "appendUTCTime t = Ok bs" "t_offset t = 0"
  shows "length bs = 13"
  using assms by (auto simp: appendUTCTime_def appendTimeCommon_def two_digits_def split: if_splits)

definition utc_now :: "go_time \<Rightarrow> bool" where
  "utc_now t \<longleftrightarrow> 1950 \<le> t_year t \<and> t_year t < 2050 \<and> t_offset t = 0"

lemma marshal_utc_now:
  assumes "utc_now t"
  obtains bs where "marshal_time t = Ok (tlv 0 23 False bs)" "appendUTCTime t = Ok bs" "length bs = 13"
proof -
  have "\<exists>bs. appendUTCTime t = Ok bs" using assms by (auto simp: utc_now_def appendUTCTime_def)
  then show ?thesis
    using that length_appendUTCTime [of t] assms
    by (auto simp: utc_now_def marshal_time_def outsideUTCRange_def)
qed

definition the_attribute :: "oid \<Rightarrow> bytes \<Rightarrow> Attribute" where
  "the_attribute typ enc = \<lparr>attr_Type = typ, attr_RawValue = raw_of 0 17 True enc\<rparr>"

lemma new_attributes:
  assumes now: "utc_now now" and ct: "oid_tlv contentType = Ok ct" "length ct < 100"
    and md: "length digest < 98"
  obtains bs where "appendUTCTime now = Ok bs" "length bs = 13" "length (tlv 0 23 False bs) = 15"
    "NewAttribute AttributeSigningTime (TimeValue now) = Ok (the_attribute AttributeSigningTime (tlv 0 23 False bs))"
    "NewAttribute AttributeMessageDigest (OctetsValue digest) = Ok (the_attribute AttributeMessageDigest (octets_tlv digest))"
    "NewAttribute AttributeContentType (OidValue contentType) = Ok (the_attribute AttributeContentType ct)"
proof -
  obtain bs where bs: "marshal_time now = Ok (tlv 0 23 False bs)" "length bs = 13" "appendUTCTime now = Ok bs"
    using marshal_utc_now [OF now] .
  let ?st = "tlv 0 23 False bs"
  have len: "length ?st = 15" "length (octets_tlv digest) = 2 + length digest"
    using bs(2) md by (simp_all add: octets_tlv_def tlv_def appendTagAndLength_def length_octets_def)
  have "NewAttribute AttributeSigningTime (TimeValue now) = Ok (the_attribute AttributeSigningTime ?st)"
    by (rule NewAttribute_Ok [of "TimeValue now" ?st]) (use bs len in \<open>simp_all add: the_attribute_def\<close>)
  moreover have "NewAttribute AttributeMessageDigest (OctetsValue digest)
      = Ok (the_attribute AttributeMessageDigest (octets_tlv digest))"
    by (rule NewAttribute_Ok [of "OctetsValue digest" "octets_tlv digest"])
      (use len md in \<open>simp_all add: the_attribute_def\<close>)
  moreover have "NewAttribute AttributeContentType (OidValue contentType) = Ok (the_attribute AttributeContentType ct)"
    by (rule NewAttribute_Ok [of "OidValue contentType" ct]) (use ct in \<open>simp_all add: the_attribute_def\<close>)
  ultimately show ?thesis using that bs(2,3) len(1) by blast
qed

lemma marshal_the_attribute:
  assumes "oid_tlv typ = Ok (attribute_oid n)" "length enc < 114"
  shows "marshal_Attribute (the_attribute typ enc)
    = Ok (octet 48 # octet (13 + length enc) # attribute_oid n @ octet 49 # octet (length enc) # enc)"
  using assms
  by (simp add: marshal_Attribute_def the_attribute_def short_seq short_set attribute_oid_def)
    (simp add: eval_nat_numeral)

lemma FullBytes_the_attribute:
  "length enc < 128 \<Longrightarrow>
   elems (rv_FullBytes (attr_RawValue (the_attribute typ enc))) = octet 49 # octet (length enc) # enc"
  by (simp add: the_attribute_def short_set)

lemma sort3:
  fixes f :: "'a \<Rightarrow> 'b :: linorder"
  assumes "f c < f a" "f a < f b"
  shows "sort_key f [a, b, c] = [c, a, b]"
  using assms by (simp add: less_le_not_le) (meson order.strict_trans less_le_not_le)

lemma sort3':
  fixes f :: "'a \<Rightarrow> 'b :: linorder"
  assumes "f a < f b" "f b < f c"
  shows "sort_key f [a, b, c] = [a, b, c]"
  using assms by (simp add: less_le_not_le)

lemma set_tlv_small:
  assumes "length (concat encs) < 500"
  shows "length (set_tlv encs) < 2 ^ 31"
proof -
  have "length (be_bytes (length (concat encs))) \<le> 2" using assms by (intro length_be_bytes_le) simp_all
  then have "length (length_octets (length (concat encs))) \<le> 3" by (simp add: length_octets_def)
  then show ?thesis using assms by (simp add: set_tlv_def tlv_def appendTagAndLength_def)
qed

lemmas marshal_attributes = marshal_the_attribute [OF oid_tlv_attributes(1)]
  marshal_the_attribute [OF oid_tlv_attributes(2)] marshal_the_attribute [OF oid_tlv_attributes(3)]

text \<open>With a short content type the values are in the order content type, time, digest, both by value and
  by encoding.\<close>

lemma new_SignedAttrs_sorted:
  assumes "utc_now now" and "oid_tlv contentType = Ok ct" and "length ct < 15"
    and "14 \<le> length (hash_sum c hash content)" and "length (hash_sum c hash content) < 98"
  obtains bs sm attrs where "appendUTCTime now = Ok bs" "length bs = 13"
    "attrs = [the_attribute AttributeContentType ct, the_attribute AttributeSigningTime (tlv 0 23 False bs),
      the_attribute AttributeMessageDigest (octets_tlv (hash_sum c hash content))]"
    "new_SignedAttrs c now hash contentType content = Ok attrs"
    "MarshaledForSigning (Some attrs) = Ok sm" "MarshaledForVerification (Some attrs) = Ok sm"
proof -
  let ?d = "hash_sum c hash content"
  obtain bs where bs: "appendUTCTime now = Ok bs" "length bs = 13" and st: "length (tlv 0 23 False bs) = 15"
    "NewAttribute AttributeSigningTime (TimeValue now) = Ok (the_attribute AttributeSigningTime (tlv 0 23 False bs))"
    "NewAttribute AttributeMessageDigest (OctetsValue ?d) = Ok (the_attribute AttributeMessageDigest (octets_tlv ?d))"
    "NewAttribute AttributeContentType (OidValue contentType) = Ok (the_attribute AttributeContentType ct)"
    by (rule new_attributes [OF assms(1,2) _ assms(5)]) (use assms(3) in auto)
  define attrs where "attrs = [the_attribute AttributeContentType ct, the_attribute AttributeSigningTime (tlv 0 23 False bs),
    the_attribute AttributeMessageDigest (octets_tlv ?d)]"
  have md: "length (octets_tlv ?d) = 2 + length ?d"
    using assms(5) by (simp add: octets_tlv_def tlv_def appendTagAndLength_def length_octets_def)
  have new: "new_SignedAttrs c now hash contentType content = Ok attrs"
  proof -
    have "sortAttributes [the_attribute AttributeSigningTime (tlv 0 23 False bs), the_attribute AttributeMessageDigest (octets_tlv ?d),
        the_attribute AttributeContentType ct] = attrs"
      unfolding sortAttributes_def attrs_def
      by (rule sort3) (use assms(3-5) st(1) md in \<open>simp_all add: FullBytes_the_attribute octet_less\<close>)
    then show ?thesis by (simp add: new_SignedAttrs_def st)
  qed
  define encs where "encs = map (\<lambda>a. ok_bytes (marshal_Attribute a)) attrs"
  have enc: "traverse marshal_Attribute attrs = Ok encs"
    unfolding encs_def
    by (rule traverse_map_Ok) (use assms(3,5) st(1) md in
      \<open>auto simp: attrs_def marshal_attributes\<close>)
  have "sort_key (\<lambda>x. x) encs = encs"
    unfolding encs_def attrs_def list.map
    by (rule sort3') (use assms(3-5) st(1) md in
      \<open>simp_all add: octet_less marshal_attributes\<close>)
  moreover have "length (set_tlv encs) < 2 ^ 31"
  proof -
    have "length (concat encs) < 500"
      using assms(3,5) st(1) md
      by (simp add: encs_def attrs_def marshal_attributes attribute_oid_def)
    then show ?thesis by (rule set_tlv_small)
  qed
  ultimately have "MarshaledForSigning (Some attrs) = Ok (tlv 0 17 True (concat encs))"
    "MarshaledForVerification (Some attrs) = Ok (tlv 0 17 True (concat encs))"
    using Marshaled_Ok [of "Some attrs" encs] enc by simp_all
  then show ?thesis using that [OF bs attrs_def new] by blast
qed

text \<open>
  C14: For a content type whose encoding is shorter than that of the time (id-data among them), a digest of
  14 to 97 octets (so that the attribute's length takes one octet) and a time of the years that UTCTime
  can express, the attributes of a new signature are content type, signing time, message digest, this is
  their DER order, and so the verifier rebuilds exactly the bytes that were signed.
\<close>

theorem signed_attributes_agree:
  assumes "utc_now now" and "oid_tlv contentType = Ok ct" and "length ct < 15"
    and "14 \<le> length (hash_sum c hash content)" and "length (hash_sum c hash content) < 98"
  shows "\<exists>attrs. new_SignedAttrs c now hash contentType content = Ok attrs \<and>
    map attr_Type attrs = [AttributeContentType, AttributeSigningTime, AttributeMessageDigest] \<and>
    MarshaledForVerification (Some attrs) = MarshaledForSigning (Some attrs) \<and>
    is_ok (MarshaledForSigning (Some attrs))"
  by (rule new_SignedAttrs_sorted [OF assms]) (simp add: the_attribute_def)

definition example_crypto :: crypto where
  "example_crypto = \<lparr>Available = (\<lambda>_. True), hash_sum = (\<lambda>_ _. replicate 32 7),
     MarshalPKIXPublicKey = (\<lambda>k. case k of RSAPublicKey b \<Rightarrow> Ok b | ECDSAPublicKey _ b \<Rightarrow> Ok b
       | _ \<Rightarrow> Err ErrUnsupportedKey),
     ParseCertificate = (\<lambda>_. Err ErrNoCertificate)\<rparr>"

theorem signed_attributes_agree_witness:
  "\<exists>attrs. new_SignedAttrs example_crypto (zero_time\<lparr>t_year := 2024\<rparr>) SHA256 ContentTypeData [1, 2] = Ok attrs \<and>
   MarshaledForVerification (Some attrs) = MarshaledForSigning (Some attrs)"
proof -
  have "utc_now (zero_time\<lparr>t_year := 2024\<rparr>)" by (simp add: utc_now_def zero_time_def)
  from signed_attributes_agree [OF this oid_tlv_content_types(2), of example_crypto SHA256 "[1, 2]"]
  show ?thesis by (auto simp: example_crypto_def)
qed

text \<open>
  C40: When the content type takes as many octets as the digest, \<open>sortAttributes\<close>, which compares
  values only, and the DER order of the whole attributes part ways: the attributes are stored in an
  order that differs from the one that was signed, and a verifier rebuilds other bytes.
\<close>

theorem signed_attributes_disagree:
  assumes "utc_now now" and "oid_tlv contentType = Ok ct" and "length ct = 34"
    and "length (hash_sum c hash content) = 32"
  shows "\<exists>attrs. new_SignedAttrs c now hash contentType content = Ok attrs \<and>
    MarshaledForVerification (Some attrs) \<noteq> MarshaledForSigning (Some attrs)"
proof -
  let ?d = "hash_sum c hash content"
  obtain bs where st: "length (tlv 0 23 False bs) = 15"
    "NewAttribute AttributeSigningTime (TimeValue now) = Ok (the_attribute AttributeSigningTime (tlv 0 23 False bs))"
    "NewAttribute AttributeMessageDigest (OctetsValue ?d) = Ok (the_attribute AttributeMessageDigest (octets_tlv ?d))"
    "NewAttribute AttributeContentType (OidValue contentType) = Ok (the_attribute AttributeContentType ct)"
    by (rule new_attributes [OF assms(1,2)]) (use assms(3,4) in auto)
  obtain os where ct: "ct = octet 6 # os"
    using assms(2) by (auto simp: oid_tlv_def outcome_simps tlv_def appendTagAndLength_def)
  obtain ds where md: "octets_tlv ?d = octet 4 # ds" "length (octets_tlv ?d) = 34"
    using assms(4) by (simp add: octets_tlv_def tlv_def appendTagAndLength_def length_octets_def)
  let ?st = "the_attribute AttributeSigningTime (tlv 0 23 False bs)"
  let ?md = "the_attribute AttributeMessageDigest (octets_tlv ?d)"
  let ?ct = "the_attribute AttributeContentType ct"
  have "sortAttributes [?st, ?md, ?ct] = [?st, ?md, ?ct]"
    unfolding sortAttributes_def
    by (rule sort3') (use assms(3) st(1) md in \<open>simp_all add: FullBytes_the_attribute octet_less ct\<close>)
  then have new: "new_SignedAttrs c now hash contentType content = Ok [?st, ?md, ?ct]"
    by (simp add: new_SignedAttrs_def st)
  define e_st e_md e_ct where "e_st = ok_bytes (marshal_Attribute ?st)"
    and "e_md = ok_bytes (marshal_Attribute ?md)" and "e_ct = ok_bytes (marshal_Attribute ?ct)"
  note e_defs = e_st_def e_md_def e_ct_def
  have enc: "traverse marshal_Attribute [?st, ?md, ?ct] = Ok [e_st, e_md, e_ct]"
    using assms(3) st(1) md(2) by (simp add: e_defs marshal_attributes)
  have less: "e_st < e_ct" "e_ct < e_md"
    using assms(3) st(1) md(2) by (simp_all add: e_defs marshal_attributes octet_less attribute_oid_def)
  then have "sort_key (\<lambda>x. x) [e_st, e_md, e_ct] = [e_st, e_ct, e_md]"
    by (simp add: less_le_not_le)
  then have sorted: "sort [e_st, e_md, e_ct] = [e_st, e_ct, e_md]" by simp
  have small: "length (set_tlv [e_st, e_md, e_ct]) < 2 ^ 31"
    by (rule set_tlv_small)
      (use assms(3) st(1) md(2) in \<open>simp add: e_defs marshal_attributes attribute_oid_def\<close>)
  have "length e_md = length e_ct"
    using assms(3) md(2) by (simp add: e_defs marshal_attributes attribute_oid_def)
  then have "e_md @ e_ct \<noteq> e_ct @ e_md" using less(2) by auto
  then have "concat [e_st, e_md, e_ct] \<noteq> concat (sort [e_st, e_md, e_ct])"
    unfolding sorted by simp
  then have "MarshaledForVerification (Some [?st, ?md, ?ct]) \<noteq> MarshaledForSigning (Some [?st, ?md, ?ct])"
    using Marshaled_Ok [of "Some [?st, ?md, ?ct]", OF _ small] enc
      length_set_body [of "[e_st, e_md, e_ct]"]
    by (simp add: tlv_def appendTagAndLength_def set_body_def del: sort_key_simps concat.simps)
  then show ?thesis using new by blast
qed

theorem signed_attributes_disagree_witness:
  "\<exists>attrs. new_SignedAttrs example_crypto (zero_time\<lparr>t_year := 2024\<rparr>) SHA256 ([1, 2] @ replicate 31 1) [1, 2] = Ok attrs \<and>
   MarshaledForVerification (Some attrs) \<noteq> MarshaledForSigning (Some attrs)"
proof -
  have "utc_now (zero_time\<lparr>t_year := 2024\<rparr>)" by (simp add: utc_now_def zero_time_def)
  moreover have "oid_tlv ([1, 2] @ replicate 31 1) = Ok (tlv 0 6 False (octet 42 # replicate 31 (octet 1)))"
  proof -
    have "concat (map appendBase128Int (replicate n 1)) = replicate n (octet 1)" for n
      by (induction n) (simp_all add: appendBase128Int_def)
    then show ?thesis
      by (simp add: oid_tlv_def makeObjectIdentifier_def del: One_nat_def) (simp add: appendBase128Int_def)
  qed
  ultimately show ?thesis
    by (rule signed_attributes_disagree)
      (simp_all add: tlv_def appendTagAndLength_def length_octets_def example_crypto_def)
qed

end
