(* ===== verification/Signing_Spec.thy ===== *)
theory Signing_Spec
  imports Protocol_Spec
begin

text \<open>
  Certificates and signatures of ietf-cms/protocol: what \<open>AddCertificate\<close>, \<open>FindCertificate\<close> and
  \<open>AddSignerInfo\<close> do to a SignedData, on success and on failure.
\<close>

subsection \<open>Certificates\<close>

text \<open>
  An encoded certificate is one SEQUENCE; its issuer is one element; its serial number fits.
\<close>

definition wf_certificate :: "certificate \<Rightarrow> bool" where
  "wf_certificate cert \<longleftrightarrow>
     (\<exists>body. Raw cert = seq_tlv body \<and> length body < 2 ^ 31) \<and>
     (\<exists>cl t k body. RawIssuer cert = tlv cl t k body \<and> wf_tlv cl t body) \<and>
     length (marshal_IssuerAndSerialNumber
       \<lparr>Issuer = \<lparr>rv_Class = 0, rv_Tag = 0, rv_IsCompound = False, rv_Bytes = None, rv_FullBytes = Some (RawIssuer cert)\<rparr>,
        SerialNumber = cert_SerialNumber cert\<rparr>) < 2 ^ 31"

definition raw_certificate :: "certificate \<Rightarrow> raw_value" where
  "raw_certificate cert = fst (case unmarshal_raw (Raw cert) of Ok x \<Rightarrow> x | _ \<Rightarrow> (nil_raw, []))"

lemma wf_certificate_Raw:
  assumes "wf_certificate cert"
  obtains body where "Raw cert = tlv 0 16 True body" "length body < 2 ^ 31"
    "unmarshal_raw (Raw cert) = Ok (raw_certificate cert, [])" "raw_certificate cert = raw_of 0 16 True body"
proof -
  from assms obtain body where b: "Raw cert = tlv 0 16 True body" "length body < 2 ^ 31"
    by (auto simp: wf_certificate_def seq_tlv_def)
  then have "unmarshal_raw (Raw cert) = Ok (raw_of 0 16 True body, [])"
    using unmarshal_raw_tlv [of 0 16 body True "[]"] by (simp add: wf_tlv_def)
  then show ?thesis using that b by (simp add: raw_certificate_def)
qed

lemma wf_certificate_Issuer:
  assumes "wf_certificate cert"
  obtains c t k body where "RawIssuer cert = tlv c t k body" "wf_tlv c t body"
    "length (seq_tlv (RawIssuer cert @ int_tlv (cert_SerialNumber cert))) < 2 ^ 31"
  using assms by (auto simp: wf_certificate_def marshal_IssuerAndSerialNumber_def marshal_raw_def)

lemma NewIssuerAndSerialNumber_Ok:
  assumes "wf_certificate cert"
  shows "NewIssuerAndSerialNumber cert
    = Ok (raw_of 0 16 True (RawIssuer cert @ int_tlv (cert_SerialNumber cert)))"
proof -
  obtain c t k body where i: "RawIssuer cert = tlv c t k body" "wf_tlv c t body"
    "length (seq_tlv (RawIssuer cert @ int_tlv (cert_SerialNumber cert))) < 2 ^ 31"
    by (rule wf_certificate_Issuer [OF assms])
  have "unmarshal_raw (RawIssuer cert) = Ok (raw_of c t k body, [])"
    using unmarshal_raw_tlv [of c t body k "[]"] i by simp
  moreover have "length (RawIssuer cert @ int_tlv (cert_SerialNumber cert)) < 2 ^ 31"
    using i(3) by (rule length_parts)
  then have "unmarshal_raw (seq_tlv (RawIssuer cert @ int_tlv (cert_SerialNumber cert)))
      = Ok (raw_of 0 16 True (RawIssuer cert @ int_tlv (cert_SerialNumber cert)), [])"
    using unmarshal_raw_tlv [of 0 16 _ True "[]"] by (simp add: seq_tlv_def wf_tlv_def)
  ultimately show ?thesis
    by (simp add: NewIssuerAndSerialNumber_def marshal_IssuerAndSerialNumber_def i(1))
qed

lemma issuerAndSerialNumberSID_new:
  assumes "wf_certificate cert"
    and "SID si = raw_of 0 16 True (RawIssuer cert @ int_tlv (cert_SerialNumber cert))"
  shows "\<exists>isn. issuerAndSerialNumberSID si = Ok isn \<and> elems (rv_FullBytes (Issuer isn)) = RawIssuer cert \<and>
    SerialNumber isn = cert_SerialNumber cert"
proof -
  obtain c t k body where i: "RawIssuer cert = tlv c t k body" "wf_tlv c t body"
    "length (seq_tlv (RawIssuer cert @ int_tlv (cert_SerialNumber cert))) < 2 ^ 31"
    by (rule wf_certificate_Issuer [OF assms(1)])
  have len: "length (RawIssuer cert @ int_tlv (cert_SerialNumber cert)) < 2 ^ 31"
    using i(3) by (rule length_parts)
  then have "length (int_tlv (cert_SerialNumber cert)) < 2 ^ 31" by simp
  then have "length (int_octets (cert_SerialNumber cert)) < 2 ^ 31" by (rule length_parts)
  then have parse: "parse_IssuerAndSerialNumber (RawIssuer cert @ int_tlv (cert_SerialNumber cert))
      = Ok \<lparr>Issuer = raw_of c t k body, SerialNumber = cert_SerialNumber cert\<rparr>"
    using i(2) big_int_field_tlv [of "cert_SerialNumber cert" "[]"]
    by (simp add: parse_IssuerAndSerialNumber_def i(1))
  have "issuerAndSerialNumberSID si = Ok \<lparr>Issuer = raw_of c t k body, SerialNumber = cert_SerialNumber cert\<rparr>"
    using struct_field_seq [OF len, of parse_IssuerAndSerialNumber nil_IssuerAndSerialNumber "[]"]
    unfolding seq_tlv_def by (simp add: issuerAndSerialNumberSID_def assms(2) parse no_trailing_def)
  then show ?thesis using i by simp
qed

lemma first_certificate_unique:
  assumes "cert \<in> set certs" "ok cert" "\<And>x. x \<in> set certs \<Longrightarrow> ok x \<Longrightarrow> x = cert"
  shows "first_certificate ok certs = Ok cert"
  using assms
proof (induction certs)
  case (Cons c certs)
  show ?case
  proof (cases "ok c")
    case True
    then have "c = cert" using Cons.prems(3) [of c] by simp
    then show ?thesis using True by simp
  next
    case False
    then have "cert \<in> set certs" using Cons.prems(1,2) by auto
    then have "first_certificate ok certs = Ok cert"
      using Cons.prems(2) by (rule Cons.IH) (rule Cons.prems(3), rule list.set_intros(2))
    then show ?thesis using False by simp
  qed
qed simp

text \<open>
  A signer identifier made by \<open>NewIssuerAndSerialNumber\<close> leads \<open>FindCertificate\<close> back to the
  certificate it was made for, among any certificates that issuer and serial number tell apart.
\<close>

theorem FindCertificate_issuer_serial:
  assumes "wf_certificate cert" and "NewIssuerAndSerialNumber cert = Ok sid" and "cert \<in> set certs"
    and "\<forall>x \<in> set certs. RawIssuer x = RawIssuer cert \<and> cert_SerialNumber x = cert_SerialNumber cert \<longrightarrow> x = cert"
  shows "FindCertificate (si\<lparr>Version := 1, SID := sid\<rparr>) certs = Ok cert"
proof -
  let ?si = "si\<lparr>Version := 1, SID := sid\<rparr>"
  have "sid = raw_of 0 16 True (RawIssuer cert @ int_tlv (cert_SerialNumber cert))"
    using NewIssuerAndSerialNumber_Ok [OF assms(1)] assms(2) by simp
  then obtain isn where "issuerAndSerialNumberSID ?si = Ok isn"
      "elems (rv_FullBytes (Issuer isn)) = RawIssuer cert" "SerialNumber isn = cert_SerialNumber cert"
    using issuerAndSerialNumberSID_new [OF assms(1), of ?si] by auto
  then show ?thesis
    using assms(3,4) by (auto simp: FindCertificate_def intro!: first_certificate_unique)
qed

definition example_certificate :: certificate where
  "example_certificate = \<lparr>Raw = [48, 0], RawIssuer = [48, 0], RawSubject = [48, 0], cert_SerialNumber = 5,
     PublicKeyAlgorithm = ECDSA, PublicKey = ECDSAPublicKey P384 [1], Extensions = [], NotBefore = 0, NotAfter = 9,
     EmailAddresses = [''a@b.c''], Subject_Names = [], cert_SignatureAlgorithm = ECDSAWithSHA256, IssuingCertificateURL = []\<rparr>"

lemma wf_example_certificate: "wf_certificate example_certificate"
proof -
  have e: "[48, 0] = seq_tlv []" "[48, 0] = tlv 0 16 True []"
    by (simp_all add: seq_tlv_def tlv_def appendTagAndLength_def length_octets_def octet_def)
  show ?thesis
    unfolding wf_certificate_def
  proof (intro conjI)
    show "\<exists>body. Raw example_certificate = seq_tlv body \<and> length body < 2 ^ 31"
      by (rule exI [of _ "[]"]) (simp add: example_certificate_def e(1))
    show "\<exists>cl t k body. RawIssuer example_certificate = tlv cl t k body \<and> wf_tlv cl t body"
      by (intro exI conjI) (simp add: example_certificate_def, rule e(2), simp add: wf_tlv_def)
  qed (simp add: example_certificate_def marshal_IssuerAndSerialNumber_def marshal_raw_def int_tlv_def
      int_octets_small seq_tlv_def tlv_def appendTagAndLength_def length_octets_def)
qed

theorem FindCertificate_issuer_serial_witness:
  "FindCertificate (nil_SignerInfo\<lparr>Version := 1, SID := raw_of 0 16 True ([48, 0] @ int_tlv 5)\<rparr>)
     [example_certificate\<lparr>cert_SerialNumber := 6\<rparr>, example_certificate] = Ok example_certificate"
  by (rule FindCertificate_issuer_serial [OF wf_example_certificate])
    (simp_all add: NewIssuerAndSerialNumber_Ok [OF wf_example_certificate], simp_all add: example_certificate_def)

text \<open>
  A version 3 signer identifier carries the key identifier itself, while an extension of a
  certificate carries its DER encoding, and \<open>FindCertificate\<close> compares the two: a certificate whose
  extension holds the very key identifier of the signer is never found.
\<close>

theorem FindCertificate_key_identifier:
  assumes "Extensions cert = [(ExtensionSubjectKeyIdentifier, octets_tlv ski)]"
    and "SID si = raw_of 2 0 k ski" and "Version si = 3"
  shows "FindCertificate si [cert] = Err ErrNoCertificate"
proof -
  have "ski \<noteq> octets_tlv ski" using length_octets_tlv_le [of ski] by auto
  then show ?thesis
    using assms by (simp add: FindCertificate_def subjectKeyIdentifierSID_def has_key_identifier_def)
qed

theorem FindCertificate_key_identifier_witness:
  "FindCertificate (nil_SignerInfo\<lparr>Version := 3, SID := raw_of 2 0 False [1, 2, 3]\<rparr>)
     [example_certificate\<lparr>Extensions := [(ExtensionSubjectKeyIdentifier, octets_tlv [1, 2, 3])]\<rparr>]
   = Err ErrNoCertificate"
  by (rule FindCertificate_key_identifier) simp_all

text \<open>
  \<open>AddCertificate\<close> compares the contents octets of what is there with the whole encoding of what is
  added, so a certificate that is already in the message is added a second time.
\<close>

theorem AddCertificate_duplicate:
  assumes "unmarshal_raw (Raw cert) = Ok (rv, [])" and "Certificates sd = Some [rv]"
  shows "AddCertificate cert sd = (sd\<lparr>Certificates := Some [rv, rv]\<rparr>, Ok ())"
proof -
  obtain c t k body where "Raw cert = tlv c t k body" "rv = raw_of c t k body"
    using unmarshal_raw_canonical [OF assms(1)] by (metis append_Nil2)
  then have "elems (rv_Bytes rv) \<noteq> Raw cert" using length_tlv_less [of body c t k] by auto
  then show ?thesis using assms by (simp add: AddCertificate_def go_append_def)
qed

theorem AddCertificate_duplicate_witness:
  "AddCertificate example_certificate (nil_SignedData\<lparr>Certificates := Some [raw_certificate example_certificate]\<rparr>)
   = (nil_SignedData\<lparr>Certificates := Some [raw_certificate example_certificate, raw_certificate example_certificate]\<rparr>, Ok ())"
proof -
  have "unmarshal_raw (Raw example_certificate) = Ok (raw_certificate example_certificate, [])"
    by (rule wf_certificate_Raw [OF wf_example_certificate])
  then show ?thesis by (subst AddCertificate_duplicate) simp_all
qed

subsection \<open>AddSignerInfo\<close>

lemma go_append_append: "go_append (go_append s xs) ys = go_append s (xs @ ys)"
  by (simp add: go_append_def)

lemma go_append_Nil [simp]: "go_append s [] = s"
  by (simp add: go_append_def)

text \<open>Adding certificates changes no other field, and keeps those that were there.\<close>

lemma AddCertificate_frame:
  "AddCertificate cert sd = (sd', r) \<Longrightarrow> \<exists>rvs. sd' = sd\<lparr>Certificates := go_append (Certificates sd) rvs\<rparr>"
  by (cases "unmarshal_raw (Raw cert)")
    (auto simp: AddCertificate_def split: if_splits intro: exI [of _ "[]"])

lemma AddCertificate_Ok:
  "AddCertificate cert sd = (sd', Ok ()) \<Longrightarrow>
    sd' = sd\<lparr>Certificates := go_append (Certificates sd) [raw_certificate cert]\<rparr> \<and> is_ok (unmarshal_raw (Raw cert))"
  by (cases "unmarshal_raw (Raw cert)") (auto simp: AddCertificate_def raw_certificate_def split: if_splits)

lemma add_chain_frame:
  "add_chain c pub cert chain sd = (sd', r) \<Longrightarrow> \<exists>rvs. sd' = sd\<lparr>Certificates := go_append (Certificates sd) rvs\<rparr>"
proof (induction c pub cert chain sd arbitrary: sd' r rule: add_chain.induct)
  case (1 c pub cert sd)
  then show ?case by (auto intro: exI [of _ "[]"])
next
  case (2 c pub cert x chain sd)
  obtain sd1 added where add: "AddCertificate x sd = (sd1, added)" by (cases "AddCertificate x sd")
  then obtain rvs where sd1: "sd1 = sd\<lparr>Certificates := go_append (Certificates sd) rvs\<rparr>"
    using AddCertificate_frame by blast
  show ?case
  proof (cases "is_ok added \<and> is_ok (MarshalPKIXPublicKey c (PublicKey x))")
    case True
    then obtain certPub where ok: "added = Ok ()" "MarshalPKIXPublicKey c (PublicKey x) = Ok certPub"
      by (auto simp: is_ok_iff)
    then have "add_chain c pub (if pub = certPub then Some x else cert) chain sd1 = (sd', r)"
      using 2(2) add by simp
    from "2.IH" [OF add [symmetric] ok this] obtain more where
      "sd' = sd1\<lparr>Certificates := go_append (Certificates sd1) more\<rparr>" by blast
    then show ?thesis using sd1 by (auto simp: go_append_append)
  next
    case False
    then have "sd' = sd1"
      using 2(2) add by (cases added; cases "MarshalPKIXPublicKey c (PublicKey x)") auto
    then show ?thesis using sd1 by blast
  qed
qed

lemma add_chain_Ok:
  "add_chain c pub cert chain sd = (sd', Ok found) \<Longrightarrow>
    sd' = sd\<lparr>Certificates := go_append (Certificates sd) (map raw_certificate chain)\<rparr> \<and>
    (found = cert \<or> (\<exists>x \<in> set chain. found = Some x \<and> MarshalPKIXPublicKey c (PublicKey x) = Ok pub))"
proof (induction c pub cert chain sd arbitrary: sd' rule: add_chain.induct)
  case (2 c pub cert x chain sd)
  obtain sd1 added where add: "AddCertificate x sd = (sd1, added)" by (cases "AddCertificate x sd")
  with 2(2) obtain certPub where ok: "added = Ok ()" "MarshalPKIXPublicKey c (PublicKey x) = Ok certPub"
    "add_chain c pub (if pub = certPub then Some x else cert) chain sd1 = (sd', Ok found)"
    by (auto simp: outcome_simps)
  have sd1: "sd1 = sd\<lparr>Certificates := go_append (Certificates sd) [raw_certificate x]\<rparr>"
    using AddCertificate_Ok add ok(1) by blast
  show ?case
    using "2.IH" [OF add [symmetric] ok(1-3)] ok(2) sd1
    by (auto simp: go_append_append split: if_splits)
qed simp

text \<open>
  When every certificate of a list is added: each is one element, and none is mistaken for one that is
  there already, in the message or in the list.
\<close>

definition addable :: "certificate list \<Rightarrow> raw_value slice \<Rightarrow> bool" where
  "addable certs rvs \<longleftrightarrow> (\<forall>cert \<in> set certs. wf_certificate cert \<and>
     (\<forall>rv \<in> set (elems rvs) \<union> raw_certificate ` set certs. elems (rv_Bytes rv) \<noteq> Raw cert))"

lemma addable_Cons:
  assumes "addable (cert # certs) (Certificates sd)"
  shows "AddCertificate cert sd = (sd\<lparr>Certificates := go_append (Certificates sd) [raw_certificate cert]\<rparr>, Ok ())"
    and "addable certs (go_append (Certificates sd) [raw_certificate cert])"
proof -
  have "unmarshal_raw (Raw cert) = Ok (raw_certificate cert, [])"
    by (rule wf_certificate_Raw) (use assms in \<open>auto simp: addable_def\<close>)
  moreover have "\<not> list_ex (\<lambda>existing. elems (rv_Bytes existing) = Raw cert) (elems (Certificates sd))"
    using assms by (auto simp: addable_def list_ex_iff)
  ultimately show "AddCertificate cert sd
      = (sd\<lparr>Certificates := go_append (Certificates sd) [raw_certificate cert]\<rparr>, Ok ())"
    by (simp add: AddCertificate_def)
  show "addable certs (go_append (Certificates sd) [raw_certificate cert])"
    using assms by (auto simp: addable_def)
qed

lemma addable_single:
  assumes "wf_certificate cert"
  shows "addable [cert] None"
proof -
  obtain body where "Raw cert = tlv 0 16 True body" "raw_certificate cert = raw_of 0 16 True body"
    by (rule wf_certificate_Raw [OF assms])
  then have "elems (rv_Bytes (raw_certificate cert)) \<noteq> Raw cert"
    using length_tlv_less [of body 0 16 True] by auto
  then show ?thesis using assms by (simp add: addable_def)
qed

text \<open>A chain in which the key of one certificate, and of no other, is the signer's.\<close>

lemma add_chain_addable:
  assumes "addable chain (Certificates sd)"
    and "\<forall>x \<in> set chain. is_ok (MarshalPKIXPublicKey c (PublicKey x)) \<and>
      (MarshalPKIXPublicKey c (PublicKey x) = Ok pub \<longrightarrow> x = cert)"
    and "cert \<in> set chain \<and> MarshalPKIXPublicKey c (PublicKey cert) = Ok pub \<or> found = Some cert"
  shows "add_chain c pub found chain sd
    = (sd\<lparr>Certificates := go_append (Certificates sd) (map raw_certificate chain)\<rparr>, Ok (Some cert))"
  using assms
proof (induction chain arbitrary: found sd)
  case (Cons x chain)
  let ?sd = "sd\<lparr>Certificates := go_append (Certificates sd) [raw_certificate x]\<rparr>"
  obtain p where p: "MarshalPKIXPublicKey c (PublicKey x) = Ok p" "p = pub \<longrightarrow> x = cert"
    using Cons.prems(2) by (auto simp: is_ok_iff)
  let ?found = "if pub = p then Some x else found"
  have "add_chain c pub ?found chain ?sd
      = (?sd\<lparr>Certificates := go_append (Certificates ?sd) (map raw_certificate chain)\<rparr>, Ok (Some cert))"
    by (rule Cons.IH) (use Cons.prems(2,3) p addable_Cons(2) [OF Cons.prems(1)] in auto)
  then show ?case
    using p(1) by (simp add: addable_Cons(1) [OF Cons.prems(1)] go_append_append)
qed simp

definition key_chain :: "crypto \<Rightarrow> certificate \<Rightarrow> certificate list \<Rightarrow> bool" where
  "key_chain c cert chain \<longleftrightarrow> cert \<in> set chain \<and> addable chain None \<and>
     (\<forall>x \<in> set chain. is_ok (MarshalPKIXPublicKey c (PublicKey x)) \<and>
        (MarshalPKIXPublicKey c (PublicKey x) = MarshalPKIXPublicKey c (PublicKey cert) \<longrightarrow> x = cert))"

lemma attempt_cases:
  assumes "attempt s m f = (s', r)"
  obtains x where "m = Ok x" "f x = (s', r)" | e where "m = Err e" "s' = s" "r = Err e"
    | p where "m = Panic p" "s' = s" "r = Panic p"
  using assms by (cases m) auto

text \<open>
  A failing \<open>AddSignerInfo\<close> never leaves a half-made signature: the signer infos, the digest
  algorithms, the content and the version are untouched.  What it may leave behind is certificates of
  the chain, appended to those that were there.
\<close>

theorem AddSignerInfo_failure:
  assumes "AddSignerInfo c now chain signer sd = (sd', r)" and "r \<noteq> Ok ()"
  shows "\<exists>rvs. sd' = sd\<lparr>Certificates := go_append (Certificates sd) rvs\<rparr>"
  using assms(1)[unfolded AddSignerInfo_def]
proof (rule attempt_cases)
  fix pub
  obtain sd1 found where chain: "add_chain c pub None chain sd = (sd1, found)"
    by (cases "add_chain c pub None chain sd")
  then have sd1: "\<exists>rvs. sd1 = sd\<lparr>Certificates := go_append (Certificates sd) rvs\<rparr>" by (rule add_chain_frame)
  assume "(case add_chain c pub None chain sd of (sd, found) \<Rightarrow> attempt sd found (\<lambda>cert.
     case cert of None \<Rightarrow> (sd, Err ErrNoCertificate)
     | Some cert \<Rightarrow> attempt sd (new_SignerInfo c now cert pub signer sd) (\<lambda>si.
         let sd = addDigestAlgorithm (DigestAlgorithm si) sd in (sd\<lparr>SignerInfos := SignerInfos sd @ [si]\<rparr>, Ok ()))))
    = (sd', r)"
  then have "sd' = sd1"
    using assms(2) chain
    by (auto elim!: attempt_cases simp: Let_def split: option.splits)
  with sd1 show ?thesis by blast
qed (auto intro: exI [of _ "[]"])

theorem AddSignerInfo_failure_witness:
  "\<exists>rvs. nil_SignedData\<lparr>Certificates := Some [raw_certificate example_certificate]\<rparr>
    = nil_SignedData\<lparr>Certificates := go_append (Certificates nil_SignedData) rvs\<rparr>"
proof (rule AddSignerInfo_failure)
  have "unmarshal_raw (Raw example_certificate) = Ok (raw_certificate example_certificate, [])"
    by (rule wf_certificate_Raw [OF wf_example_certificate])
  then show "AddSignerInfo example_crypto zero_time [example_certificate]
      \<lparr>Public = RSAPublicKey [9], Sign_digest = (\<lambda>_ _. Ok [])\<rparr> nil_SignedData
    = (nil_SignedData\<lparr>Certificates := Some [raw_certificate example_certificate]\<rparr>, Err ErrNoCertificate)"
    by (simp add: AddSignerInfo_def AddCertificate_def example_crypto_def nil_SignedData_def go_append_def)
      (simp add: example_certificate_def)
qed simp

lemma digestAlgorithmForPublicKey_DERBytes:
  "digestAlgorithmForPublicKey (DERBytes pub) = \<lparr>Algorithm = DigestAlgorithmSHA256, Parameters = nil_raw\<rparr>"
  by (simp add: digestAlgorithmForPublicKey_def)

lemma hash_of_SHA256:
  "hash_of_algorithm c \<lparr>Algorithm = DigestAlgorithmSHA256, Parameters = p\<rparr>
    = (if Available c SHA256 then Ok SHA256 else Err ErrUnsupported)"
  by (simp add: hash_of_algorithm_def DigestAlgorithmToCryptoHash_def lookup_def) (simp add: oid_defs)

text \<open>What a new SignerInfo holds.\<close>

lemma new_SignerInfo_inv:
  assumes "new_SignerInfo c now cert pub signer sd = Ok si"
  obtains content attrs sm sid sig where
    "EContentValue (EncapContentInfo sd) = Ok (Some content)" "Available c SHA256"
    "NewIssuerAndSerialNumber cert = Ok sid"
    "new_SignedAttrs c now SHA256 (EContentType (EncapContentInfo sd)) content = Ok attrs"
    "MarshaledForSigning (Some attrs) = Ok sm"
    "Sign_digest signer (hash_sum c SHA256 sm) SHA256 = Ok (Signature si)"
    "lookup X509PublicKeyAndDigestAlgorithmToSignatureAlgorithm (\<lambda>_. None) (PublicKeyAlgorithm cert)
      (oid_String DigestAlgorithmSHA256) = Some sig"
    "si = \<lparr>Version = 1, SID = sid, DigestAlgorithm = \<lparr>Algorithm = DigestAlgorithmSHA256, Parameters = nil_raw\<rparr>,
      SignedAttrs = Some attrs, SignatureAlgorithm = \<lparr>Algorithm = sig, Parameters = nil_raw\<rparr>,
      Signature = Signature si, UnsignedAttrs = None\<rparr>"
  using assms
  by (auto simp: new_SignerInfo_def digestAlgorithmForPublicKey_DERBytes SignerInfo_Hash_def hash_of_SHA256
      outcome_simps Let_def split: option.splits if_splits)

lemma AddSignerInfo_Ok:
  assumes "AddSignerInfo c now chain signer sd = (sd', Ok ())"
  obtains pub cert si sd1 where
    "MarshalPKIXPublicKey c (Public signer) = Ok pub"
    "cert \<in> set chain" "MarshalPKIXPublicKey c (PublicKey cert) = Ok pub"
    "sd1 = sd\<lparr>Certificates := go_append (Certificates sd) (map raw_certificate chain)\<rparr>"
    "new_SignerInfo c now cert pub signer sd1 = Ok si"
    "sd' = (addDigestAlgorithm (DigestAlgorithm si) sd1)\<lparr>SignerInfos := SignerInfos sd @ [si]\<rparr>"
proof -
  from assms obtain pub where pub: "MarshalPKIXPublicKey c (Public signer) = Ok pub"
    by (auto simp: AddSignerInfo_def outcome_simps)
  obtain sd1 found where chain: "add_chain c pub None chain sd = (sd1, found)"
    by (cases "add_chain c pub None chain sd")
  with assms pub obtain cert si where ok: "found = Ok (Some cert)"
    "new_SignerInfo c now cert pub signer sd1 = Ok si"
    and sd': "sd' = (addDigestAlgorithm (DigestAlgorithm si) sd1)
      \<lparr>SignerInfos := SignerInfos (addDigestAlgorithm (DigestAlgorithm si) sd1) @ [si]\<rparr>"
    by (auto simp: AddSignerInfo_def outcome_simps Let_def split: option.splits)
  have *: "sd1 = sd\<lparr>Certificates := go_append (Certificates sd) (map raw_certificate chain)\<rparr>"
    "cert \<in> set chain" "MarshalPKIXPublicKey c (PublicKey cert) = Ok pub"
    using add_chain_Ok chain ok(1) by fastforce+
  then have "SignerInfos (addDigestAlgorithm (DigestAlgorithm si) sd1) = SignerInfos sd"
    by (simp add: addDigestAlgorithm_def)
  then show ?thesis using that [OF pub *(2,3,1) ok(2)] sd' by simp
qed

text \<open>
  C24: A successful \<open>AddSignerInfo\<close> adds the whole chain in order, appends one SignerInfo to those that
  were there, announces its digest algorithm, and the SignerInfo is for a certificate of the chain that
  has the signer's key: it is identified by issuer and serial number, and its signature is the
  signer's, over the digest of the signed attributes in DER order.
\<close>

theorem AddSignerInfo_success:
  assumes "AddSignerInfo c now chain signer sd = (sd', Ok ())"
  shows "Certificates sd' = go_append (Certificates sd) (map raw_certificate chain) \<and>
    EncapContentInfo sd' = EncapContentInfo sd \<and>
    (\<exists>si cert attrs sm. SignerInfos sd' = SignerInfos sd @ [si] \<and>
      cert \<in> set chain \<and> MarshalPKIXPublicKey c (PublicKey cert) = MarshalPKIXPublicKey c (Public signer) \<and>
      Version si = 1 \<and> NewIssuerAndSerialNumber cert = Ok (SID si) \<and>
      list_ex (\<lambda>a. Algorithm a = Algorithm (DigestAlgorithm si)) (DigestAlgorithms sd') \<and>
      SignedAttrs si = Some attrs \<and> MarshaledForSigning (Some attrs) = Ok sm \<and>
      Sign_digest signer (hash_sum c SHA256 sm) SHA256 = Ok (Signature si))"
proof (rule AddSignerInfo_Ok [OF assms])
  fix pub cert si sd1
  assume pub: "MarshalPKIXPublicKey c (Public signer) = Ok pub"
    and cert: "cert \<in> set chain" "MarshalPKIXPublicKey c (PublicKey cert) = Ok pub"
    and sd1: "sd1 = sd\<lparr>Certificates := go_append (Certificates sd) (map raw_certificate chain)\<rparr>"
    and si: "new_SignerInfo c now cert pub signer sd1 = Ok si"
    and sd': "sd' = (addDigestAlgorithm (DigestAlgorithm si) sd1)\<lparr>SignerInfos := SignerInfos sd @ [si]\<rparr>"
  obtain attrs sm where "NewIssuerAndSerialNumber cert = Ok (SID si)" "Version si = 1"
    "SignedAttrs si = Some attrs" "MarshaledForSigning (Some attrs) = Ok sm"
    "Sign_digest signer (hash_sum c SHA256 sm) SHA256 = Ok (Signature si)"
    by (rule new_SignerInfo_inv [OF si]) (metis SignerInfo.select_convs(1,2,4))
  then show ?thesis
    using cert pub by (auto simp: sd' sd1 addDigestAlgorithm_def)
qed

text \<open>
  The digest of a new signature is SHA-256 whatever the key: \<open>digestAlgorithmForPublicKey\<close> would
  choose SHA-384 for a P-384 key, but it is handed the DER encoding of the key.
\<close>

theorem AddSignerInfo_always_SHA256:
  assumes "AddSignerInfo c now chain signer sd = (sd', Ok ())" and "Public signer = ECDSAPublicKey P384 point"
  shows "Algorithm (DigestAlgorithm (last (SignerInfos sd'))) = DigestAlgorithmSHA256 \<and>
    Algorithm (digestAlgorithmForPublicKey (Public signer)) = DigestAlgorithmSHA384"
proof (rule AddSignerInfo_Ok [OF assms(1)])
  fix pub cert si sd1
  assume si: "new_SignerInfo c now cert pub signer sd1 = Ok si"
    and sd': "sd' = (addDigestAlgorithm (DigestAlgorithm si) sd1)\<lparr>SignerInfos := SignerInfos sd @ [si]\<rparr>"
  have "Algorithm (DigestAlgorithm si) = DigestAlgorithmSHA256"
    by (rule new_SignerInfo_inv [OF si]) (metis SignerInfo.select_convs(3) AlgorithmIdentifier.select_convs(1))
  then show ?thesis using assms(2) by (simp add: sd' digestAlgorithmForPublicKey_def)
qed

text \<open>Signing succeeds: the conditions under which every step of \<open>AddSignerInfo\<close> returns.\<close>

lemma signature_OID_SHA256:
  assumes "pk = RSA \<or> pk = ECDSA"
  shows "\<exists>sig. lookup X509PublicKeyAndDigestAlgorithmToSignatureAlgorithm (\<lambda>_. None) pk
    (oid_String DigestAlgorithmSHA256) = Some sig \<and>
    (sig = SignatureAlgorithmSHA256WithRSA \<or> sig = SignatureAlgorithmECDSAWithSHA256)"
  using assms
  by (auto simp: X509PublicKeyAndDigestAlgorithmToSignatureAlgorithm_def lookup_def) (simp_all add: oid_defs)

lemma EContentValue_new:
  assumes "length data < 2 ^ 31"
  shows "EContentValue (NewEncapsulatedContentInfo contentType data) = Ok (Some data)"
proof -
  have "unmarshal_raw (tlv 0 4 False data) = Ok (raw_of 0 4 False data, [])"
    using unmarshal_raw_tlv [of 0 4 data False "[]"] assms by (simp add: wf_tlv_def)
  then show ?thesis
    by (simp add: EContentValue_def NewEncapsulatedContentInfo_def marshal_raw_fresh no_trailing_def)
qed

definition signable :: "crypto \<Rightarrow> go_time \<Rightarrow> certificate \<Rightarrow> signer \<Rightarrow> bytes \<Rightarrow> bool" where
  "signable c now cert signer data \<longleftrightarrow>
     wf_certificate cert \<and> (PublicKeyAlgorithm cert = RSA \<or> PublicKeyAlgorithm cert = ECDSA) \<and>
     is_ok (MarshalPKIXPublicKey c (PublicKey cert)) \<and>
     MarshalPKIXPublicKey c (Public signer) = MarshalPKIXPublicKey c (PublicKey cert) \<and>
     Available c SHA256 \<and> (\<forall>d. length (hash_sum c SHA256 d) = 32) \<and> utc_now now \<and>
     length data < 2 ^ 31 \<and> (\<forall>d. length d = 32 \<longrightarrow> is_ok (Sign_digest signer d SHA256))"

lemma signable_wf: "signable c now cert signer data \<Longrightarrow> wf_certificate cert"
  unfolding signable_def by (elim conjE)

lemma new_SignerInfo_Ok:
  assumes "signable c now cert signer data" "EncapContentInfo sd = NewDataEncapsulatedContentInfo data"
  shows "is_ok (new_SignerInfo c now cert pub signer sd)"
proof -
  have a: "wf_certificate cert" "PublicKeyAlgorithm cert = RSA \<or> PublicKeyAlgorithm cert = ECDSA"
    "Available c SHA256" "\<And>d. length (hash_sum c SHA256 d) = 32" "utc_now now" "length data < 2 ^ 31"
    "\<And>d. length d = 32 \<Longrightarrow> is_ok (Sign_digest signer d SHA256)"
    using assms(1) by (simp_all add: signable_def)
  obtain sig where sig: "lookup X509PublicKeyAndDigestAlgorithmToSignatureAlgorithm (\<lambda>_. None)
      (PublicKeyAlgorithm cert) (oid_String DigestAlgorithmSHA256) = Some sig"
    using signature_OID_SHA256 [OF a(2)] by blast
  obtain attrs sm where attrs: "new_SignedAttrs c now SHA256 ContentTypeData data = Ok attrs"
    "MarshaledForSigning (Some attrs) = Ok sm"
    by (rule new_SignedAttrs_sorted [OF a(5) oid_tlv_content_types(2), of c SHA256 data]) (simp_all add: a(4))
  obtain s where s: "Sign_digest signer (hash_sum c SHA256 sm) SHA256 = Ok s"
    using a(7) [OF a(4), of sm] by (auto simp: is_ok_iff)
  have "EContentType (NewDataEncapsulatedContentInfo data) = ContentTypeData"
    by (simp add: NewDataEncapsulatedContentInfo_def NewEncapsulatedContentInfo_def)
  then show ?thesis
    using NewIssuerAndSerialNumber_Ok [OF a(1)] sig attrs s EContentValue_new [OF a(6)] a(3)
    by (simp add: new_SignerInfo_def digestAlgorithmForPublicKey_DERBytes SignerInfo_Hash_def hash_of_SHA256
        assms(2) NewDataEncapsulatedContentInfo_def is_ok_iff)
qed

lemma AddSignerInfo_chain:
  assumes "signable c now cert signer data" and "key_chain c cert chain"
  shows "\<exists>sd'. AddSignerInfo c now chain signer (NewSignedData (NewDataEncapsulatedContentInfo data)) = (sd', Ok ())"
proof -
  let ?sd = "NewSignedData (NewDataEncapsulatedContentInfo data)"
  let ?sd1 = "?sd\<lparr>Certificates := go_append (Certificates ?sd) (map raw_certificate chain)\<rparr>"
  obtain pub where pub: "MarshalPKIXPublicKey c (PublicKey cert) = Ok pub" "MarshalPKIXPublicKey c (Public signer) = Ok pub"
    using assms by (auto simp: signable_def is_ok_iff)
  have "EncapContentInfo ?sd1 = NewDataEncapsulatedContentInfo data" by (simp add: NewSignedData_def)
  then obtain si where si: "new_SignerInfo c now cert pub signer ?sd1 = Ok si"
    using new_SignerInfo_Ok [OF assms(1), of ?sd1 pub] by (auto simp: is_ok_iff)
  have "add_chain c pub None chain ?sd = (?sd1, Ok (Some cert))"
    by (rule add_chain_addable) (use assms(2) pub in \<open>simp_all add: key_chain_def NewSignedData_def\<close>)
  then show ?thesis using pub si by (simp add: AddSignerInfo_def Let_def)
qed

lemma key_chain_single: "signable c now cert signer data \<Longrightarrow> key_chain c cert [cert]"
  by (simp add: key_chain_def addable_single signable_def)

lemmas AddSignerInfo_single = AddSignerInfo_chain [OF _ key_chain_single]

definition example_signer :: signer where
  "example_signer = \<lparr>Public = ECDSAPublicKey P384 [1], Sign_digest = (\<lambda>d _. Ok (9 # d))\<rparr>"

lemma example_signable:
  "signable example_crypto (zero_time\<lparr>t_year := 2024\<rparr>) example_certificate example_signer [104, 105]"
  using wf_example_certificate
  by (simp add: signable_def example_crypto_def example_signer_def utc_now_def zero_time_def)
    (simp add: example_certificate_def)

theorem AddSignerInfo_success_witness:
  "\<exists>sd'. AddSignerInfo example_crypto (zero_time\<lparr>t_year := 2024\<rparr>) [example_certificate] example_signer
      (NewSignedData (NewDataEncapsulatedContentInfo [104, 105])) = (sd', Ok ()) \<and>
    Certificates sd' = Some [raw_certificate example_certificate]"
proof -
  obtain sd' where ok: "AddSignerInfo example_crypto (zero_time\<lparr>t_year := 2024\<rparr>) [example_certificate] example_signer
      (NewSignedData (NewDataEncapsulatedContentInfo [104, 105])) = (sd', Ok ())"
    using AddSignerInfo_single [OF example_signable example_signable] by blast
  have "Certificates sd' = Some [raw_certificate example_certificate]"
    using AddSignerInfo_success [OF ok] by (simp add: NewSignedData_def go_append_def)
  with ok show ?thesis by blast
qed

theorem AddSignerInfo_always_SHA256_witness:
  "\<exists>sd'. AddSignerInfo example_crypto (zero_time\<lparr>t_year := 2024\<rparr>) [example_certificate] example_signer
      (NewSignedData (NewDataEncapsulatedContentInfo [104, 105])) = (sd', Ok ()) \<and>
    Algorithm (DigestAlgorithm (last (SignerInfos sd'))) = DigestAlgorithmSHA256"
proof -
  obtain sd' where ok: "AddSignerInfo example_crypto (zero_time\<lparr>t_year := 2024\<rparr>) [example_certificate] example_signer
      (NewSignedData (NewDataEncapsulatedContentInfo [104, 105])) = (sd', Ok ())"
    using AddSignerInfo_single [OF example_signable example_signable] by blast
  have "Public example_signer = ECDSAPublicKey P384 [1]" by (simp add: example_signer_def)
  from AddSignerInfo_always_SHA256 [OF ok this] ok show ?thesis by blast
qed

end
