(* ===== verification/Go_Strings.thy ===== *)
theory Go_Strings
  imports Big_Endian
begin

text \<open>
  What the repository uses of Go's strings.  A Go string is a sequence of octets, modelled by
  \<open>string\<close> (a \<open>char\<close> is an octet).  The theory holds UTF-8 and UTF-16, the string types of
  \<open>encoding/asn1\<close>, and the functions of \<open>strings\<close> and \<open>fmt\<close> that the code calls.
\<close>

definition string_of_bytes :: "bytes \<Rightarrow> string" where
  "string_of_bytes bs = map (\<lambda>b. char_of (unat b)) bs"

definition bytes_of_string :: "string \<Rightarrow> bytes" where
  "bytes_of_string s = map (\<lambda>c. octet (of_char c)) s"

lemma string_of_bytes_of_string [simp]: "string_of_bytes (bytes_of_string s) = s"
  by (induction s) (simp_all add: string_of_bytes_def bytes_of_string_def)

definition show_int :: "int \<Rightarrow> string" where
  "show_int i = (if i < 0 then ''-'' @ show_nat (nat (- i)) else show_nat (nat i))"

subsection \<open>Unicode\<close>

text \<open>\<open>utf8.Valid\<close>: the second octet excludes overlong forms, surrogates and values above 10FFFF.\<close>

definition continuation :: "nat \<Rightarrow> bool" where
  "continuation c \<longleftrightarrow> 0x80 \<le> c \<and> c \<le> 0xBF"

definition second_octet :: "nat \<Rightarrow> nat \<Rightarrow> bool" where
  "second_octet b c \<longleftrightarrow>
     (if b = 0xE0 then 0xA0 \<le> c \<and> c \<le> 0xBF
      else if b = 0xED then 0x80 \<le> c \<and> c \<le> 0x9F
      else if b = 0xF0 then 0x90 \<le> c \<and> c \<le> 0xBF
      else if b = 0xF4 then 0x80 \<le> c \<and> c \<le> 0x8F
      else continuation c)"

fun utf8_valid :: "nat list \<Rightarrow> bool" where
  "utf8_valid [] = True"
| "utf8_valid (b # bs) =
     (if b < 0x80 then utf8_valid bs
      else case bs of
        [] \<Rightarrow> False
      | c # bs \<Rightarrow>
          if 0xC2 \<le> b \<and> b \<le> 0xDF then continuation c \<and> utf8_valid bs
          else case bs of
            [] \<Rightarrow> False
          | d # bs \<Rightarrow>
              if 0xE0 \<le> b \<and> b \<le> 0xEF then second_octet b c \<and> continuation d \<and> utf8_valid bs
              else case bs of
                [] \<Rightarrow> False
              | e # bs \<Rightarrow> 0xF0 \<le> b \<and> b \<le> 0xF4 \<and> second_octet b c \<and> continuation d \<and>
                  continuation e \<and> utf8_valid bs)"

definition utf8_encode :: "nat \<Rightarrow> nat list" where
  "utf8_encode r =
     (if r < 0x80 then [r]
      else if r < 0x800 then [0xC0 + r div 64, 0x80 + r mod 64]
      else if r < 0x10000 then [0xE0 + r div 4096, 0x80 + r div 64 mod 64, 0x80 + r mod 64]
      else [0xF0 + r div 262144, 0x80 + r div 4096 mod 64, 0x80 + r div 64 mod 64, 0x80 + r mod 64])"

text \<open>\<open>utf16.Decode\<close>: a surrogate without its partner becomes the replacement character.\<close>

fun utf16_decode :: "nat list \<Rightarrow> nat list" where
  "utf16_decode [] = []"
| "utf16_decode (u # us) =
     (if u < 0xD800 \<or> 0xE000 \<le> u then u # utf16_decode us
      else case us of
        v # vs \<Rightarrow>
          if u < 0xDC00 \<and> 0xDC00 \<le> v \<and> v < 0xE000
          then (0x10000 + (u - 0xD800) * 1024 + (v - 0xDC00)) # utf16_decode vs
          else 0xFFFD # utf16_decode us
      | [] \<Rightarrow> [0xFFFD])"

fun uint16s :: "nat list \<Rightarrow> nat list" where
  "uint16s (a # b # bs) = (a * 256 + b) # uint16s bs"
| "uint16s _ = []"

subsection \<open>The string types of \<open>encoding/asn1\<close>\<close>

definition isPrintable :: "nat \<Rightarrow> bool" where
  "isPrintable b \<longleftrightarrow> (97 \<le> b \<and> b \<le> 122) \<or> (65 \<le> b \<and> b \<le> 90) \<or> (48 \<le> b \<and> b \<le> 57) \<or>
     (38 \<le> b \<and> b \<le> 47) \<or> b \<in> {32, 58, 61, 63}"

definition isNumeric :: "nat \<Rightarrow> bool" where
  "isNumeric b \<longleftrightarrow> (48 \<le> b \<and> b \<le> 57) \<or> b = 32"

definition string_of_nats :: "nat list \<Rightarrow> string" where
  "string_of_nats bs = map char_of bs"

definition parseBMPString :: "nat list \<Rightarrow> string outcome" where
  "parseBMPString bs =
     (if odd (length bs) then Err (ErrorString ''pkcs12: odd-length BMP string'')
      else let bs = (if 2 \<le> length bs \<and> last bs = 0 \<and> last (butlast bs) = 0
                     then butlast (butlast bs) else bs) in
        Ok (string_of_nats (concat (map utf8_encode (utf16_decode (uint16s bs))))))"

definition parse_string :: "nat \<Rightarrow> bytes \<Rightarrow> string outcome" where
  "parse_string tag bytes =
     (let bs = map unat bytes in
      if tag = 19 then
        if list_all isPrintable bs then Ok (string_of_nats bs)
        else Err (SyntaxError ''PrintableString contains invalid character'')
      else if tag = 18 then
        if list_all isNumeric bs then Ok (string_of_nats bs)
        else Err (SyntaxError ''NumericString contains invalid character'')
      else if tag = 22 then
        if list_all (\<lambda>b. b < 0x80) bs then Ok (string_of_nats bs)
        else Err (SyntaxError ''IA5String contains invalid character'')
      else if tag = 12 then
        if utf8_valid bs then Ok (string_of_nats bs) else Err (ErrorString ''asn1: invalid UTF-8 string'')
      else if tag = 30 then parseBMPString bs
      else Ok (string_of_nats bs))"

subsection \<open>Functions of \<open>strings\<close>\<close>

text \<open>\<open>strings.Join\<close>, and \<open>strings.ToLower\<close>, \<open>TrimSpace\<close> and \<open>Replace\<close> where the text is ASCII.\<close>

fun join :: "string \<Rightarrow> string list \<Rightarrow> string" where
  "join sep [] = []"
| "join sep [s] = s"
| "join sep (s # t # ss) = s @ sep @ join sep (t # ss)"

end
