(* ===== verification/Timestamp.thy ===== *)
theory Timestamp
  imports Signing_Spec Go_Strings
begin

text \<open>
  ietf-cms/timestamp/timestamp.go: RFC 3161 requests and responses.  The structs are records with the
  parsers and writers of their struct tags; \<open>*big.Int\<close> fields that may be nil are \<open>int option\<close>.
  Posting a request is an argument.  A \<open>time.Duration\<close> is a \<open>64 word\<close>, read by \<open>sint\<close>: its
  arithmetic wraps as in Go.  \<open>make([]byte, 0, n)\<close> panics outside the address space of a 64-bit Linux.
\<close>

subsection \<open>Field kinds of this package\<close>

definition parseBool :: "bytes \<Rightarrow> bool outcome" where
  "parseBool bs =
     (case bs of
        [b] \<Rightarrow> if b = 0 then Ok False else if b = 0xFF then Ok True else Err (SyntaxError ''invalid boolean'')
      | _ \<Rightarrow> Err (SyntaxError ''invalid boolean''))"

abbreviation bool_field :: "field_params \<Rightarrow> bytes \<Rightarrow> (bool \<times> bytes) outcome" where
  "bool_field p \<equiv> field p (PrimKind 1) (contents parseBool) False"

definition opt_bool_tlv :: "bool \<Rightarrow> bytes" where
  "opt_bool_tlv b = (if b then tlv 0 1 False [0xFF] else [])"

text \<open>An optional \<open>*big.Int\<close>: nil when the field is absent, and not written when nil.\<close>

definition opt_big_int_field :: "bytes \<Rightarrow> (int option \<times> bytes) outcome" where
  "opt_big_int_field =
     field opt (PrimKind 2) (contents (\<lambda>bs. obind (parseBigInt bs) (\<lambda>i. Ok (Some i)))) None"

definition opt_big_int_tlv :: "int option \<Rightarrow> bytes" where
  "opt_big_int_tlv i = (case i of None \<Rightarrow> [] | Some i \<Rightarrow> int_tlv i)"

record bit_string =
  bs_Bytes :: bytes
  bs_BitLength :: nat

definition nil_bit_string :: bit_string where
  "nil_bit_string = \<lparr>bs_Bytes = [], bs_BitLength = 0\<rparr>"

definition parseBitString :: "bytes \<Rightarrow> bit_string outcome" where
  "parseBitString bs =
     (case bs of
        [] \<Rightarrow> Err (SyntaxError ''zero length BIT STRING'')
      | padding # data \<Rightarrow>
          let paddingBits = unat padding in
          if paddingBits > 7 \<or> (data = [] \<and> paddingBits > 0) \<or> unat (last bs) mod 2 ^ paddingBits \<noteq> 0
          then Err (SyntaxError ''invalid padding bits in BIT STRING'')
          else Ok \<lparr>bs_Bytes = data, bs_BitLength = length data * 8 - paddingBits\<rparr>)"

record extension =
  ext_Id :: oid
  ext_Critical :: bool
  ext_Value :: bytes

definition nil_extension :: extension where
  "nil_extension = \<lparr>ext_Id = [], ext_Critical = False, ext_Value = []\<rparr>"

definition parse_extension :: "bytes \<Rightarrow> extension outcome" where
  "parse_extension bs =
     obind (oid_field plain bs) (\<lambda>(i, bs).
     obind (bool_field opt bs) (\<lambda>(c, bs).
     obind (octets_field plain bs) (\<lambda>(v, _). Ok \<lparr>ext_Id = i, ext_Critical = c, ext_Value = v\<rparr>)))"

definition marshal_extension :: "extension \<Rightarrow> bytes outcome" where
  "marshal_extension e =
     obind (oid_tlv (ext_Id e)) (\<lambda>i.
       Ok (seq_tlv (i @ opt_bool_tlv (ext_Critical e) @ octets_tlv (ext_Value e))))"

definition extensions_field :: "bytes \<Rightarrow> (extension slice \<times> bytes) outcome" where
  "extensions_field = slice_field (opt_tag 1) SeqKind (struct_field plain parse_extension nil_extension)"

definition marshal_extensions :: "extension slice \<Rightarrow> bytes outcome" where
  "marshal_extensions es =
     (case es of
        None \<Rightarrow> Ok []
      | Some xs \<Rightarrow> obind (traverse marshal_extension xs) (\<lambda>encs. Ok (tlv 2 1 True (concat encs))))"

subsection \<open>MessageImprint\<close>

record MessageImprint =
  HashAlgorithm :: AlgorithmIdentifier
  HashedMessage :: bytes

definition nil_MessageImprint :: MessageImprint where
  "nil_MessageImprint = \<lparr>HashAlgorithm = nil_AlgorithmIdentifier, HashedMessage = []\<rparr>"

definition parse_MessageImprint :: "bytes \<Rightarrow> MessageImprint outcome" where
  "parse_MessageImprint bs =
     obind (struct_field plain parse_AlgorithmIdentifier nil_AlgorithmIdentifier bs) (\<lambda>(a, bs).
     obind (octets_field plain bs) (\<lambda>(h, _). Ok \<lparr>HashAlgorithm = a, HashedMessage = h\<rparr>))"

definition marshal_MessageImprint :: "MessageImprint \<Rightarrow> bytes outcome" where
  "marshal_MessageImprint mi =
     obind (marshal_AlgorithmIdentifier (HashAlgorithm mi)) (\<lambda>a.
       Ok (seq_tlv (a @ octets_tlv (HashedMessage mi))))"

definition NewMessageImprint :: "crypto \<Rightarrow> crypto_hash \<Rightarrow> bytes \<Rightarrow> MessageImprint outcome" where
  "NewMessageImprint c hash msg =
     (let digestAlgorithm = lookup CryptoHashToDigestAlgorithm [] hash in
      if length digestAlgorithm = 0 then Err ErrUnsupported
      else if \<not> Available c hash then Err ErrUnsupported
      else Ok \<lparr>HashAlgorithm = \<lparr>Algorithm = digestAlgorithm, Parameters = nil_raw\<rparr>,
               HashedMessage = hash_sum c hash msg\<rparr>)"

definition MessageImprint_Hash :: "crypto \<Rightarrow> MessageImprint \<Rightarrow> crypto_hash outcome" where
  "MessageImprint_Hash c mi = hash_of_algorithm c (HashAlgorithm mi)"

definition MessageImprint_Equal :: "MessageImprint \<Rightarrow> MessageImprint \<Rightarrow> bool" where
  "MessageImprint_Equal mi other =
     (let p = Parameters (HashAlgorithm mi); q = Parameters (HashAlgorithm other) in
      if Algorithm (HashAlgorithm mi) \<noteq> Algorithm (HashAlgorithm other) then False
      else if (length (elems (rv_Bytes p)) > 0 \<or> length (elems (rv_Bytes q)) > 0)
        \<and> elems (rv_FullBytes p) \<noteq> elems (rv_FullBytes q) then False
      else if HashedMessage mi \<noteq> HashedMessage other then False
      else True)"

subsection \<open>Accuracy\<close>

record Accuracy =
  Seconds :: int
  Millis :: int
  Micros :: int

definition nil_Accuracy :: Accuracy where
  "nil_Accuracy = \<lparr>Seconds = 0, Millis = 0, Micros = 0\<rparr>"

definition parse_Accuracy :: "bytes \<Rightarrow> Accuracy outcome" where
  "parse_Accuracy bs =
     obind (int_field opt bs) (\<lambda>(s, bs).
     obind (int_field (opt_tag 0) bs) (\<lambda>(ms, bs).
     obind (int_field (opt_tag 1) bs) (\<lambda>(us, _). Ok \<lparr>Seconds = s, Millis = ms, Micros = us\<rparr>)))"

definition Duration :: "Accuracy \<Rightarrow> 64 word" where
  "Duration a =
     0 + word_of_int (Seconds a) * 1000000000 + word_of_int (Millis a) * 1000000
       + word_of_int (Micros a) * 1000"

subsection \<open>Info\<close>

record Info =
  tsti_Version :: int
  tsti_Policy :: oid
  tsti_MessageImprint :: MessageImprint
  tsti_SerialNumber :: int
  tsti_GenTime :: go_time
  tsti_Accuracy :: Accuracy
  tsti_Ordering :: bool
  tsti_Nonce :: "int option"
  tsti_TSA :: raw_value
  tsti_Extensions :: "extension slice"

definition nil_Info :: Info where
  "nil_Info = \<lparr>tsti_Version = 0, tsti_Policy = [], tsti_MessageImprint = nil_MessageImprint,
     tsti_SerialNumber = 0, tsti_GenTime = zero_time, tsti_Accuracy = nil_Accuracy, tsti_Ordering = False,
     tsti_Nonce = None, tsti_TSA = nil_raw, tsti_Extensions = None\<rparr>"

definition parse_Info_body :: "bytes \<Rightarrow> Info outcome" where
  "parse_Info_body bs =
     obind (int_field plain bs) (\<lambda>(v, bs).
     obind (oid_field plain bs) (\<lambda>(p, bs).
     obind (struct_field plain parse_MessageImprint nil_MessageImprint bs) (\<lambda>(mi, bs).
     obind (big_int_field plain bs) (\<lambda>(sn, bs).
     obind (time_field plain bs) (\<lambda>(t, bs).
     obind (struct_field opt parse_Accuracy nil_Accuracy bs) (\<lambda>(acc, bs).
     obind (bool_field opt bs) (\<lambda>(ord, bs).
     obind (opt_big_int_field bs) (\<lambda>(n, bs).
     obind (raw_field (opt_tag 0) bs) (\<lambda>(tsa, bs).
     obind (extensions_field bs) (\<lambda>(ext, _).
       Ok \<lparr>tsti_Version = v, tsti_Policy = p, tsti_MessageImprint = mi, tsti_SerialNumber = sn,
           tsti_GenTime = t, tsti_Accuracy = acc, tsti_Ordering = ord, tsti_Nonce = n, tsti_TSA = tsa,
           tsti_Extensions = ext\<rparr>))))))))))"

definition ParseInfo :: "EncapsulatedContentInfo \<Rightarrow> Info outcome" where
  "ParseInfo eci =
     (if EContentType eci \<noteq> ContentTypeTSTInfo then Err ErrWrongType
      else obind (EContentValue eci) (\<lambda>ecval.
        case ecval of
          None \<Rightarrow> Err (ASN1Error ''missing EContent for non data type'')
        | Some ecval \<Rightarrow> no_trailing (struct_field plain parse_Info_body nil_Info ecval)))"

text \<open>Times are compared as instants; \<open>Time.Add\<close> adds the duration's nanoseconds.\<close>

definition genTimeMax :: "Info \<Rightarrow> int" where
  "genTimeMax i = instant (tsti_GenTime i) + sint (Duration (tsti_Accuracy i))"

definition genTimeMin :: "Info \<Rightarrow> int" where
  "genTimeMin i = instant (tsti_GenTime i) + sint (- Duration (tsti_Accuracy i))"

definition Info_Before :: "Info \<Rightarrow> int \<Rightarrow> bool" where
  "Info_Before i t \<longleftrightarrow> genTimeMax i < t \<or> genTimeMax i = t"

definition Info_After :: "Info \<Rightarrow> int \<Rightarrow> bool" where
  "Info_After i t \<longleftrightarrow> genTimeMin i > t \<or> genTimeMin i = t"

subsection \<open>Response\<close>

type_synonym PKIFreeText = "raw_value slice"

record PKIStatusInfo =
  pki_Status :: int
  pki_StatusString :: PKIFreeText
  pki_FailInfo :: bit_string

definition nil_PKIStatusInfo :: PKIStatusInfo where
  "nil_PKIStatusInfo = \<lparr>pki_Status = 0, pki_StatusString = None, pki_FailInfo = nil_bit_string\<rparr>"

definition parse_PKIStatusInfo :: "bytes \<Rightarrow> PKIStatusInfo outcome" where
  "parse_PKIStatusInfo bs =
     obind (int_field plain bs) (\<lambda>(s, bs).
     obind (slice_field opt RawKind (raw_field plain) bs) (\<lambda>(ss, bs).
     obind (field opt (PrimKind 3) (contents parseBitString) nil_bit_string bs) (\<lambda>(fi, _).
       Ok \<lparr>pki_Status = s, pki_StatusString = ss, pki_FailInfo = fi\<rparr>)))"

definition Append :: "PKIFreeText \<Rightarrow> string \<Rightarrow> PKIFreeText" where
  "Append ft t = go_append ft [\<lparr>rv_Class = 0, rv_Tag = 12, rv_IsCompound = False,
     rv_Bytes = Some (bytes_of_string t), rv_FullBytes = None\<rparr>]"

definition string_field :: "bytes \<Rightarrow> (string \<times> bytes) outcome" where
  "string_field =
     field plain StringKind (\<lambda>rv. parse_string (rv_Tag rv) (elems (rv_Bytes rv))) []"

definition Strings :: "PKIFreeText \<Rightarrow> string list outcome" where
  "Strings ft = traverse (\<lambda>rv. no_trailing (string_field (elems (rv_FullBytes rv)))) (elems ft)"

text \<open>\<open>BitString.At\<close>, and the text of an unsuccessful status.\<close>

definition BitString_At :: "bit_string \<Rightarrow> nat \<Rightarrow> nat outcome" where
  "BitString_At b i =
     (if bs_BitLength b \<le> i then Ok 0
      else obind (byte_at (bs_Bytes b) (i div 8)) (\<lambda>x. Ok (unat x div 2 ^ (7 - i mod 8) mod 2)))"

definition PKIStatusInfo_Error :: "PKIStatusInfo \<Rightarrow> string outcome" where
  "PKIStatusInfo_Error si =
     (let fi = pki_FailInfo si in
      obind (if bs_BitLength fi > 0
        then obind (traverse (\<lambda>i. obind (BitString_At fi i) (\<lambda>b. Ok (if b = 1 then CHR ''1'' else CHR ''0'')))
               [0 ..< bs_BitLength fi]) (\<lambda>fibin. Ok ('' FailInfo(0b'' @ fibin @ '')''))
        else Ok []) (\<lambda>fiStr.
      let statusStr = (if length (elems (pki_StatusString si)) > 0
        then (case Strings (pki_StatusString si) of
                Ok strs \<Rightarrow> '' StatusString('' @ join '','' strs @ '')'' | _ \<Rightarrow> [])
        else []) in
      Ok (''Bad TimeStampResp: Status('' @ show_int (pki_Status si) @ '')'' @ statusStr @ fiStr)))"

text \<open>The error of an unsuccessful status is the status itself; here it is its text.\<close>

definition GetError :: "PKIStatusInfo \<Rightarrow> unit outcome" where
  "GetError si =
     (if pki_Status si = 0 then Ok () else obind (PKIStatusInfo_Error si) (\<lambda>text. Err (ErrorString text)))"

record Response =
  resp_Status :: PKIStatusInfo
  resp_TimeStampToken :: ContentInfo

definition nil_Response :: Response where
  "nil_Response = \<lparr>resp_Status = nil_PKIStatusInfo, resp_TimeStampToken = nil_ContentInfo\<rparr>"

definition parse_Response_body :: "bytes \<Rightarrow> Response outcome" where
  "parse_Response_body bs =
     obind (struct_field plain parse_PKIStatusInfo nil_PKIStatusInfo bs) (\<lambda>(s, bs).
     obind (struct_field opt parse_ContentInfo_body nil_ContentInfo bs) (\<lambda>(t, _).
       Ok \<lparr>resp_Status = s, resp_TimeStampToken = t\<rparr>))"

definition ParseResponse :: "bytes \<Rightarrow> Response outcome" where
  "ParseResponse ber =
     obind (BER2DER ber) (\<lambda>der. no_trailing (struct_field plain parse_Response_body nil_Response der))"

definition Response_Info :: "Response \<Rightarrow> Info outcome" where
  "Response_Info r =
     obind (GetError (resp_Status r)) (\<lambda>_.
     obind (SignedDataContent (resp_TimeStampToken r)) (\<lambda>sd. ParseInfo (EncapContentInfo sd)))"

subsection \<open>Request\<close>

record Request =
  req_Version :: int
  req_MessageImprint :: MessageImprint
  req_ReqPolicy :: oid
  req_Nonce :: "int option"
  req_CertReq :: bool
  req_Extensions :: "extension slice"

definition parse_Request_body :: "bytes \<Rightarrow> Request outcome" where
  "parse_Request_body bs =
     obind (int_field plain bs) (\<lambda>(v, bs).
     obind (struct_field plain parse_MessageImprint nil_MessageImprint bs) (\<lambda>(mi, bs).
     obind (oid_field opt bs) (\<lambda>(p, bs).
     obind (opt_big_int_field bs) (\<lambda>(n, bs).
     obind (bool_field opt bs) (\<lambda>(cr, bs).
     obind (extensions_field bs) (\<lambda>(ext, _).
       Ok \<lparr>req_Version = v, req_MessageImprint = mi, req_ReqPolicy = p, req_Nonce = n,
           req_CertReq = cr, req_Extensions = ext\<rparr>))))))"

definition opt_oid_tlv :: "oid \<Rightarrow> bytes outcome" where
  "opt_oid_tlv oid = (if oid = [] then Ok [] else oid_tlv oid)"

definition marshal_Request :: "Request \<Rightarrow> bytes outcome" where
  "marshal_Request req =
     obind (marshal_MessageImprint (req_MessageImprint req)) (\<lambda>mi.
     obind (opt_oid_tlv (req_ReqPolicy req)) (\<lambda>p.
     obind (marshal_extensions (req_Extensions req)) (\<lambda>ext.
       Ok (seq_tlv (int_tlv (req_Version req) @ mi @ p @ opt_big_int_tlv (req_Nonce req)
         @ opt_bool_tlv (req_CertReq req) @ ext)))))"

text \<open>\<open>x.Cmp(y)\<close> of two \<open>*big.Int\<close>: equal pointers are equal, a nil one is dereferenced otherwise.\<close>

definition big_Cmp_differs :: "int option \<Rightarrow> int option \<Rightarrow> bool outcome" where
  "big_Cmp_differs x y =
     (case (x, y) of
        (Some a, Some b) \<Rightarrow> Ok (a \<noteq> b)
      | (None, None) \<Rightarrow> Ok False
      | _ \<Rightarrow> Panic NilDereference)"

definition Matches :: "Request \<Rightarrow> Info \<Rightarrow> bool outcome" where
  "Matches req tsti =
     (if \<not> MessageImprint_Equal (req_MessageImprint req) (tsti_MessageImprint tsti) then Ok False
      else if req_Nonce req \<noteq> None \<and> tsti_Nonce tsti = None then Ok False
      else obind (big_Cmp_differs (req_Nonce req) (tsti_Nonce tsti)) (\<lambda>differs. Ok (\<not> differs)))"

text \<open>
  \<open>rand.Read\<close> is an argument: the octets it delivered, or its error, on which the code panics.
\<close>

definition GenerateNonce :: "bytes outcome \<Rightarrow> int outcome" where
  "GenerateNonce random =
     (case random of
        Ok buf \<Rightarrow> Ok (foldl (\<lambda>a b. a * 256 + uint b) 0 buf)
      | Err e \<Rightarrow> Panic (PanicMsg ''rand.Read'')
      | Panic p \<Rightarrow> Panic p)"

text \<open>
  The HTTP client: the URL and the body of a POST yield a response or an error.  \<open>ContentLength\<close> is
  \<open>-1\<close> when the server does not say, as in a chunked response; reading the body may fail.
\<close>

record http_response =
  http_ContentType :: string
  ContentLength :: int
  http_Body :: "bytes outcome"

type_synonym http_client = "string \<Rightarrow> bytes \<Rightarrow> http_response outcome"

definition make_capacity :: "int \<Rightarrow> unit outcome" where
  "make_capacity n =
     (if n < 0 \<or> 281474976710656 < n then Panic (PanicMsg ''makeslice: cap out of range'') else Ok ())"

definition Request_Do :: "http_client \<Rightarrow> string \<Rightarrow> Request \<Rightarrow> Response outcome" where
  "Request_Do http url req =
     obind (marshal_Request req) (\<lambda>reqDER.
     obind (http url reqDER) (\<lambda>httpResp.
       if http_ContentType httpResp \<noteq> ''application/timestamp-reply''
       then Err (ErrorString (''Bad content-type: '' @ http_ContentType httpResp))
       else obind (make_capacity (ContentLength httpResp)) (\<lambda>_.
         obind (http_Body httpResp) ParseResponse)))"

end
