(* ===== verification/Cms.thy ===== *)
theory Cms
  imports Timestamp
begin

text \<open>
  The package cms: signed_data.go and sign.go (making and changing a message), timestamp.go (fetching
  timestamps and reading them back) and the types of verify.go.  A method that changes its receiver
  returns it with the outcome.  The clock, the key, the HTTP client and the source of randomness are
  arguments; the latter two may answer differently for each signer.
\<close>

subsection \<open>Making messages\<close>

definition cms_NewSignedData :: "bytes \<Rightarrow> SignedData" where
  "cms_NewSignedData data = NewSignedData (NewDataEncapsulatedContentInfo data)"

definition ParseSignedData :: "bytes \<Rightarrow> SignedData outcome" where
  "ParseSignedData ber = obind (ParseContentInfo ber) SignedDataContent"

definition GetData :: "SignedData \<Rightarrow> byte slice outcome" where
  "GetData sd = DataEContent (EncapContentInfo sd)"

definition GetCertificates :: "crypto \<Rightarrow> SignedData \<Rightarrow> certificate slice outcome" where
  "GetCertificates c sd = X509Certificates c sd"

fun add_certificates :: "certificate list \<Rightarrow> SignedData \<Rightarrow> SignedData \<times> unit outcome" where
  "add_certificates [] sd = (sd, Ok ())"
| "add_certificates (cert # certs) sd =
     (case AddCertificate cert sd of (sd, added) \<Rightarrow> attempt sd added (\<lambda>_. add_certificates certs sd))"

definition SetCertificates :: "certificate list \<Rightarrow> SignedData \<Rightarrow> SignedData \<times> unit outcome" where
  "SetCertificates certs sd = add_certificates certs (ClearCertificates sd)"

definition Detached :: "SignedData \<Rightarrow> SignedData" where
  "Detached sd = sd\<lparr>EncapContentInfo := (EncapContentInfo sd)\<lparr>EContent := nil_raw\<rparr>\<rparr>"

definition IsDetached :: "SignedData \<Rightarrow> bool" where
  "IsDetached sd \<longleftrightarrow> rv_Bytes (EContent (EncapContentInfo sd)) = None"

definition ToDER :: "SignedData \<Rightarrow> bytes outcome" where
  "ToDER sd = ContentInfoDER sd"

definition SignedData_Sign ::
  "crypto \<Rightarrow> go_time \<Rightarrow> certificate list \<Rightarrow> signer \<Rightarrow> SignedData \<Rightarrow> SignedData \<times> unit outcome" where
  "SignedData_Sign c now chain signer sd = AddSignerInfo c now chain signer sd"

definition cms_Sign :: "crypto \<Rightarrow> go_time \<Rightarrow> bytes \<Rightarrow> certificate list \<Rightarrow> signer \<Rightarrow> bytes outcome" where
  "cms_Sign c now data chain signer =
     (case SignedData_Sign c now chain signer (cms_NewSignedData data) of
        (sd, r) \<Rightarrow> obind r (\<lambda>_. ToDER sd))"

definition SignDetached :: "crypto \<Rightarrow> go_time \<Rightarrow> bytes \<Rightarrow> certificate list \<Rightarrow> signer \<Rightarrow> bytes outcome" where
  "SignDetached c now data chain signer =
     (case SignedData_Sign c now chain signer (cms_NewSignedData data) of
        (sd, r) \<Rightarrow> obind r (\<lambda>_. ToDER (Detached sd)))"

subsection \<open>Timestamps\<close>

definition tsRequest :: "crypto \<Rightarrow> bytes outcome \<Rightarrow> SignerInfo \<Rightarrow> Request outcome" where
  "tsRequest c random si =
     obind (SignerInfo_Hash c si) (\<lambda>hash.
     obind (NewMessageImprint c hash (Signature si)) (\<lambda>mi.
     obind (GenerateNonce random) (\<lambda>nonce.
       Ok \<lparr>req_Version = 1, req_MessageImprint = mi, req_ReqPolicy = [], req_Nonce = Some nonce,
           req_CertReq = True, req_Extensions = None\<rparr>)))"

definition fetchTS ::
  "crypto \<Rightarrow> bytes outcome \<Rightarrow> http_client \<Rightarrow> string \<Rightarrow> SignerInfo \<Rightarrow> Attribute outcome" where
  "fetchTS c random http url si =
     obind (tsRequest c random si) (\<lambda>req.
     obind (Request_Do http url req) (\<lambda>resp.
     obind (Response_Info resp) (\<lambda>tsti.
     obind (Matches req tsti) (\<lambda>ok.
       if \<not> ok then Err (ErrorString ''invalid message imprint'')
       else NewAttribute AttributeTimeStampToken (ContentInfoValue (resp_TimeStampToken resp))))))"

definition add_unsigned :: "SignerInfo \<Rightarrow> Attribute \<Rightarrow> SignerInfo" where
  "add_unsigned si attr = si\<lparr>UnsignedAttrs := go_append (UnsignedAttrs si) [attr]\<rparr>"

definition AddTimestamps :: "crypto \<Rightarrow> (nat \<Rightarrow> bytes outcome) \<Rightarrow> (nat \<Rightarrow> http_client) \<Rightarrow> string
    \<Rightarrow> SignedData \<Rightarrow> SignedData \<times> unit outcome" where
  "AddTimestamps c random http url sd =
     attempt sd (traverse (\<lambda>(i, si). fetchTS c (random i) (http i) url si) (enumerate 0 (SignerInfos sd)))
       (\<lambda>attrs. (sd\<lparr>SignerInfos := map2 add_unsigned (SignerInfos sd) attrs\<rparr>, Ok ()))"

definition hasTimestamp :: "SignerInfo \<Rightarrow> bool outcome" where
  "hasTimestamp si =
     obind (GetValues (UnsignedAttrs si) AttributeTimeStampToken) (\<lambda>vals. Ok (length (elems vals) > 0))"

subsection \<open>Verification options\<close>

text \<open>
  The fields of \<open>x509.VerifyOptions\<close> the code reads or writes; the others travel with the argument
  \<open>Verify_certificate\<close>.  \<open>CurrentTime\<close> is an instant, 0 for the zero time.  The pool of intermediates
  is shared by everything one verification calls and grows as it goes.
\<close>

datatype ext_key_usage = ExtKeyUsageAny | ExtKeyUsageTimeStamping | OtherExtKeyUsage nat

record verify_options =
  CurrentTime :: int
  KeyUsages :: "ext_key_usage list"

text \<open>Signature and chain verification of \<open>crypto/x509\<close>: the pool is the third argument of the latter.\<close>

record x509 =
  CheckSignature :: "certificate \<Rightarrow> signature_algorithm \<Rightarrow> bytes \<Rightarrow> bytes \<Rightarrow> unit outcome"
  Verify_certificate :: "certificate \<Rightarrow> verify_options \<Rightarrow> certificate list \<Rightarrow> certificate list list outcome"

definition AddCert :: "certificate list \<Rightarrow> certificate \<Rightarrow> certificate list" where
  "AddCert pool cert = (if list_ex (\<lambda>x. Raw x = Raw cert) pool then pool else pool @ [cert])"

subsection \<open>One signature\<close>

text \<open>The bytes a signature covers, with the checks of the mandatory signed attributes.\<close>

definition signed_message :: "crypto \<Rightarrow> bytes \<Rightarrow> EncapsulatedContentInfo \<Rightarrow> SignerInfo \<Rightarrow> bytes outcome" where
  "signed_message c econtent eci si =
     (if SignedAttrs si = None then
        if \<not> IsTypeData eci then Err (ASN1Error ''missing SignedAttrs'') else Ok econtent
      else
        obind (GetContentTypeAttribute si) (\<lambda>siContentType.
        if siContentType \<noteq> EContentType eci
        then Err (ASN1Error ''invalid SignerInfo ContentType attribute'')
        else obind (SignerInfo_Hash c si) (\<lambda>hash.
        obind (GetMessageDigestAttribute si) (\<lambda>messageDigestAttr.
        if messageDigestAttr \<noteq> hash_sum c hash econtent then Err (ErrorString ''invalid message digest'')
        else MarshaledForVerification (SignedAttrs si)))))"

text \<open>Finding the certificate and checking the signature under it.\<close>

definition check_signer ::
  "crypto \<Rightarrow> x509 \<Rightarrow> certificate slice \<Rightarrow> bytes \<Rightarrow> EncapsulatedContentInfo \<Rightarrow> SignerInfo \<Rightarrow> certificate outcome" where
  "check_signer c x certs econtent eci si =
     obind (signed_message c econtent eci si) (\<lambda>signedMessage.
     obind (FindCertificate si (elems certs)) (\<lambda>cert.
     let algo = X509SignatureAlgorithm si in
     if algo = UnknownSignatureAlgorithm then Err ErrUnsupported
     else obind (CheckSignature x cert algo signedMessage (Signature si)) (\<lambda>_. Ok cert)))"

text \<open>The part of \<open>getTimestamp\<close> before and after the verification of the token.\<close>

definition timestamp_token :: "SignerInfo \<Rightarrow> (SignedData \<times> Info) outcome" where
  "timestamp_token si =
     obind (GetOnlyAttributeValueBytes (UnsignedAttrs si) AttributeTimeStampToken) (\<lambda>rawValue.
     obind (ParseSignedData (elems (rv_FullBytes rawValue))) (\<lambda>tst.
     obind (ParseInfo (EncapContentInfo tst)) (\<lambda>tsti.
       if tsti_Version tsti \<noteq> 1 then Err ErrUnsupported else Ok (tst, tsti))))"

definition check_imprint :: "crypto \<Rightarrow> SignerInfo \<Rightarrow> Info \<Rightarrow> Info outcome" where
  "check_imprint c si tsti =
     obind (MessageImprint_Hash c (tsti_MessageImprint tsti)) (\<lambda>hash.
     obind (NewMessageImprint c hash (Signature si)) (\<lambda>mi.
       if \<not> MessageImprint_Equal mi (tsti_MessageImprint tsti)
       then Err (ErrorString ''invalid message imprint'') else Ok tsti))"

text \<open>The certificate's validity against the token's window, and the time the chain is verified at.\<close>

definition timestamp_options :: "certificate \<Rightarrow> Info \<Rightarrow> verify_options \<Rightarrow> verify_options outcome" where
  "timestamp_options cert tsti opts =
     (if \<not> Info_Before tsti (NotAfter cert) \<or> \<not> Info_After tsti (NotBefore cert)
      then Err (ErrorString ''x509: certificate has expired or is not yet valid: '')
      else if CurrentTime opts = 0 then Ok (opts\<lparr>CurrentTime := instant (tsti_GenTime tsti)\<rparr>)
      else Ok opts)"

end
