(* ===== verification/Input_Invariant.thy ===== *)
theory Input_Invariant
  imports Protocol_Spec
begin

text \<open>
  Invariants of the input of the ASN.1 parsers.  A parser of \<open>encoding/asn1\<close> sees the octets of the
  elements of its input one after the other, and the contents of the constructed ones; a property that
  passes from the input to the elements in it holds of everything a parser returns.  The locale states
  the two laws of such a property; two invariants satisfy it: that what is read lies within the message
  in a well-founded order, on which the termination of the verifier rests, and that it is DER.
\<close>

subsection \<open>The interface\<close>

definition reads :: "(bytes \<Rightarrow> bool) \<Rightarrow> ('a \<Rightarrow> bool) \<Rightarrow> (bytes \<Rightarrow> ('a \<times> bytes) outcome) \<Rightarrow> bool" where
  "reads I P parser \<longleftrightarrow> (\<forall>bs v rest. I bs \<longrightarrow> parser bs = Ok (v, rest) \<longrightarrow> P v \<and> I rest)"

definition decodes :: "(bytes \<Rightarrow> bool) \<Rightarrow> ('a \<Rightarrow> bool) \<Rightarrow> (bytes \<Rightarrow> 'a outcome) \<Rightarrow> bool" where
  "decodes I P dec \<longleftrightarrow> (\<forall>bs v. I bs \<longrightarrow> dec bs = Ok v \<longrightarrow> P v)"

lemma readsD: "reads I P parser \<Longrightarrow> parser bs = Ok (v, rest) \<Longrightarrow> I bs \<Longrightarrow> P v \<and> I rest"
  by (auto simp: reads_def)

lemma decodesD: "decodes I P dec \<Longrightarrow> dec bs = Ok v \<Longrightarrow> I bs \<Longrightarrow> P v"
  by (auto simp: decodes_def)

lemma decodes_bind:
  assumes "reads I Q parser" "\<And>v. Q v \<Longrightarrow> decodes I P (next_fields v)"
  shows "decodes I P (\<lambda>bs. obind (parser bs) (\<lambda>(v, bs). next_fields v bs))"
  using assms unfolding decodes_def reads_def by (fastforce simp: outcome_simps)

lemma decodes_return: "P v \<Longrightarrow> decodes I P (\<lambda>_. Ok v)"
  by (simp add: decodes_def)

lemma parseElements_reads:
  "reads I P elt \<Longrightarrow> parseElements elt n bs = Ok xs \<Longrightarrow> I bs \<Longrightarrow> \<forall>x \<in> set xs. P x"
proof (induction n arbitrary: bs xs)
  case (Suc n)
  then obtain x rest ys where x: "elt bs = Ok (x, rest)" "parseElements elt n rest = Ok ys" "xs = x # ys"
    by (auto simp: outcome_simps)
  from readsD [OF Suc.prems(1) x(1) Suc.prems(3)] Suc.IH [OF Suc.prems(1) x(2)] x(3)
  show ?case by simp
qed simp

locale input_invariant =
  fixes I :: "bytes \<Rightarrow> bool"
    and J :: "raw_value \<Rightarrow> bool"
  assumes element: "I (tlv c t k body @ rest) \<Longrightarrow> wf_tlv c t body \<Longrightarrow> J (raw_of c t k body) \<and> I rest"
    and inside: "J (raw_of c t True body) \<Longrightarrow> I body"
begin

lemma reads_field:
  assumes "\<not> fp_explicit p \<or> k = RawKind" and "fp_optional p \<Longrightarrow> P dflt"
    and "\<And>c t cpd body v. J (raw_of c t cpd body) \<Longrightarrow> wf_tlv c t body \<Longrightarrow>
      tags_match p k \<lparr>tl_class = c, tl_tag = t, tl_length = length body, tl_compound = cpd\<rparr> \<Longrightarrow>
      dec (raw_of c t cpd body) = Ok v \<Longrightarrow> P v"
  shows "reads I P (field p k dec dflt)"
  unfolding reads_def
proof (intro allI impI)
  fix bs v rest
  assume I: "I bs" and parse: "field p k dec dflt bs = Ok (v, rest)"
  from parse obtain rv where rv: "parseField p k bs = Ok (rv, rest)"
    and v: "case rv of None \<Rightarrow> v = dflt | Some rv \<Rightarrow> dec rv = Ok v"
    by (auto simp: field_def outcome_simps split: option.splits)
  show "P v \<and> I rest"
  proof (cases rv)
    case None
    then show ?thesis using parseField_missing [of p k bs rest] rv v assms(2) I by simp
  next
    case (Some rv')
    then obtain c t cpd body where el: "bs = tlv c t cpd body @ rest" "rv' = raw_of c t cpd body" "wf_tlv c t body"
      "tags_match p k \<lparr>tl_class = c, tl_tag = t, tl_length = length body, tl_compound = cpd\<rparr>"
      using parseField_present [of p k bs rv' rest] rv assms(1) by metis
    have "J (raw_of c t cpd body)" "I rest" using element [of c t cpd body rest] I el(1,3) by simp_all
    then show ?thesis using Some v assms(3) el(2-4) by simp
  qed
qed

lemma reads_any: "\<not> fp_explicit p \<or> k = RawKind \<Longrightarrow> reads I (\<lambda>_. True) (field p k dec dflt)"
  by (rule reads_field) simp_all

lemma reads_raw:
  assumes "fp_optional p \<Longrightarrow> P nil_raw" "\<And>c t k body. J (raw_of c t k body) \<Longrightarrow> wf_tlv c t body \<Longrightarrow> P (raw_of c t k body)"
  shows "reads I P (raw_field p)"
  by (rule reads_field) (use assms in auto)

lemma reads_struct:
  assumes "\<not> fp_explicit p" "fp_optional p \<Longrightarrow> P zero" "decodes I P parse"
  shows "reads I P (struct_field p parse zero)"
  unfolding struct_field_def
proof (rule reads_field)
  fix c t cpd body v
  assume "J (raw_of c t cpd body)" "contents parse (raw_of c t cpd body) = Ok v"
    and "tags_match p SeqKind \<lparr>tl_class = c, tl_tag = t, tl_length = length body, tl_compound = cpd\<rparr>"
  then show "P v"
    using decodesD [OF assms(3), of body v] inside [of c t body] by (simp add: contents_def tags_match_def Let_def)
qed (use assms(1,2) in simp_all)

lemma reads_slice:
  assumes "\<not> fp_explicit p" "reads I P elt"
  shows "reads I (\<lambda>xs. \<forall>x \<in> set (elems xs). P x) (slice_field p k elt)"
  unfolding slice_field_def
proof (rule reads_field)
  fix c t cpd body xs
  assume "J (raw_of c t cpd body)"
    "contents (\<lambda>bs. obind (parseSequenceOf k elt bs) (\<lambda>xs. Ok (Some xs))) (raw_of c t cpd body) = Ok xs"
    "tags_match p SeqKind \<lparr>tl_class = c, tl_tag = t, tl_length = length body, tl_compound = cpd\<rparr>"
  then show "\<forall>x \<in> set (elems xs). P x"
    using parseElements_reads [OF assms(2)] inside [of c t body]
    by (auto simp: contents_def parseSequenceOf_def outcome_simps tags_match_def Let_def)
qed (use assms(1) in auto)

lemma reads_struct_any: "\<not> fp_explicit p \<Longrightarrow> reads I (\<lambda>_. True) (struct_field p parse zero)"
  unfolding struct_field_def by (rule reads_any) simp

lemma reads_octets: "\<not> fp_explicit p \<Longrightarrow> reads I (\<lambda>_. True) (octets_field p)"
  unfolding octets_field_def by (rule reads_any) simp

lemma reads_slice_any: "\<not> fp_explicit p \<Longrightarrow> reads I (\<lambda>_. True) (slice_field p k elt)"
  unfolding slice_field_def by (rule reads_any) simp

end

subsection \<open>The elements of DER\<close>

text \<open>What a parser reads at the front of the encoding of a tree is the whole encoding, and its contents
  are the subtrees of a constructed element.\<close>

lemma and_20: "(b AND (0x20 :: byte)) \<noteq> 0 \<longleftrightarrow> odd (unat b div 32)"
proof -
  have "(0x20 :: byte) = 2 ^ 5" by simp
  then have "(b AND (0x20 :: byte)) \<noteq> 0 \<longleftrightarrow> bit b 5" by (simp only: and_exp_eq_0_iff_not_bit not_not)
  also have "\<dots> \<longleftrightarrow> bit (unat b) 5" by (simp add: bit_unsigned_iff)
  also have "\<dots> \<longleftrightarrow> odd (unat b div 32)" by (simp add: bit_iff_odd)
  finally show ?thesis .
qed

lemma parseTagAndLength_compound:
  assumes "wf_tag tag constructed" "parseTagAndLength (tag @ bs) = Ok (t, rest)"
  shows "tl_compound t = constructed"
proof -
  obtain b ts where "tag = b # ts" using assms(1) by (cases tag) (auto simp: wf_tag_def)
  then show ?thesis
    using assms and_20 [of b] by (auto simp: wf_tag_def outcome_simps split: if_splits prod.splits)
qed

lemma subtree_tlv:
  assumes "wf_object obj" "length (der obj) < 2 ^ 63" "wf_tlv c t body"
    and "der obj @ post = tlv c t k body @ rest"
  shows "der obj = tlv c t k body" and "post = rest"
    and "(\<exists>tag len. obj = asn1Primitive tag len body \<and> \<not> k) \<or>
      (\<exists>tag content. obj = asn1Structured tag content \<and> k \<and> body = concat (map der content))"
proof -
  let ?t = "\<lparr>tl_class = c, tl_tag = t, tl_length = length body, tl_compound = k\<rparr>"
  have parse: "parseTagAndLength (der obj @ post) = Ok (?t, body @ rest)"
    unfolding assms(4) by (rule parseTagAndLength_tlv [OF assms(3)])
  have "post = rest \<and> ((\<exists>tag len. obj = asn1Primitive tag len body \<and> \<not> k) \<or>
      (\<exists>tag content. obj = asn1Structured tag content \<and> k \<and> body = concat (map der content)))"
  proof (cases obj)
    case (asn1Primitive tag len content)
    then have "body @ rest = content @ post" "length body = length content" "\<not> k"
      using assms parse parseTagAndLength_wf_tag [of tag False len "content @ post" ?t "body @ rest"]
        parseTagAndLength_compound [of tag False "length_octets len @ content @ post" ?t "body @ rest"] by simp_all
    then show ?thesis using asn1Primitive by simp
  next
    case (asn1Structured tag content)
    let ?body = "concat (map der content)"
    have "length ?body < 2 ^ 63" using assms(2) asn1Structured by simp
    then have "body @ rest = ?body @ post" "length body = length ?body" "k"
      using assms parse asn1Structured
        parseTagAndLength_wf_tag [of tag True "length ?body" "?body @ post" ?t "body @ rest"]
        parseTagAndLength_compound [of tag True "length_octets (length ?body) @ ?body @ post" ?t "body @ rest"] by simp_all
    then show ?thesis using asn1Structured by simp
  qed
  then show "post = rest"
    and "(\<exists>tag len. obj = asn1Primitive tag len body \<and> \<not> k) \<or>
      (\<exists>tag content. obj = asn1Structured tag content \<and> k \<and> body = concat (map der content))" by blast+
  then show "der obj = tlv c t k body" using assms(4) by simp
qed

end
