(* ===== verification/Token_Order.thy ===== *)
theory Token_Order
  imports Cms Input_Invariant "HOL-Library.Multiset_Order"
begin

text \<open>
  Why verification ends.  A timestamp token is itself a signed message, whose signatures may carry
  tokens.  The transcoder can lengthen a message, and a child that runs past its parent is read twice,
  so the length of the bytes does not decrease from a message to its tokens.  What decreases is the
  multiset of the elements of the tree that \<open>readObject\<close> builds, where a primitive element counts with
  its length: a token is a proper subtree, or it lies in the contents of a primitive element and all
  its elements are smaller than that one.
\<close>

subsection \<open>The elements of a message\<close>

primrec element_sizes :: "asn1Object \<Rightarrow> nat multiset" where
  "element_sizes (asn1Primitive tag len content) = {#Suc (length content)#}"
| "element_sizes (asn1Structured tag content) = add_mset 0 (\<Sum>\<^sub># (mset (map element_sizes content)))"

definition message_sizes :: "bytes \<Rightarrow> nat multiset" where
  "message_sizes bs = (case readObject bs 0 of Ok (obj, _) \<Rightarrow> element_sizes obj | _ \<Rightarrow> {#})"

abbreviation smaller :: "(nat multiset \<times> nat multiset) set" where
  "smaller \<equiv> mult less_than"

lemma element_sizes_less: "readObject bs 0 = Ok (obj, offset) \<Longrightarrow> \<forall>n \<in># element_sizes obj. n < length bs"
proof -
  assume read: "readObject bs 0 = Ok (obj, offset)"
  then have "0 < length bs" using readObject_forward(1) by fastforce
  then have "builds bs (\<lambda>obj. \<forall>n \<in># element_sizes obj. n < length bs)"
    by (auto simp: builds_def)
  with read show ?thesis by (rule readObject_builds)
qed

lemma message_sizes_short:
  assumes "length bs \<le> n" "Suc n \<in># W"
  shows "(message_sizes bs, W) \<in> smaller"
proof -
  have "k < Suc n" if "k \<in># message_sizes bs" for k
  proof (cases "readObject bs 0")
    case (Ok r)
    then obtain obj offset where "readObject bs 0 = Ok (obj, offset)" by (cases r) simp
    then show ?thesis using that element_sizes_less assms(1) by (fastforce simp: message_sizes_def)
  qed (use that in \<open>simp_all add: message_sizes_def\<close>)
  then have "\<forall>k \<in># message_sizes bs. \<exists>j \<in># W. (k, j) \<in> less_than"
    using assms(2) by auto
  moreover have "W \<noteq> {#}" using assms(2) by auto
  ultimately have "({#} + message_sizes bs, {#} + W) \<in> smaller"
    by (intro one_step_implies_mult) simp_all
  then show ?thesis by simp
qed

lemma message_sizes_der:
  assumes "wf_object obj" "length (der obj) < 2 ^ 31"
  shows "message_sizes (der obj) = element_sizes obj"
  using readObject_complete [OF ber_encodes_der [OF assms], of "[]" "[]"] by (simp add: message_sizes_def)

subsection \<open>Octets within a message\<close>

text \<open>
  The octets the parsers of the CMS types get to see are the encodings of consecutive subtrees, or lie
  in the contents of a primitive element.
\<close>

definition within :: "nat multiset \<Rightarrow> bytes \<Rightarrow> bool" where
  "within W bs \<longleftrightarrow>
     (\<exists>objs. bs = concat (map der objs) \<and> length bs < 2 ^ 31 \<and>
        (\<forall>obj \<in> set objs. wf_object obj \<and> element_sizes obj \<subset># W)) \<or>
     (\<exists>n. Suc n \<in># W \<and> length bs \<le> n)"

lemma subtree_within:
  assumes "wf_object obj" "length (der obj) < 2 ^ 63" "wf_tlv c t body"
    and "der obj @ post = tlv c t k body @ rest" and sub: "element_sizes obj \<subseteq># W"
  shows "within W body"
  using subtree_tlv(3) [OF assms(1-4)]
proof (elim disjE exE conjE)
  fix tag len
  assume "obj = asn1Primitive tag len body"
  then show ?thesis using sub unfolding within_def by (intro disjI2 exI [of _ "length body"]) simp
next
  fix tag content
  assume obj: "obj = asn1Structured tag content" "body = concat (map der content)"
  have "element_sizes x \<subset># W" if "x \<in> set content" for x
  proof -
    have "element_sizes x \<subseteq># \<Sum>\<^sub># (mset (map element_sizes content))"
      using that by (induction content) (auto intro: subset_mset.add_increasing subset_mset.add_increasing2)
    also have "\<dots> \<subset># element_sizes obj" by (simp add: obj(1))
    finally show ?thesis using sub by (rule subset_mset.less_le_trans)
  qed
  then show ?thesis
    using assms(1,3) obj unfolding within_def
    by (intro disjI1 exI [of _ content]) (simp add: wf_tlv_def)
qed

lemma within_root:
  assumes "wf_object obj" "length (der obj) < 2 ^ 63" "wf_tlv c t body" "der obj = tlv c t k body @ rest"
  shows "within (element_sizes obj) body"
  using subtree_within [OF assms(1-3), of "[]"] assms(4) by simp

text \<open>An element read within a message: its contents and what follows it are within, and as a message
  of its own it is smaller.\<close>

definition raw_within :: "nat multiset \<Rightarrow> raw_value \<Rightarrow> bool" where
  "raw_within W rv \<longleftrightarrow> within W (elems (rv_Bytes rv)) \<and>
     (message_sizes (elems (rv_FullBytes rv)), W) \<in> smaller"

lemma within_tlv:
  assumes W: "within W (tlv c t k body @ rest)" and wf: "wf_tlv c t body"
  shows "raw_within W (raw_of c t k body)" and "within W rest"
proof -
  have "raw_within W (raw_of c t k body) \<and> within W rest"
    using W unfolding within_def [of W "tlv c t k body @ rest"]
  proof (elim disjE exE conjE)
    fix objs
    assume bs: "tlv c t k body @ rest = concat (map der objs)" and len: "length (tlv c t k body @ rest) < 2 ^ 31"
      and objs: "\<forall>obj \<in> set objs. wf_object obj \<and> element_sizes obj \<subset># W"
    have "objs \<noteq> []" using bs by auto
    then obtain obj post where o: "objs = obj # post" by (cases objs) auto
    have "length (concat (map der objs)) < 2 ^ 31" using len unfolding bs .
    then have lens: "length (der obj) < 2 ^ 31" "length (concat (map der post)) < 2 ^ 31" by (simp_all add: o)
    have wf_o: "wf_object obj" "element_sizes obj \<subset># W" using objs o by simp_all
    have eq: "der obj @ concat (map der post) = tlv c t k body @ rest" using bs o by simp
    have "length (der obj) < 2 ^ 63" using lens(1) by simp
    note tlv = subtree_tlv [OF wf_o(1) this wf eq]
    have "message_sizes (tlv c t k body) = element_sizes obj"
      using message_sizes_der [OF wf_o(1) lens(1)] tlv(1) by simp
    moreover have "(element_sizes obj, W) \<in> smaller" using wf_o(2) by (rule subset_implies_mult)
    moreover have "within W rest"
      unfolding within_def using objs o lens(2) tlv(2) by (intro disjI1 exI [of _ post]) auto
    ultimately show ?thesis
      using subtree_within [OF wf_o(1) \<open>length (der obj) < 2 ^ 63\<close> wf eq] wf_o(2)
      by (simp add: raw_within_def subset_mset.less_imp_le)
  next
    fix n
    assume n: "Suc n \<in># W" "length (tlv c t k body @ rest) \<le> n"
    then have "length body \<le> n" "length rest \<le> n" "length (tlv c t k body) \<le> n"
      using length_tlv_less [of body c t k] by simp_all
    then show ?thesis
      using n(1) message_sizes_short [of "tlv c t k body" n W] by (auto simp: raw_within_def within_def)
  qed
  then show "raw_within W (raw_of c t k body)" and "within W rest" by blast+
qed

lemma message_sizes_Nil [simp]: "message_sizes [] = {#}"
  by (simp add: message_sizes_def readObject.simps readHeader_def byte_at_def)

lemma raw_within_nil: "W \<noteq> {#} \<Longrightarrow> raw_within W nil_raw"
  using subset_implies_mult [of "{#}" W less_than]
  by (auto simp: raw_within_def nil_raw_def within_def subset_mset.less_le intro: exI [of _ "[]"])

lemma within_take:
  assumes "unmarshal_raw bs = Ok (rv, rest)" "within W bs"
  shows "raw_within W rv \<and> within W rest"
  using assms within_tlv by (auto elim!: unmarshal_raw_canonical)

interpretation sizes: input_invariant "within W" "raw_within W" for W
proof unfold_locales
  fix c t k body rest
  assume "within W (tlv c t k body @ rest)" "wf_tlv c t body"
  then show "raw_within W (raw_of c t k body) \<and> within W rest" using within_tlv by blast
next
  fix c t body
  assume "raw_within W (raw_of c t True body)"
  then show "within W body" by (simp add: raw_within_def)
qed

subsection \<open>The tokens of a parsed message\<close>

definition attributes_within :: "nat multiset \<Rightarrow> SignerInfo \<Rightarrow> bool" where
  "attributes_within W si \<longleftrightarrow> (\<forall>a \<in> set (elems (UnsignedAttrs si)). raw_within W (attr_RawValue a))"

lemma reads_raw_within: "W \<noteq> {#} \<Longrightarrow> reads (within W) (raw_within W) (raw_field p)"
  by (rule sizes.reads_raw) (auto intro: raw_within_nil)

lemma decodes_Attribute: "W \<noteq> {#} \<Longrightarrow> decodes (within W) (\<lambda>a. raw_within W (attr_RawValue a)) parse_Attribute"
  unfolding parse_Attribute_def
  by (intro decodes_bind [OF sizes.reads_any] decodes_bind [OF reads_raw_within] decodes_return) simp_all

lemma reads_attributes:
  "W \<noteq> {#} \<Longrightarrow> \<not> fp_explicit p \<Longrightarrow>
     reads (within W) (\<lambda>as. \<forall>a \<in> set (elems as). raw_within W (attr_RawValue a)) (attributes_field p)"
  unfolding attributes_field_def
  by (intro sizes.reads_slice sizes.reads_struct decodes_Attribute) simp_all

lemma decodes_SignerInfo: "W \<noteq> {#} \<Longrightarrow> decodes (within W) (attributes_within W) parse_SignerInfo"
  unfolding parse_SignerInfo_def
  by (intro decodes_bind [OF sizes.reads_any] decodes_bind [OF reads_raw_within] decodes_bind [OF sizes.reads_struct_any]
      decodes_bind [OF reads_attributes] decodes_bind [OF sizes.reads_octets] decodes_return)
    (simp_all add: attributes_within_def tag_defs)

lemma decodes_SignedData:
  "W \<noteq> {#} \<Longrightarrow> decodes (within W) (\<lambda>sd. \<forall>si \<in> set (SignerInfos sd). attributes_within W si) parse_SignedData"
  unfolding parse_SignedData_def
  by (intro decodes_bind [OF sizes.reads_any] decodes_bind [OF sizes.reads_struct_any]
      decodes_bind [OF sizes.reads_slice [OF _ sizes.reads_struct [OF _ _ decodes_SignerInfo]]]
      decodes_bind [OF sizes.reads_slice_any] decodes_return)
    (simp_all add: tag_defs)

lemma decodes_ContentInfo: "W \<noteq> {#} \<Longrightarrow> decodes (within W) (\<lambda>ci. raw_within W (Content ci)) parse_ContentInfo_body"
  unfolding parse_ContentInfo_body_def
  by (intro decodes_bind [OF sizes.reads_any] decodes_bind [OF reads_raw_within] decodes_return) simp_all

lemma no_trailing_Ok: "no_trailing r = Ok v \<longleftrightarrow> r = Ok (v, [])"
  by (auto simp: no_trailing_def outcome_simps split: if_splits)

text \<open>Every unsigned attribute of a message that was parsed lies within it.\<close>

lemma ParseSignedData_within:
  assumes "ParseSignedData bs = Ok sd" "si \<in> set (SignerInfos sd)"
  shows "attributes_within (message_sizes bs) si"
proof -
  from assms(1) obtain ci out where out: "BER2DER bs = Ok out"
    and ci: "struct_field plain parse_ContentInfo_body nil_ContentInfo out = Ok (ci, [])"
    and sd: "struct_field plain parse_SignedData nil_SignedData (elems (rv_Bytes (Content ci))) = Ok (sd, [])"
    by (auto simp: ParseSignedData_def ParseContentInfo_def SignedDataContent_def outcome_simps no_trailing_Ok
        split: if_splits)
  from out obtain obj offset where read: "readObject bs 0 = Ok (obj, offset)" and obj: "wf_object obj" "out = der obj"
    and len: "length out < 2 ^ 63" by (rule BER2DER_Ok_der)
  let ?W = "element_sizes obj"
  have W: "?W \<noteq> {#}" by (cases obj) simp_all
  obtain body where body: "out = tlv 0 16 True body @ []" "length body < 2 ^ 31" "parse_ContentInfo_body body = Ok ci"
    using struct_field_plain_tag [OF ci] unfolding seq_tlv_def by metis
  have "within ?W body"
  proof (rule within_root)
    show "wf_object obj" "length (der obj) < 2 ^ 63" "wf_tlv 0 16 body" "der obj = tlv 0 16 True body @ []"
      using obj len body by (simp_all add: wf_tlv_def)
  qed
  then have "raw_within ?W (Content ci)" using decodesD [OF decodes_ContentInfo [OF W] body(3)] by simp
  then have "within ?W (elems (rv_Bytes (Content ci)))" by (simp add: raw_within_def)
  moreover have "reads (within ?W) (\<lambda>sd. \<forall>si \<in> set (SignerInfos sd). attributes_within ?W si)
      (struct_field plain parse_SignedData nil_SignedData)"
    by (intro sizes.reads_struct decodes_SignedData W) simp_all
  ultimately have "attributes_within ?W si" using sd assms(2) unfolding reads_def by blast
  then show ?thesis using read by (simp add: message_sizes_def)
qed

lemma decode_elements_within:
  "decode_elements bs = Ok rvs \<Longrightarrow> within W bs \<Longrightarrow> \<forall>rv \<in> set rvs. raw_within W rv"
proof (induction bs arbitrary: rvs rule: decode_elements.induct)
  case (1 bs)
  show ?case
  proof (cases "bs = []")
    case True
    then show ?thesis using "1.prems" by (simp add: decode_elements.simps)
  next
    case False
    then obtain rv rest rvs' where *: "unmarshal_raw bs = Ok (rv, rest)" "decode_elements rest = Ok rvs'"
      "rvs = rv # rvs'"
      using "1.prems"(1) by (subst (asm) decode_elements.simps) (auto simp: outcome_simps)
    then show ?thesis using "1.IH" [OF False *(1) refl *(2)] within_take [OF *(1) "1.prems"(2)] by simp
  qed
qed

text \<open>The bytes of the token of a signer: those that \<open>getTimestamp\<close> hands to \<open>ParseSignedData\<close>.\<close>

definition token_bytes :: "SignerInfo \<Rightarrow> bytes outcome" where
  "token_bytes si =
     obind (GetOnlyAttributeValueBytes (UnsignedAttrs si) AttributeTimeStampToken)
       (\<lambda>rv. Ok (elems (rv_FullBytes rv)))"

text \<open>The tokens in a message are smaller than the message.\<close>

lemma token_smaller:
  assumes "ParseSignedData bs = Ok sd" "si \<in> set (SignerInfos sd)" "token_bytes si = Ok token"
  shows "(message_sizes token, message_sizes bs) \<in> smaller"
proof -
  from assms(3) obtain rv where rv: "GetOnlyAttributeValueBytes (UnsignedAttrs si) AttributeTimeStampToken = Ok rv"
    and token: "token = elems (rv_FullBytes rv)"
    by (auto simp: token_bytes_def outcome_simps)
  obtain a where "filter (\<lambda>a. attr_Type a = AttributeTimeStampToken) (elems (UnsignedAttrs si)) = [a]"
    and dec: "DecodeAnySet (attr_RawValue a) = Ok \<lparr>Elements = Some [rv]\<rparr>"
    using rv by (auto simp: GetOnlyAttributeValueBytes_Ok_iff)
  then have "a \<in> set (filter (\<lambda>a. attr_Type a = AttributeTimeStampToken) (elems (UnsignedAttrs si)))" by simp
  then have a: "a \<in> set (elems (UnsignedAttrs si))" by simp
  have "within (message_sizes bs) (elems (rv_Bytes (attr_RawValue a)))"
    using ParseSignedData_within [OF assms(1,2)] a by (auto simp: attributes_within_def raw_within_def)
  moreover have "decode_elements (elems (rv_Bytes (attr_RawValue a))) = Ok [rv]"
    using dec by (auto simp: DecodeAnySet_def outcome_simps go_append_None split: if_splits)
  ultimately have "raw_within (message_sizes bs) rv" using decode_elements_within by fastforce
  then show ?thesis by (simp add: raw_within_def token)
qed

end
