(* ===== verification/Cms_Verify.thy ===== *)
theory Cms_Verify
  imports Token_Order
begin

text \<open>
  ietf-cms/verify.go, with \<open>getTimestamp\<close> of ietf-cms/timestamp.go: the four functions call each other.
  \<open>Verify\<close> checks the signatures of a message; for a signature with a timestamp \<open>getTimestamp\<close>
  verifies the token, which is again a message.  All of them work on one pool of intermediate
  certificates, which the outermost call takes from the options and every call only extends; it is
  threaded through, also when a call fails.  \<open>None\<close> is a nil pool.
\<close>

subsection \<open>The recursion\<close>

text \<open>The tokens that the signers of a list hold, by the sizes of their elements.\<close>

definition pending :: "SignerInfo list \<Rightarrow> nat multiset multiset" where
  "pending sis = \<Sum>\<^sub># (mset (map (\<lambda>si.
     case token_bytes si of Ok token \<Rightarrow> {#message_sizes token#} | _ \<Rightarrow> {#}) sis))"

lemma pending_Cons: "pending (si # sis) = pending [si] + pending sis"
  by (simp add: pending_def)

lemma pending_mono: "(pending [si], pending (si # sis)) \<in> mult smaller \<or> pending [si] = pending (si # sis)"
  "(pending sis, pending (si # sis)) \<in> mult smaller \<or> pending sis = pending (si # sis)"
  using subset_implies_mult [of "pending [si]" "pending (si # sis)"]
    subset_implies_mult [of "pending sis" "pending (si # sis)"]
  by (auto simp: pending_Cons [of si sis] subset_mset.less_le)

lemma timestamp_token_Ok:
  assumes "timestamp_token si = Ok (tst, tsti)"
  obtains token where "token_bytes si = Ok token" "ParseSignedData token = Ok tst"
    "ParseInfo (EncapContentInfo tst) = Ok tsti" "tsti_Version tsti = 1"
  using assms by (auto simp: timestamp_token_def token_bytes_def outcome_simps split: if_splits)

lemma pending_token:
  assumes "timestamp_token si = Ok (tst, tsti)"
  shows "(pending (SignerInfos tst), pending [si]) \<in> mult smaller"
proof -
  obtain token where token: "token_bytes si = Ok token" "ParseSignedData token = Ok tst"
    using timestamp_token_Ok [OF assms] .
  have "\<exists>j \<in># {#message_sizes token#}. (k, j) \<in> smaller" if k: "k \<in># pending (SignerInfos tst)" for k
  proof -
    obtain si' where "si' \<in> set (SignerInfos tst)"
      and "k \<in># (case token_bytes si' of Ok token \<Rightarrow> {#message_sizes token#} | _ \<Rightarrow> {#})"
      using k by (auto simp: pending_def)
    then obtain token' where "token_bytes si' = Ok token'" "k = message_sizes token'"
      by (auto split: outcome.splits)
    then show ?thesis using token_smaller [OF token(2) \<open>si' \<in> set (SignerInfos tst)\<close>] by simp
  qed
  then have "({#} + pending (SignerInfos tst), {#} + {#message_sizes token#}) \<in> mult smaller"
    by (intro one_step_implies_mult) auto
  then show ?thesis using token(1) by (simp add: pending_def)
qed

function Verify :: "crypto \<Rightarrow> x509 \<Rightarrow> verify_options \<Rightarrow> certificate slice \<Rightarrow> SignedData
    \<Rightarrow> certificate list \<times> certificate list list list outcome"
  and verify :: "crypto \<Rightarrow> x509 \<Rightarrow> bytes \<Rightarrow> verify_options \<Rightarrow> certificate slice \<Rightarrow> SignedData
    \<Rightarrow> certificate list \<times> certificate list list list outcome"
  and verify_signers :: "crypto \<Rightarrow> x509 \<Rightarrow> certificate slice \<Rightarrow> bytes \<Rightarrow> EncapsulatedContentInfo
    \<Rightarrow> verify_options \<Rightarrow> certificate list \<Rightarrow> SignerInfo list
    \<Rightarrow> certificate list \<times> certificate list list list outcome"
  and getTimestamp :: "crypto \<Rightarrow> x509 \<Rightarrow> SignerInfo \<Rightarrow> verify_options \<Rightarrow> certificate list
    \<Rightarrow> certificate list \<times> Info outcome"
where
  "Verify c x opts pool sd =
     attempt (elems pool) (EContentValue (EncapContentInfo sd)) (\<lambda>econtent.
       case econtent of
         None \<Rightarrow> (elems pool, Err (ErrorString ''detached signature''))
       | Some econtent \<Rightarrow> verify c x econtent opts pool sd)"
| "verify c x econtent opts pool sd =
     (if length (SignerInfos sd) = 0 then (elems pool, Err (ASN1Error ''no signatures found''))
      else attempt (elems pool) (X509Certificates c sd) (\<lambda>certs.
        verify_signers c x certs econtent (EncapContentInfo sd) opts
          (foldl AddCert (elems pool) (elems certs)) (SignerInfos sd)))"
| "verify_signers c x certs econtent eci opts pool [] = (pool, Ok [])"
| "verify_signers c x certs econtent eci opts pool (si # sis) =
     attempt pool (check_signer c x certs econtent eci si) (\<lambda>cert.
     attempt pool (hasTimestamp si) (\<lambda>hasTS.
     case (if \<not> hasTS then (pool, Ok opts)
           else case getTimestamp c x si (opts\<lparr>KeyUsages := [ExtKeyUsageTimeStamping]\<rparr>) pool of
             (pool, tsti) \<Rightarrow> (pool, obind tsti (\<lambda>tsti. timestamp_options cert tsti opts)))
       of (pool, optsCopy) \<Rightarrow>
     attempt pool optsCopy (\<lambda>optsCopy.
     attempt pool (Verify_certificate x cert optsCopy pool) (\<lambda>chain.
     case verify_signers c x certs econtent eci opts pool sis of
       (pool, others) \<Rightarrow> (pool, obind others (\<lambda>others. Ok (chain # others)))))))"
| "getTimestamp c x si opts pool =
     attempt pool (timestamp_token si) (\<lambda>(tst, tsti).
     case Verify c x opts (Some pool) tst of
       (pool, verified) \<Rightarrow> (pool, obind verified (\<lambda>_. check_imprint c si tsti)))"
  by pat_completeness auto

termination
proof (relation "inv_image (mult smaller <*lex*> less_than) (\<lambda>call. case call of
      Inl (Inl (c, x, opts, pool, sd)) \<Rightarrow> (pending (SignerInfos sd), 3 * length (SignerInfos sd) + 2)
    | Inl (Inr (c, x, econtent, opts, pool, sd)) \<Rightarrow> (pending (SignerInfos sd), 3 * length (SignerInfos sd) + 1)
    | Inr (Inl (c, x, certs, econtent, eci, opts, pool, sis)) \<Rightarrow> (pending sis, 3 * length sis)
    | Inr (Inr (c, x, si, opts, pool)) \<Rightarrow> (pending [si], 0))", goal_cases)
  case 1
  show ?case by (intro wf_inv_image wf_lex_prod wf_mult wf_less_than)
qed (use pending_mono pending_token in \<open>auto\<close>)

text \<open>The recursion is unfolded by hand from here on.\<close>

declare Verify.simps [simp del] verify.simps [simp del] getTimestamp.simps [simp del]

text \<open>The pool after the timestamp of a signer, and the options its chain is verified with.\<close>

definition signer_options :: "crypto \<Rightarrow> x509 \<Rightarrow> certificate \<Rightarrow> verify_options \<Rightarrow> certificate list \<Rightarrow> SignerInfo
    \<Rightarrow> bool \<Rightarrow> certificate list \<times> verify_options outcome" where
  "signer_options c x cert opts pool si hasTS =
     (if \<not> hasTS then (pool, Ok opts)
      else case getTimestamp c x si (opts\<lparr>KeyUsages := [ExtKeyUsageTimeStamping]\<rparr>) pool of
        (pool, tsti) \<Rightarrow> (pool, obind tsti (\<lambda>tsti. timestamp_options cert tsti opts)))"

lemma verify_signers_Cons:
  "verify_signers c x certs econtent eci opts pool (si # sis) =
     attempt pool (check_signer c x certs econtent eci si) (\<lambda>cert.
     attempt pool (hasTimestamp si) (\<lambda>hasTS.
     case signer_options c x cert opts pool si hasTS of (pool, optsCopy) \<Rightarrow>
     attempt pool optsCopy (\<lambda>optsCopy.
     attempt pool (Verify_certificate x cert optsCopy pool) (\<lambda>chain.
     case verify_signers c x certs econtent eci opts pool sis of
       (pool, others) \<Rightarrow> (pool, obind others (\<lambda>others. Ok (chain # others)))))))"
  by (simp add: signer_options_def)

definition VerifyDetached :: "crypto \<Rightarrow> x509 \<Rightarrow> bytes \<Rightarrow> verify_options \<Rightarrow> certificate slice \<Rightarrow> SignedData
    \<Rightarrow> certificate list \<times> certificate list list list outcome" where
  "VerifyDetached c x message opts pool sd =
     (if rv_Bytes (EContent (EncapContentInfo sd)) \<noteq> None
      then (elems pool, Err (ErrorString ''signature not detached''))
      else verify c x message opts pool sd)"

end
