(* ===== verification/User_Id.thy ===== *)
theory User_Id
  imports Protocol Go_Strings
begin

text \<open>
  parse_user_id.go and utils.go: taking a user id apart, and the tests that select an identity by
  fingerprint or email address.  Strings are octets; the loop of \<open>parseUserID\<close> ranges over runes, which
  are decoded as Go does.
\<close>

subsection \<open>Runes and white space\<close>

text \<open>
  \<open>utf8.DecodeRuneInString\<close>: the rune at the start of a non-empty string and its width; an octet that
  starts no valid encoding counts as one replacement character.
\<close>

definition decode_rune :: "nat list \<Rightarrow> nat \<times> nat" where
  "decode_rune bs =
     (case bs of
        [] \<Rightarrow> (0xFFFD, 0)
      | b # cs \<Rightarrow>
          if b < 0x80 then (b, 1)
          else case cs of
            [] \<Rightarrow> (0xFFFD, 1)
          | c # ds \<Rightarrow>
              if 0xC2 \<le> b \<and> b \<le> 0xDF \<and> continuation c then ((b - 0xC0) * 64 + (c - 0x80), 2)
              else case ds of
                [] \<Rightarrow> (0xFFFD, 1)
              | d # es \<Rightarrow>
                  if 0xE0 \<le> b \<and> b \<le> 0xEF \<and> second_octet b c \<and> continuation d
                  then ((b - 0xE0) * 4096 + (c - 0x80) * 64 + (d - 0x80), 3)
                  else case es of
                    [] \<Rightarrow> (0xFFFD, 1)
                  | e # _ \<Rightarrow>
                      if 0xF0 \<le> b \<and> b \<le> 0xF4 \<and> second_octet b c \<and> continuation d \<and> continuation e
                      then ((b - 0xF0) * 262144 + (c - 0x80) * 4096 + (d - 0x80) * 64 + (e - 0x80), 4)
                      else (0xFFFD, 1))"

definition codes :: "string \<Rightarrow> nat list" where
  "codes s = map of_char s"

lemma width_positive: "bs \<noteq> [] \<Longrightarrow> 0 < snd (decode_rune bs)"
  by (auto simp: decode_rune_def split: list.splits)

lemma codes_Nil_iff [simp]: "codes s = [] \<longleftrightarrow> s = []"
  by (simp add: codes_def)

text \<open>\<open>range\<close> over a string: its runes, each with the octets it was decoded from.\<close>

function runes :: "string \<Rightarrow> (nat \<times> string) list" where
  "runes s = (if s = [] then [] else
     case decode_rune (codes s) of (r, w) \<Rightarrow> (r, take w s) # runes (drop w s))"
  by pat_completeness auto

termination
proof (relation "measure length", goal_cases)
  case (2 s r w)
  then show ?case using width_positive [of "codes s"] by (metis codes_Nil_iff diff_less in_measure
      length_drop length_greater_0_conv snd_conv)
qed simp

declare runes.simps [simp del]

text \<open>\<open>unicode.IsSpace\<close>.\<close>

definition IsSpace :: "nat \<Rightarrow> bool" where
  "IsSpace r \<longleftrightarrow> (9 \<le> r \<and> r \<le> 13) \<or> r = 0x20 \<or> r = 0x85 \<or> r = 0xA0 \<or> r = 0x1680 \<or>
     (0x2000 \<le> r \<and> r \<le> 0x200A) \<or> r = 0x2028 \<or> r = 0x2029 \<or> r = 0x202F \<or> r = 0x205F \<or> r = 0x3000"

text \<open>
  \<open>strings.TrimSpace\<close>.  Go finds the last rune by decoding backwards; that is the last rune of the
  decoding from the front whenever either is a space, since no octet that starts an encoding can continue
  another.
\<close>

definition TrimSpace :: "string \<Rightarrow> string" where
  "TrimSpace s =
     concat (map snd (rev (dropWhile (IsSpace \<circ> fst) (rev (dropWhile (IsSpace \<circ> fst) (runes s))))))"

subsection \<open>parse_user_id.go\<close>

text \<open>The three spans \<open>n\<close>, \<open>c\<close> and \<open>e\<close> and the state of the loop.\<close>

record span =
  s_start :: nat
  s_end :: nat

record parser =
  p_n :: span
  p_c :: span
  p_e :: span
  p_state :: nat

definition init_parser :: parser where
  "init_parser = \<lparr>p_n = \<lparr>s_start = 0, s_end = 0\<rparr>, p_c = \<lparr>s_start = 0, s_end = 0\<rparr>,
     p_e = \<lparr>s_start = 0, s_end = 0\<rparr>, p_state = 0\<rparr>"

text \<open>The cases of the switch that the others fall through to.\<close>

definition in_name :: "nat \<Rightarrow> nat \<Rightarrow> parser \<Rightarrow> parser" where
  "in_name offset r p =
     (if r = of_char CHR ''('' then p\<lparr>p_state := 2, p_n := (p_n p)\<lparr>s_end := offset\<rparr>\<rparr>
      else if r = of_char CHR ''<'' then p\<lparr>p_state := 5, p_n := (p_n p)\<lparr>s_end := offset\<rparr>\<rparr>
      else p)"

definition in_comment :: "nat \<Rightarrow> nat \<Rightarrow> parser \<Rightarrow> parser" where
  "in_comment offset r p =
     (if r = of_char CHR '')'' then p\<lparr>p_state := 4, p_c := (p_c p)\<lparr>s_end := offset\<rparr>\<rparr> else p)"

definition in_email :: "nat \<Rightarrow> nat \<Rightarrow> parser \<Rightarrow> parser" where
  "in_email offset r p =
     (if r = of_char CHR ''>'' then p\<lparr>p_state := 7, p_e := (p_e p)\<lparr>s_end := offset\<rparr>\<rparr> else p)"

definition parser_step :: "nat \<Rightarrow> nat \<Rightarrow> parser \<Rightarrow> parser" where
  "parser_step offset r p =
     (if p_state p = 0 then in_name offset r (p\<lparr>p_n := (p_n p)\<lparr>s_start := offset\<rparr>, p_state := 1\<rparr>)
      else if p_state p = 1 then in_name offset r p
      else if p_state p = 2 then in_comment offset r (p\<lparr>p_c := (p_c p)\<lparr>s_start := offset\<rparr>, p_state := 3\<rparr>)
      else if p_state p = 3 then in_comment offset r p
      else if p_state p = 4 then (if r = of_char CHR ''<'' then p\<lparr>p_state := 5\<rparr> else p)
      else if p_state p = 5 then in_email offset r (p\<lparr>p_e := (p_e p)\<lparr>s_start := offset\<rparr>, p_state := 6\<rparr>)
      else if p_state p = 6 then in_email offset r p
      else p)"

fun parser_loop :: "nat \<Rightarrow> (nat \<times> string) list \<Rightarrow> parser \<Rightarrow> parser" where
  "parser_loop offset [] p = p"
| "parser_loop offset ((r, chunk) # rs) p = parser_loop (offset + length chunk) rs (parser_step offset r p)"

definition parser_finish :: "nat \<Rightarrow> parser \<Rightarrow> parser" where
  "parser_finish n p =
     (if p_state p = 1 then p\<lparr>p_n := (p_n p)\<lparr>s_end := n\<rparr>\<rparr>
      else if p_state p = 3 then p\<lparr>p_c := (p_c p)\<lparr>s_end := n\<rparr>\<rparr>
      else if p_state p = 6 then p\<lparr>p_e := (p_e p)\<lparr>s_end := n\<rparr>\<rparr>
      else p)"

text \<open>\<open>id[i:j]\<close> panics unless \<open>i \<le> j \<le> len(id)\<close>.\<close>

definition slice_of :: "string \<Rightarrow> span \<Rightarrow> string outcome" where
  "slice_of s sp =
     (if s_start sp \<le> s_end sp \<and> s_end sp \<le> length s then Ok (subslice s (s_start sp) (s_end sp))
      else Panic (PanicMsg ''slice bounds out of range''))"

definition parseUserID :: "string \<Rightarrow> (string \<times> string \<times> string) outcome" where
  "parseUserID s =
     (let p = parser_finish (length s) (parser_loop 0 (runes s) init_parser) in
      obind (slice_of s (p_n p)) (\<lambda>name.
      obind (slice_of s (p_c p)) (\<lambda>comment.
      obind (slice_of s (p_e p)) (\<lambda>email.
        Ok (TrimSpace name, TrimSpace comment, TrimSpace email)))))"

subsection \<open>utils.go\<close>

text \<open>\<open>encoding/hex\<close>: \<open>DecodeString\<close> takes both cases and an even number of digits only.\<close>

definition hex_digit :: "nat \<Rightarrow> char" where
  "hex_digit n = (if n < 10 then char_of (48 + n) else char_of (87 + n))"

definition hex_value :: "char \<Rightarrow> nat option" where
  "hex_value c =
     (let n = of_char c in
      if 48 \<le> n \<and> n \<le> 57 then Some (n - 48)
      else if 97 \<le> n \<and> n \<le> 102 then Some (n - 87)
      else if 65 \<le> n \<and> n \<le> 70 then Some (n - 55)
      else None)"

definition hex_EncodeToString :: "bytes \<Rightarrow> string" where
  "hex_EncodeToString bs = concat (map (\<lambda>b. [hex_digit (unat b div 16), hex_digit (unat b mod 16)]) bs)"

fun hex_DecodeString :: "string \<Rightarrow> bytes option" where
  "hex_DecodeString [] = Some []"
| "hex_DecodeString [_] = None"
| "hex_DecodeString (a # b # s) =
     (case (hex_value a, hex_value b, hex_DecodeString s) of
        (Some x, Some y, Some bs) \<Rightarrow> Some (octet (16 * x + y) # bs)
      | _ \<Rightarrow> None)"

text \<open>Only the length of the result is looked at, so nil is the empty list here.\<close>

definition normalizeFingerprint :: "string \<Rightarrow> bytes" where
  "normalizeFingerprint sfpr =
     (if length sfpr = 0 then []
      else let sfpr = (if take 2 sfpr = ''0x'' then drop 2 sfpr else sfpr) in
        case hex_DecodeString sfpr of None \<Rightarrow> [] | Some hfpr \<Rightarrow> hfpr)"

definition certFingerprint :: "crypto \<Rightarrow> certificate \<Rightarrow> bytes" where
  "certFingerprint c cert = (if length (Raw cert) = 0 then [] else hash_sum c SHA1 (Raw cert))"

definition certHexFingerprint :: "crypto \<Rightarrow> certificate \<Rightarrow> string" where
  "certHexFingerprint c cert = hex_EncodeToString (certFingerprint c cert)"

definition HasSuffix :: "bytes \<Rightarrow> bytes \<Rightarrow> bool" where
  "HasSuffix s suf \<longleftrightarrow> length suf \<le> length s \<and> drop (length s - length suf) s = suf"

definition certHasFingerprint :: "crypto \<Rightarrow> certificate \<Rightarrow> bytes \<Rightarrow> bool" where
  "certHasFingerprint c cert fpr \<longleftrightarrow> length fpr \<noteq> 0 \<and> HasSuffix (certFingerprint c cert) fpr"

definition normalizeEmail :: "string \<Rightarrow> string outcome" where
  "normalizeEmail email =
     obind (parseUserID email) (\<lambda>(name, _, email).
       if 0 < length email then Ok email
       else if CHR ''@'' \<in> set name then Ok name
       else Ok [])"

definition oidEmailAddress :: oid where
  "oidEmailAddress = [1, 2, 840, 113549, 1, 9, 1]"

definition oidCommonName :: oid where
  "oidCommonName = [2, 5, 4, 3]"

text \<open>
  The character classes of \<open>emailRegexp\<close> and its match.  No class contains the separator that follows
  it, so there is only one way to split a text.
\<close>

definition alphanumeric :: "char \<Rightarrow> bool" where
  "alphanumeric ch \<longleftrightarrow> (let n = of_char ch :: nat in
     (97 \<le> n \<and> n \<le> 122) \<or> (65 \<le> n \<and> n \<le> 90) \<or> (48 \<le> n \<and> n \<le> 57))"

definition local_char :: "char \<Rightarrow> bool" where
  "local_char ch \<longleftrightarrow> alphanumeric ch \<or> ch \<in> set ''_.+-''"

definition label_char :: "char \<Rightarrow> bool" where
  "label_char ch \<longleftrightarrow> alphanumeric ch \<or> ch = CHR ''-''"

definition domain_char :: "char \<Rightarrow> bool" where
  "domain_char ch \<longleftrightarrow> alphanumeric ch \<or> ch \<in> set ''-.''"

definition emailRegexp :: "string \<Rightarrow> bool" where
  "emailRegexp s =
     (case dropWhile local_char s of
        at # rest \<Rightarrow> at = CHR ''@'' \<and> takeWhile local_char s \<noteq> [] \<and>
          (case dropWhile label_char rest of
             dot # tld \<Rightarrow> dot = CHR ''.'' \<and> takeWhile label_char rest \<noteq> [] \<and>
               tld \<noteq> [] \<and> list_all domain_char tld
           | [] \<Rightarrow> False)
      | [] \<Rightarrow> False)"

definition certEmails :: "certificate \<Rightarrow> string list" where
  "certEmails cert =
     EmailAddresses cert @
     concat (map (\<lambda>(type, val).
       if type \<noteq> oidEmailAddress \<and> type \<noteq> oidCommonName then []
       else case val of
         Some email \<Rightarrow> if emailRegexp email then [email] else []
       | None \<Rightarrow> []) (Subject_Names cert))"

definition certHasEmail :: "certificate \<Rightarrow> string \<Rightarrow> bool" where
  "certHasEmail cert email \<longleftrightarrow> list_ex (\<lambda>other. other = email) (certEmails cert)"

end
