(* ===== verification/Key_Vault.thy ===== *)
theory Key_Vault
  imports Cms User_Id
begin

text \<open>
  The certificate store: the interface of certstore/certstore.go, its Linux implementation
  (certstore/certstore_linux.go) and the package azuresign it rests on.  The environment, the file
  system, the PEM decoder and the Azure libraries are arguments.
\<close>

subsection \<open>The interface\<close>

text \<open>
  A value of the interface \<open>Identity\<close> or \<open>Store\<close> is the record of its methods' results; \<open>Close\<close> has none.
  \<open>None\<close> as the result of \<open>Identities\<close> is a call that does not return.
\<close>

record identity =
  Certificate :: "certificate outcome"
  CertificateChain :: "certificate list outcome"
  Signer :: "signer outcome"
  Delete :: "unit outcome"

record store =
  Identities :: "identity list outcome option"
  Import :: "bytes \<Rightarrow> string \<Rightarrow> unit outcome"

subsection \<open>azuresign/config.go\<close>

record config =
  VaultURL :: string
  KeyName :: string
  KeyVersion :: string
  CertPath :: string

definition EnvVaultURL :: string where "EnvVaultURL = ''GIT_KMSSIGN_VAULT_URL''"
definition EnvKeyName :: string where "EnvKeyName = ''GIT_KMSSIGN_KEY_NAME''"
definition EnvKeyVersion :: string where "EnvKeyVersion = ''GIT_KMSSIGN_KEY_VERSION''"
definition EnvCertPath :: string where "EnvCertPath = ''GIT_KMSSIGN_CERT''"

text \<open>\<open>os.Getenv\<close> yields the empty string for a variable that is not set.\<close>

definition LoadConfig :: "(string \<Rightarrow> string) \<Rightarrow> config outcome" where
  "LoadConfig getenv =
     (let cfg = \<lparr>VaultURL = getenv EnvVaultURL, KeyName = getenv EnvKeyName,
                 KeyVersion = getenv EnvKeyVersion, CertPath = getenv EnvCertPath\<rparr>;
          missing = (if VaultURL cfg = [] then [EnvVaultURL] else []) @
                    (if KeyName cfg = [] then [EnvKeyName] else []) @
                    (if CertPath cfg = [] then [EnvCertPath] else []) in
      if length missing > 0
      then Err (ErrorString (''azuresign: missing required environment variable(s): ['' @ join '' '' missing @ '']''))
      else Ok cfg)"

subsection \<open>azuresign/cert.go\<close>

record pem_block =
  pem_Type :: string
  pem_Bytes :: bytes

type_synonym pem_decoder = "bytes \<Rightarrow> (pem_block \<times> bytes) option"

text \<open>
  The loop ends when the decoder finds no more blocks; \<open>None\<close> is a loop that does not end, which a decoder
  that consumes its input excludes.
\<close>

partial_function (option) load_loop ::
  "pem_decoder \<Rightarrow> (bytes \<Rightarrow> certificate outcome) \<Rightarrow> certificate list \<Rightarrow> bytes \<Rightarrow> certificate list outcome option" where
  "load_loop decode parse certs rest =
     (case decode rest of
        None \<Rightarrow> Some (Ok certs)
      | Some (block, rest) \<Rightarrow>
          if pem_Type block \<noteq> ''CERTIFICATE'' then load_loop decode parse certs rest
          else case parse (pem_Bytes block) of
            Ok cert \<Rightarrow> load_loop decode parse (certs @ [cert]) rest
          | Err e \<Rightarrow> Some (Err (Wrapped ''azuresign: failed to parse certificate'' e))
          | Panic p \<Rightarrow> Some (Panic p))"

text \<open>What azuresign calls outside the repository.\<close>

type_synonym credential = nat

datatype kv_algorithm = RS256 | PS256

type_synonym key_vault_client = "string \<Rightarrow> string \<Rightarrow> kv_algorithm \<Rightarrow> bytes \<Rightarrow> bytes outcome"

record azure =
  ReadFile :: "string \<Rightarrow> bytes outcome"
  pem_Decode :: pem_decoder
  az_crypto :: crypto
  NewDefaultAzureCredential :: "credential outcome"
  NewClient :: "string \<Rightarrow> credential \<Rightarrow> key_vault_client outcome"

text \<open>The quoted path is left out of the texts of the errors.\<close>

definition LoadCertificates :: "azure \<Rightarrow> string \<Rightarrow> certificate list outcome option" where
  "LoadCertificates az path =
     (case ReadFile az path of
        Err e \<Rightarrow> Some (Err (Wrapped ''azuresign: failed to read certificate file'' e))
      | Panic p \<Rightarrow> Some (Panic p)
      | Ok data \<Rightarrow>
          (case load_loop (pem_Decode az) (ParseCertificate (az_crypto az)) [] data of
             None \<Rightarrow> None
           | Some r \<Rightarrow> Some (obind r (\<lambda>certs.
               if length certs = 0 then Err (ErrorString ''azuresign: no PEM certificates found'') else Ok certs))))"

subsection \<open>azuresign/signer.go\<close>

record key_vault_signer =
  kv_client :: key_vault_client
  kv_keyName :: string
  kv_keyVersion :: string
  kv_pub :: bytes

definition NewSigner ::
  "key_vault_client option \<Rightarrow> string \<Rightarrow> string \<Rightarrow> certificate option \<Rightarrow> key_vault_signer outcome" where
  "NewSigner client keyName keyVersion leaf =
     (case client of
        None \<Rightarrow> Err (ErrorString ''azuresign: nil key vault client'')
      | Some client \<Rightarrow>
          if keyName = [] then Err (ErrorString ''azuresign: empty key name'')
          else case leaf of
            None \<Rightarrow> Err (ErrorString ''azuresign: nil leaf certificate'')
          | Some leaf \<Rightarrow>
              (case PublicKey leaf of
                 RSAPublicKey pub \<Rightarrow>
                   Ok \<lparr>kv_client = client, kv_keyName = keyName, kv_keyVersion = keyVersion, kv_pub = pub\<rparr>
               | _ \<Rightarrow> Err ErrUnsupportedKey))"

definition kv_Public :: "key_vault_signer \<Rightarrow> public_key" where
  "kv_Public s = RSAPublicKey (kv_pub s)"

text \<open>
  The values of \<open>crypto.SignerOpts\<close>: a \<open>crypto.Hash\<close>, an \<open>*rsa.PSSOptions\<close> with its hash, or another
  type with the hash its \<open>HashFunc\<close> returns; a nil interface is \<open>None\<close>.
\<close>

datatype signer_opts = HashOpts crypto_hash | PSSOptions crypto_hash | OtherOpts crypto_hash

fun HashFunc :: "signer_opts \<Rightarrow> crypto_hash" where
  "HashFunc (HashOpts h) = h"
| "HashFunc (PSSOptions h) = h"
| "HashFunc (OtherOpts h) = h"

definition kv_Sign :: "key_vault_signer \<Rightarrow> bytes \<Rightarrow> signer_opts option \<Rightarrow> bytes outcome" where
  "kv_Sign s digest opts =
     (case opts of
        None \<Rightarrow> Err ErrUnsupportedHash
      | Some opts \<Rightarrow>
          if HashFunc opts \<noteq> SHA256 then Err ErrUnsupportedHash
          else if length digest \<noteq> 32
          then Err (ErrorString (''azuresign: digest length '' @ show_nat (length digest) @
            '' does not match SHA-256 size 32''))
          else obind (case opts of
              PSSOptions h \<Rightarrow> if h \<noteq> SHA256 then Err ErrUnsupportedHash else Ok PS256
            | _ \<Rightarrow> Ok RS256) (\<lambda>alg.
            obind (wrap ''azuresign: key vault sign failed''
              (kv_client s (kv_keyName s) (kv_keyVersion s) alg digest)) (\<lambda>result.
            if length result = 0 then Err (ErrorString ''azuresign: key vault returned an empty signature'')
            else Ok result)))"

text \<open>The signer as the CMS layer sees it: it passes the hash as the options.\<close>

definition kv_signer :: "key_vault_signer \<Rightarrow> signer" where
  "kv_signer s = \<lparr>Public = kv_Public s, Sign_digest = (\<lambda>digest hash. kv_Sign s digest (Some (HashOpts hash)))\<rparr>"

subsection \<open>azuresign/client.go\<close>

record azure_identity =
  az_Signer :: key_vault_signer
  az_Certs :: "certificate list"

definition az_Leaf :: "azure_identity \<Rightarrow> certificate outcome" where
  "az_Leaf i = byte_at (az_Certs i) 0"

definition az_Chain :: "azure_identity \<Rightarrow> certificate list" where
  "az_Chain i = az_Certs i"

definition NewIdentity :: "azure \<Rightarrow> config \<Rightarrow> azure_identity outcome option" where
  "NewIdentity az cfg =
     map_option (\<lambda>certs.
       obind certs (\<lambda>certs.
       obind (wrap ''azuresign: failed to obtain Azure credential'' (NewDefaultAzureCredential az)) (\<lambda>cred.
       obind (wrap ''azuresign: failed to create Key Vault client'' (NewClient az (VaultURL cfg) cred)) (\<lambda>client.
       obind (byte_at certs 0) (\<lambda>leaf.
       obind (NewSigner (Some client) (KeyName cfg) (KeyVersion cfg) (Some leaf)) (\<lambda>signer.
         Ok \<lparr>az_Signer = signer, az_Certs = certs\<rparr>))))))
       (LoadCertificates az (CertPath cfg))"

subsection \<open>certstore/certstore_linux.go\<close>

definition kmsIdentity :: "azure_identity \<Rightarrow> identity" where
  "kmsIdentity i =
     \<lparr>Certificate = az_Leaf i, CertificateChain = Ok (az_Chain i), Signer = Ok (kv_signer (az_Signer i)),
      Delete = Err (ErrorString ''certstore: Delete is not supported by the Azure Key Vault backend'')\<rparr>"

definition kmsStore_Identities :: "azure \<Rightarrow> (string \<Rightarrow> string) \<Rightarrow> identity list outcome option" where
  "kmsStore_Identities az getenv =
     (case LoadConfig getenv of
        Ok cfg \<Rightarrow> map_option (\<lambda>i. obind i (\<lambda>i. Ok [kmsIdentity i])) (NewIdentity az cfg)
      | Err e \<Rightarrow> Some (Err e)
      | Panic p \<Rightarrow> Some (Panic p))"

definition kmsStore_Import :: "bytes \<Rightarrow> string \<Rightarrow> unit outcome" where
  "kmsStore_Import data password =
     Err (ErrorString ''certstore: Import is not supported by the Azure Key Vault backend'')"

text \<open>\<open>Open\<close> and \<open>openStore\<close>: opening never fails, all the work is in \<open>Identities\<close>.\<close>

definition openStore :: "azure \<Rightarrow> (string \<Rightarrow> string) \<Rightarrow> store outcome" where
  "openStore az getenv = Ok \<lparr>Identities = kmsStore_Identities az getenv, Import = kmsStore_Import\<rparr>"

end
