(* ===== verification/Commands.thy ===== *)
theory Commands
  imports Cms_Verify Key_Vault
begin

text \<open>
  The program itself: main.go, command_sign.go, command_verify.go, list_keys_command.go and status.go.
  What the commands write is a sequence of writes to file descriptors, so that the order of status
  lines, messages and signatures is visible; \<open>stdout\<close> and \<open>stderr\<close> are the descriptors 1 and 2.  The
  parsed command line is a record, the rest of the world is the record \<open>environment\<close>.
\<close>

subsection \<open>Options, environment and output\<close>

record options =
  helpFlag :: bool
  versionFlag :: bool
  signFlag :: bool
  verifyFlag :: bool
  listKeysFlag :: bool
  localUserOpt :: string
  detachSignFlag :: bool
  armorFlag :: bool
  statusFdOpt :: int
  tsaOpt :: string
  includeCertsOpt :: int
  includeCertsSeen :: bool
  fileArgs :: "string list"

text \<open>
  \<open>open_file\<close> opens a file; the outcome inside is that of reading it.  \<open>stdout_write\<close> says how much of
  a text reaches standard output and whether the write fails.  \<open>pem_encode\<close> and \<open>pem_decode\<close> are the
  package \<open>encoding/pem\<close>, the three numbers those of the package \<open>openpgp\<close>, and the printing functions
  those of \<open>pkix\<close>, \<open>x509\<close> and \<open>time\<close>.  The verifier of \<open>crypto/x509\<close> depends on the trusted roots.
\<close>

record environment =
  getenv :: "string \<Rightarrow> string"
  env_azure :: azure
  env_crypto :: crypto
  env_x509 :: "certificate list \<Rightarrow> x509"
  open_file :: "string \<Rightarrow> bytes outcome outcome"
  stdin :: "bytes outcome"
  stdout_write :: "string \<Rightarrow> string \<times> unit outcome"
  pem_encode :: "pem_block \<Rightarrow> string"
  pem_decode :: pem_decoder
  now :: go_time
  unix_now :: int
  env_random :: "nat \<Rightarrow> bytes outcome"
  env_http :: "nat \<Rightarrow> http_client"
  SystemCertPool :: "certificate list outcome"
  CACerts :: "certificate list outcome"
  PubKeyAlgoRSA :: nat
  PubKeyAlgoECDSA :: nat
  HashToHashId :: "crypto_hash \<Rightarrow> nat"
  Subject_String :: "certificate \<Rightarrow> string"
  Subject_RDNs :: "certificate \<Rightarrow> string"
  Issuer_RDNs :: "certificate \<Rightarrow> string"
  algorithm_String :: "signature_algorithm \<Rightarrow> string"
  time_String :: "int \<Rightarrow> string"
  error_String :: "go_error \<Rightarrow> string"
  versionString :: string
  Usage :: string

text \<open>The variables of status.go, and everything written so far.\<close>

record world =
  setup_done :: bool
  statusFile :: "nat option"
  written :: "(nat \<times> string) list"

definition init_world :: world where
  "init_world = \<lparr>setup_done = False, statusFile = None, written = []\<rparr>"

definition write_fd :: "nat \<Rightarrow> string \<Rightarrow> world \<Rightarrow> world" where
  "write_fd fd s w = w\<lparr>written := written w @ [(fd, s)]\<rparr>"

definition newline :: string where
  "newline = [CHR 0x0A]"

subsection \<open>status.go\<close>

datatype status = BEGIN_SIGNING | SIG_CREATED | NEWSIG | GOODSIG | BADSIG | ERRSIG | TRUST_FULLY

fun status_text :: "status \<Rightarrow> string" where
  "status_text BEGIN_SIGNING = ''BEGIN_SIGNING''"
| "status_text SIG_CREATED = ''SIG_CREATED''"
| "status_text NEWSIG = ''NEWSIG''"
| "status_text GOODSIG = ''GOODSIG''"
| "status_text BADSIG = ''BADSIG''"
| "status_text ERRSIG = ''ERRSIG''"
| "status_text TRUST_FULLY = ''TRUST_FULLY''"

definition setupStatus :: "options \<Rightarrow> world \<Rightarrow> world" where
  "setupStatus opts w =
     (if setup_done w then w
      else if statusFdOpt opts \<le> 0 then w\<lparr>setup_done := True\<rparr>
      else w\<lparr>setup_done := True, statusFile := Some (nat (statusFdOpt opts))\<rparr>)"

definition status_prefix :: string where
  "status_prefix = ''[GNUPG:] ''"

text \<open>\<open>emitf\<close> is given the formatted arguments.\<close>

definition emitf :: "options \<Rightarrow> status \<Rightarrow> string \<Rightarrow> world \<Rightarrow> world" where
  "emitf opts s args w =
     (let w = setupStatus opts w in
      case statusFile w of
        None \<Rightarrow> w
      | Some fd \<Rightarrow>
          write_fd fd ('' '' @ args @ newline) (write_fd fd (status_text s) (write_fd fd status_prefix w)))"

definition emit :: "options \<Rightarrow> status \<Rightarrow> world \<Rightarrow> world" where
  "emit opts s w =
     (let w = setupStatus opts w in
      case statusFile w of
        None \<Rightarrow> w
      | Some fd \<Rightarrow> write_fd fd (status_prefix @ status_text s @ newline) w)"

definition sig_pk_algo :: "environment \<Rightarrow> certificate \<Rightarrow> nat" where
  "sig_pk_algo env cert =
     (if cert_SignatureAlgorithm cert \<in> {SHA1WithRSA, SHA256WithRSA, SHA384WithRSA, SHA512WithRSA}
      then PubKeyAlgoRSA env mod 256
      else if cert_SignatureAlgorithm cert \<in> {ECDSAWithSHA1, ECDSAWithSHA256, ECDSAWithSHA384, ECDSAWithSHA512}
      then PubKeyAlgoECDSA env mod 256
      else 0)"

definition sig_hash_algo :: "environment \<Rightarrow> certificate \<Rightarrow> nat" where
  "sig_hash_algo env cert =
     (let a = cert_SignatureAlgorithm cert in
      if a \<in> {SHA1WithRSA, ECDSAWithSHA1} then HashToHashId env SHA1
      else if a \<in> {SHA256WithRSA, ECDSAWithSHA256} then HashToHashId env SHA256
      else if a \<in> {SHA384WithRSA, ECDSAWithSHA384} then HashToHashId env SHA384
      else if a \<in> {SHA512WithRSA, ECDSAWithSHA512} then HashToHashId env SHA512
      else 0)"

definition emitSigCreated :: "environment \<Rightarrow> options \<Rightarrow> certificate \<Rightarrow> bool \<Rightarrow> world \<Rightarrow> world" where
  "emitSigCreated env opts cert isDetached w =
     (let sigType = (if isDetached then ''D'' else ''S'') in
      emitf opts SIG_CREATED (sigType @ '' '' @ show_nat (sig_pk_algo env cert) @ '' '' @
        show_nat (sig_hash_algo env cert) @ '' 00 '' @ show_int (unix_now env) @ '' '' @
        certHexFingerprint (env_crypto env) cert) w)"

text \<open>\<open>chains[0][0][0]\<close> panics when there is no such chain.\<close>

definition first_cert :: "certificate list list list \<Rightarrow> certificate outcome" where
  "first_cert chs = obind (byte_at chs 0) (\<lambda>cs. obind (byte_at cs 0) (\<lambda>chain. byte_at chain 0))"

definition emitGoodSig :: "environment \<Rightarrow> options \<Rightarrow> certificate list list list \<Rightarrow> world \<Rightarrow> world \<times> unit outcome" where
  "emitGoodSig env opts chs w =
     attempt w (first_cert chs) (\<lambda>cert.
       (emitf opts GOODSIG (certHexFingerprint (env_crypto env) cert @ '' '' @ Subject_String env cert) w, Ok ()))"

text \<open>
  \<open>emitBadSig\<close> formats the method value \<open>cert.Subject.String\<close>, not its result: fmt prints a function as
  an error text with its address, the argument \<open>addr\<close>.
\<close>

definition emitBadSig :: "string \<Rightarrow> environment \<Rightarrow> options \<Rightarrow> certificate list list list \<Rightarrow> world \<Rightarrow> world \<times> unit outcome" where
  "emitBadSig addr env opts chs w =
     attempt w (first_cert chs) (\<lambda>cert.
       (emitf opts BADSIG (certHexFingerprint (env_crypto env) cert @ '' %!s(func() string='' @ addr @ '')'') w, Ok ()))"

definition emitTrustFully :: "options \<Rightarrow> world \<Rightarrow> world" where
  "emitTrustFully opts w = emitf opts TRUST_FULLY ''0 shell'' w"

subsection \<open>command_sign.go\<close>

text \<open>An identity whose certificate cannot be read is passed over.\<close>

fun find_identity :: "(certificate \<Rightarrow> bool) \<Rightarrow> identity list \<Rightarrow> identity option outcome" where
  "find_identity ok [] = Ok None"
| "find_identity ok (ident # idents) =
     (case Certificate ident of
        Ok cert \<Rightarrow> if ok cert then Ok (Some ident) else find_identity ok idents
      | Err _ \<Rightarrow> find_identity ok idents
      | Panic p \<Rightarrow> Panic p)"

definition findUserIdentity :: "crypto \<Rightarrow> options \<Rightarrow> identity list \<Rightarrow> identity option outcome" where
  "findUserIdentity c opts idents =
     obind (if CHR ''@'' \<in> set (localUserOpt opts)
            then obind (normalizeEmail (localUserOpt opts)) (\<lambda>email. Ok (email, []))
            else Ok ([], normalizeFingerprint (localUserOpt opts))) (\<lambda>(email, fpr).
       if length email = 0 \<and> length fpr = 0
       then Err (ErrorString (''bad user-id format: '' @ localUserOpt opts))
       else find_identity (\<lambda>cert. certHasEmail cert email \<or> certHasFingerprint c cert fpr) idents)"

definition chainWithoutRoot :: "certificate list \<Rightarrow> certificate list" where
  "chainWithoutRoot chain =
     (if length chain = 0 then chain
      else let lastIdx = length chain - 1 in
        if RawIssuer (chain ! lastIdx) = RawSubject (chain ! lastIdx) then subslice chain 0 lastIdx
        else chain)"

text \<open>The loop of case \<open>-3\<close>, from \<open>i\<close> down to 1; the chain it indexes may have been cut before.\<close>

fun aia_loop :: "nat \<Rightarrow> certificate list \<Rightarrow> certificate list outcome" where
  "aia_loop 0 chain = Ok chain"
| "aia_loop (Suc i) chain =
     obind (byte_at chain (Suc i)) (\<lambda>issuer.
     obind (byte_at chain i) (\<lambda>cert.
       if RawSubject issuer = RawIssuer cert \<and> length (IssuingCertificateURL cert) > 0
       then aia_loop i (subslice chain 0 (Suc i))
       else aia_loop i chain))"

definition certsForSignature :: "options \<Rightarrow> certificate list \<Rightarrow> certificate list outcome" where
  "certsForSignature opts chain =
     (let include = includeCertsOpt opts;
          include = (if include < - 3 then - 2 else include);
          include = (if include > int (length chain) then int (length chain) else include) in
      if include = - 3 then obind (aia_loop (length chain - 1) chain) (\<lambda>chain. Ok (chainWithoutRoot chain))
      else if include = - 2 then Ok (chainWithoutRoot chain)
      else if include = - 1 then Ok chain
      else if 0 \<le> include \<and> include \<le> int (length chain) then Ok (subslice chain 0 (nat include))
      else Panic (PanicMsg ''slice bounds out of range''))"

text \<open>The message: the file that is named, when exactly one is, or standard input.\<close>

definition read_input :: "environment \<Rightarrow> string \<Rightarrow> string \<Rightarrow> options \<Rightarrow> bytes outcome" where
  "read_input env open_msg read_msg opts =
     obind (case fileArgs opts of
        [file] \<Rightarrow> wrap (open_msg @ '' ('' @ file @ '')'') (open_file env file)
      | _ \<Rightarrow> Ok (stdin env)) (wrap read_msg)"

text \<open>The signature message: everything between reading the data and the status line.\<close>

definition make_signature ::
  "environment \<Rightarrow> options \<Rightarrow> identity \<Rightarrow> certificate \<Rightarrow> signer \<Rightarrow> bytes \<Rightarrow> bytes outcome" where
  "make_signature env opts userIdent cert signer data =
     (let sd = cms_NewSignedData data in
      case SignedData_Sign (env_crypto env) (now env) [cert] signer sd of (sd, r) \<Rightarrow>
      obind (wrap ''failed to sign message'' r) (\<lambda>_.
      let sd = (if detachSignFlag opts then Detached sd else sd) in
      case (if length (tsaOpt opts) > 0
            then AddTimestamps (env_crypto env) (env_random env) (env_http env) (tsaOpt opts) sd
            else (sd, Ok ())) of (sd, r) \<Rightarrow>
      obind (wrap ''failed to add timestamp'' r) (\<lambda>_.
      obind (wrap ''failed to get idenity certificate chain'' (CertificateChain userIdent)) (\<lambda>chain.
      obind (certsForSignature opts chain) (\<lambda>chain.
      case SetCertificates chain sd of (sd, r) \<Rightarrow>
      obind (wrap ''failed to set certificates'' r) (\<lambda>_.
        wrap ''failed to serialize signature'' (ToDER sd)))))))"

definition write_signature :: "environment \<Rightarrow> options \<Rightarrow> bytes \<Rightarrow> world \<Rightarrow> world \<times> unit outcome" where
  "write_signature env opts msg w =
     (let out = (if armorFlag opts then pem_encode env \<lparr>pem_Type = ''SIGNED MESSAGE'', pem_Bytes = msg\<rparr>
                 else string_of_bytes msg) in
      case stdout_write env out of (sent, r) \<Rightarrow>
        (write_fd 1 sent w,
         case r of Err _ \<Rightarrow> Err (ErrorString ''failed to write signature'') | _ \<Rightarrow> r))"

definition commandSign :: "environment \<Rightarrow> options \<Rightarrow> identity list \<Rightarrow> world \<Rightarrow> world \<times> unit outcome" where
  "commandSign env opts idents w =
     attempt w (wrap ''failed to get identity matching specified user-id''
       (findUserIdentity (env_crypto env) opts idents)) (\<lambda>userIdent.
     case userIdent of
       None \<Rightarrow> (w, Err (ErrorString (''could not find identity matching specified user-id: '' @ localUserOpt opts)))
     | Some userIdent \<Rightarrow>
         let w = emit opts BEGIN_SIGNING w in
         attempt w (wrap ''failed to get idenity certificate'' (Certificate userIdent)) (\<lambda>cert.
         attempt w (wrap ''failed to get idenity signer'' (Signer userIdent)) (\<lambda>signer.
         attempt w (read_input env ''failed to open message file'' ''failed to read message from stdin'' opts) (\<lambda>data.
         attempt w (make_signature env opts userIdent cert signer data) (\<lambda>msg.
           write_signature env opts msg (emitSigCreated env opts cert (detachSignFlag opts) w))))))"

subsection \<open>command_verify.go\<close>

fun add_identities :: "certificate list \<Rightarrow> identity list \<Rightarrow> certificate list outcome" where
  "add_identities roots [] = Ok roots"
| "add_identities roots (ident # idents) =
     (case Certificate ident of
        Ok cert \<Rightarrow> add_identities (AddCert roots cert) idents
      | Err _ \<Rightarrow> add_identities roots idents
      | Panic p \<Rightarrow> Panic p)"

text \<open>The roots, and the options the code sets besides.\<close>

definition verifyOpts :: "environment \<Rightarrow> identity list \<Rightarrow> (certificate list \<times> verify_options) outcome" where
  "verifyOpts env idents =
     obind (case SystemCertPool env of
        Err _ \<Rightarrow> (case CACerts env of Err _ \<Rightarrow> Ok [] | r \<Rightarrow> r)
      | r \<Rightarrow> r) (\<lambda>roots.
     obind (add_identities roots idents) (\<lambda>roots.
       Ok (roots, \<lparr>CurrentTime = 0, KeyUsages = [ExtKeyUsageAny]\<rparr>)))"

definition dearmor :: "environment \<Rightarrow> bytes \<Rightarrow> bytes" where
  "dearmor env buf = (case pem_decode env buf of Some (blk, _) \<Rightarrow> pem_Bytes blk | None \<Rightarrow> buf)"

text \<open>A call that returns an error returns nil chains with it.\<close>

definition chains_of :: "certificate list list list outcome \<Rightarrow> certificate list list list" where
  "chains_of r = (case r of Ok chs \<Rightarrow> chs | _ \<Rightarrow> [])"

text \<open>What both commands do with the result of the verification; \<open>addr\<close> is the address \<open>emitBadSig\<close> prints.\<close>

definition report :: "string \<Rightarrow> environment \<Rightarrow> options \<Rightarrow> certificate list list list outcome \<Rightarrow> world
    \<Rightarrow> world \<times> unit outcome" where
  "report addr env opts verified w =
     (case verified of
        Panic p \<Rightarrow> (w, Panic p)
      | Err e \<Rightarrow>
          (case (if length (chains_of verified) > 0 then emitBadSig addr env opts (chains_of verified) w
                 else (emit opts ERRSIG w, Ok ())) of
             (w, r) \<Rightarrow> attempt w r (\<lambda>_. (w, Err (Wrapped ''failed to verify signature'' e))))
      | Ok chs \<Rightarrow>
          attempt w (first_cert chs) (\<lambda>cert.
          let fpr = certHexFingerprint (env_crypto env) cert; subj = Subject_String env cert;
              w = write_fd 2 (''smimesign: Signature made using certificate ID 0x'' @ fpr @ newline) w in
          case emitGoodSig env opts chs w of (w, r) \<Rightarrow>
          attempt w r (\<lambda>_.
            let w = write_fd 2 (''smimesign: Good signature from '' @ [CHR 0x22] @ subj @ [CHR 0x22] @ newline) w in
            (emitTrustFully opts w, Ok ()))))"

definition verifyAttached :: "string \<Rightarrow> environment \<Rightarrow> options \<Rightarrow> identity list \<Rightarrow> world \<Rightarrow> world \<times> unit outcome" where
  "verifyAttached addr env opts idents w =
     attempt w (read_input env ''failed to open signature file'' ''failed to read signature'' opts) (\<lambda>buf.
     attempt w (wrap ''failed to parse signature'' (ParseSignedData (dearmor env buf))) (\<lambda>sd.
     attempt w (verifyOpts env idents) (\<lambda>(roots, vopts).
       report addr env opts (snd (Verify (env_crypto env) (env_x509 env roots) vopts None sd)) w)))"

text \<open>
  The message file: the error of opening it is dropped, and reading the nil file that \<open>os.Open\<close> has
  returned fails with \<open>os.ErrInvalid\<close>.
\<close>

definition read_message :: "environment \<Rightarrow> string \<Rightarrow> bytes outcome" where
  "read_message env file =
     (if file = ''-'' then stdin env
      else case open_file env file of
        Ok file_data \<Rightarrow> file_data
      | Err _ \<Rightarrow> Err (ErrorString ''invalid argument'')
      | Panic p \<Rightarrow> Panic p)"

definition verifyDetached :: "string \<Rightarrow> environment \<Rightarrow> options \<Rightarrow> identity list \<Rightarrow> world \<Rightarrow> world \<times> unit outcome" where
  "verifyDetached addr env opts idents w =
     attempt w (byte_at (fileArgs opts) 0) (\<lambda>sigFile.
     attempt w (wrap (''failed to open signature file ('' @ sigFile @ '')'') (open_file env sigFile)) (\<lambda>file_data.
     attempt w (wrap ''failed to read signature file'' file_data) (\<lambda>buf.
     attempt w (wrap ''failed to parse signature'' (ParseSignedData (dearmor env buf))) (\<lambda>sd.
     attempt w (byte_at (fileArgs opts) 1) (\<lambda>messageFile.
     attempt w (wrap ''failed to read message file'' (read_message env messageFile)) (\<lambda>message.
     attempt w (verifyOpts env idents) (\<lambda>(roots, vopts).
       report addr env opts
         (snd (VerifyDetached (env_crypto env) (env_x509 env roots) message vopts None sd)) w)))))))"

definition commandVerify :: "string \<Rightarrow> environment \<Rightarrow> options \<Rightarrow> identity list \<Rightarrow> world \<Rightarrow> world \<times> unit outcome" where
  "commandVerify addr env opts idents w =
     (let w = emit opts NEWSIG w in
      if length (fileArgs opts) < 2 then verifyAttached addr env opts idents w
      else verifyDetached addr env opts idents w)"

subsection \<open>list_keys_command.go\<close>

text \<open>\<open>big.Int.Text(16)\<close>.\<close>

fun hex_nat :: "nat \<Rightarrow> string" where
  "hex_nat n = (if n < 16 then [hex_digit n] else hex_nat (n div 16) @ [hex_digit (n mod 16)])"

declare hex_nat.simps [simp del]

definition hex_int :: "int \<Rightarrow> string" where
  "hex_int i = (if i < 0 then ''-'' @ hex_nat (nat (- i)) else hex_nat (nat i))"

text \<open>The lines printed for one certificate, each a write of its own.\<close>

definition key_lines :: "environment \<Rightarrow> certificate \<Rightarrow> string list" where
  "key_lines env cert =
     [''       ID: '' @ certHexFingerprint (env_crypto env) cert,
      ''      S/N: '' @ hex_int (cert_SerialNumber cert),
      ''Algorithm: '' @ algorithm_String env (cert_SignatureAlgorithm cert),
      '' Validity: '' @ time_String env (NotBefore cert) @ '' - '' @ time_String env (NotAfter cert),
      ''   Issuer: '' @ Issuer_RDNs env cert,
      ''  Subject: '' @ Subject_RDNs env cert,
      ''   Emails: '' @ join '', '' (certEmails cert)]"

fun list_keys :: "environment \<Rightarrow> nat \<Rightarrow> identity list \<Rightarrow> world \<Rightarrow> world \<times> unit outcome" where
  "list_keys env j [] w = (w, Ok ())"
| "list_keys env j (ident # idents) w =
     (let w = (if j > 0 then write_fd 1 newline w else w) in
      case Certificate ident of
        Panic p \<Rightarrow> (w, Panic p)
      | Err e \<Rightarrow>
          list_keys env (Suc j) idents (write_fd 2 (''WARNING: '' @
            error_String env (Wrapped ''failed to get identity certificate'' e) @ newline) w)
      | Ok cert \<Rightarrow> list_keys env (Suc j) idents (fold (\<lambda>s. write_fd 1 (s @ newline)) (key_lines env cert) w))"

definition commandListKeys :: "environment \<Rightarrow> identity list \<Rightarrow> world \<Rightarrow> world \<times> unit outcome" where
  "commandListKeys env idents w = list_keys env 0 idents w"

subsection \<open>main.go\<close>

text \<open>\<open>strconv.Atoi\<close> on 64 bits: an optional sign and decimal digits.\<close>

definition Atoi :: "string \<Rightarrow> int option" where
  "Atoi s =
     (let neg = (take 1 s = ''-''); ds = (if take 1 s = ''-'' \<or> take 1 s = ''+'' then drop 1 s else s) in
      if ds = [] \<or> list_ex (\<lambda>ch. of_char ch < (48 :: nat) \<or> 57 < (of_char ch :: nat)) ds then None
      else let n = int (decimal_value ds); i = (if neg then - n else n) in
        if - (2 ^ 63) \<le> i \<and> i < 2 ^ 63 then Some i else None)"

definition EnvIncludeCerts :: string where
  "EnvIncludeCerts = ''GIT_KMSSIGN_INCLUDE_CERTS''"

text \<open>The policy for certificates: the flag, else the environment variable, else the default.\<close>

definition include_certs :: "environment \<Rightarrow> options \<Rightarrow> options outcome" where
  "include_certs env opts =
     (if includeCertsSeen opts then Ok opts
      else if getenv env EnvIncludeCerts = [] then Ok opts
      else case Atoi (getenv env EnvIncludeCerts) of
        None \<Rightarrow> Err (ErrorString ''invalid GIT_KMSSIGN_INCLUDE_CERTS value: must be an integer'')
      | Some n \<Rightarrow> Ok (opts\<lparr>includeCertsOpt := n\<rparr>))"

abbreviation ErrSpecify :: go_error where
  "ErrSpecify \<equiv> ErrorString ''specify --help, --sign, --verify, or --list-keys''"

definition dispatch :: "string \<Rightarrow> environment \<Rightarrow> options \<Rightarrow> identity list \<Rightarrow> world \<Rightarrow> world \<times> unit outcome" where
  "dispatch addr env opts idents w =
     (if signFlag opts then
        if verifyFlag opts \<or> listKeysFlag opts then (w, Err ErrSpecify)
        else if length (localUserOpt opts) = 0 then (w, Err (ErrorString ''specify a USER-ID to sign with''))
        else commandSign env opts idents w
      else if verifyFlag opts then
        if signFlag opts \<or> listKeysFlag opts then (w, Err ErrSpecify)
        else if length (localUserOpt opts) > 0
        then (w, Err (ErrorString ''local-user cannot be specified for verification''))
        else if detachSignFlag opts then (w, Err (ErrorString ''detach-sign cannot be specified for verification''))
        else if armorFlag opts then (w, Err (ErrorString ''armor cannot be specified for verification''))
        else commandVerify addr env opts idents w
      else if listKeysFlag opts then
        if signFlag opts \<or> verifyFlag opts then (w, Err ErrSpecify)
        else if length (localUserOpt opts) > 0
        then (w, Err (ErrorString ''local-user cannot be specified for list-keys''))
        else if detachSignFlag opts then (w, Err (ErrorString ''detach-sign cannot be specified for list-keys''))
        else if armorFlag opts then (w, Err (ErrorString ''armor cannot be specified for list-keys''))
        else commandListKeys env idents w
      else (w, Err ErrSpecify))"

text \<open>\<open>None\<close> is a run that does not end; it comes from the store only.\<close>

definition runCommand :: "string \<Rightarrow> environment \<Rightarrow> options \<Rightarrow> world \<Rightarrow> (world \<times> unit outcome) option" where
  "runCommand addr env opts w =
     (if helpFlag opts then Some (write_fd 2 (Usage env) w, Ok ())
      else if versionFlag opts then Some (write_fd 1 (versionString env @ newline) w, Ok ())
      else case include_certs env opts of
        Err e \<Rightarrow> Some (w, Err e)
      | Panic p \<Rightarrow> Some (w, Panic p)
      | Ok opts \<Rightarrow>
          (case openStore (env_azure env) (getenv env) of
             Err e \<Rightarrow> Some (w, Err (Wrapped ''failed to open certificate store'' e))
           | Panic p \<Rightarrow> Some (w, Panic p)
           | Ok store \<Rightarrow>
               map_option (\<lambda>idents.
                 attempt w (wrap ''failed to get identities from certificate store'' idents) (\<lambda>idents.
                   dispatch addr env opts idents w)) (Identities store)))"

text \<open>The exit status: 1 after an error, which is printed, and 2 when the Go runtime ends a panic.\<close>

definition main :: "string \<Rightarrow> environment \<Rightarrow> options \<Rightarrow> (world \<times> nat) option" where
  "main addr env opts =
     map_option (\<lambda>(w, r).
       case r of
         Ok _ \<Rightarrow> (w, 0)
       | Err e \<Rightarrow> (write_fd 2 (error_String env e @ newline) w, 1)
       | Panic _ \<Rightarrow> (w, 2)) (runCommand addr env opts init_world)"

end
