(* ===== verification/User_Id_Spec.thy ===== *)
theory User_Id_Spec
  imports User_Id
begin

text \<open>
  What the user id parser computes: it is equal to taking the text apart at its first delimiters, octet
  by octet; in particular its slices are always in bounds.  Then fingerprints and the pattern of email
  addresses.
\<close>

subsection \<open>Runes and octets\<close>

text \<open>The loop as it would be over octets.\<close>

definition octet_runes :: "string \<Rightarrow> (nat \<times> string) list" where
  "octet_runes s = map (\<lambda>ch. (of_char ch, [ch])) s"

lemma octet_runes_simps [simp]:
  "octet_runes [] = []" "octet_runes (ch # s) = (of_char ch, [ch]) # octet_runes s"
  "octet_runes (s @ t) = octet_runes s @ octet_runes t"
  by (simp_all add: octet_runes_def)

lemma decode_rune_cases:
  assumes "bs \<noteq> []" and "decode_rune bs = (r, w)"
  shows "(w = 1 \<and> r = hd bs \<and> r < 128) \<or> (128 \<le> r \<and> 1 \<le> w \<and> w \<le> length bs \<and> (\<forall>b \<in> set (take w bs). 128 \<le> b))"
  using assms
  by (auto simp: decode_rune_def continuation_def second_octet_def split: list.splits if_splits)

definition delimiter :: "nat \<Rightarrow> bool" where
  "delimiter r \<longleftrightarrow> r \<in> {40, 41, 60, 62}"

lemma parser_step_twice:
  "\<not> delimiter r \<Longrightarrow> \<not> delimiter r' \<Longrightarrow> parser_step off' r' (parser_step off r p) = parser_step off r p"
  by (auto simp: parser_step_def in_name_def in_comment_def in_email_def delimiter_def)

lemma parser_step_any: "\<not> delimiter r \<Longrightarrow> \<not> delimiter r' \<Longrightarrow> parser_step off r p = parser_step off r' p"
  by (auto simp: parser_step_def in_name_def in_comment_def in_email_def delimiter_def)

lemma parser_loop_chunk:
  assumes "\<not> delimiter r" "\<forall>ch \<in> set chunk. \<not> delimiter (of_char ch)"
  shows "parser_loop off' (octet_runes chunk @ rs) (parser_step off r p)
    = parser_loop (off' + length chunk) rs (parser_step off r p)"
  using assms(2) by (induction chunk arbitrary: off') (simp_all add: parser_step_twice assms(1))

lemma parser_loop_octets: "parser_loop off (runes s) p = parser_loop off (octet_runes s) p"
proof (induction s arbitrary: off p rule: runes.induct)
  case (1 s)
  show ?case
  proof (cases s)
    case (Cons ch s')
    obtain r w where d: "decode_rune (codes s) = (r, w)" by (cases "decode_rune (codes s)")
    have runes: "runes s = (r, take w s) # runes (drop w s)" by (subst runes.simps) (simp add: Cons d [unfolded Cons])
    have IH: "parser_loop off (runes (drop w s)) p = parser_loop off (octet_runes (drop w s)) p" for off p
      using "1.IH" [of r w off p] Cons d by simp
    show ?thesis
    proof (cases "r < 128")
      case True
      with decode_rune_cases [OF _ d] Cons have "w = 1" "r = of_char ch" by (auto simp: codes_def)
      then show ?thesis using Cons runes IH by simp
    next
      case False
      with decode_rune_cases [OF _ d] Cons have w: "1 \<le> w" "w \<le> length s"
        and high: "\<forall>b \<in> set (take w (codes s)). 128 \<le> b" by (auto simp: codes_def)
      from w(1) Cons obtain chunk where chunk: "take w s = ch # chunk" by (cases w) auto
      have nd: "\<forall>x \<in> set (take w s). \<not> delimiter (of_char x)"
        using high by (auto simp: codes_def take_map delimiter_def)
      have r: "\<not> delimiter r" using False by (auto simp: delimiter_def)
      have "parser_loop off (octet_runes (take w s @ drop w s)) p
          = parser_loop (off + 1 + length chunk) (octet_runes (drop w s)) (parser_step off (of_char ch) p)"
        using nd unfolding octet_runes_simps chunk by (simp add: parser_loop_chunk)
      also have "parser_step off (of_char ch) p = parser_step off r p"
        by (rule parser_step_any) (use nd r in \<open>simp_all add: chunk\<close>)
      finally have "parser_loop off (octet_runes s) p
          = parser_loop (off + 1 + length chunk) (octet_runes (drop w s)) (parser_step off r p)"
        unfolding append_take_drop_id .
      then show ?thesis by (simp add: runes chunk IH)
    qed
  qed (simp add: runes.simps)
qed

subsection \<open>The spans\<close>

lemma span_update [simp]: "(sp :: span)\<lparr>s_start := i, s_end := j\<rparr> = \<lparr>s_start = i, s_end = j\<rparr>"
  by (cases sp) simp

text \<open>One lemma per state: what the loop does up to the next delimiter.\<close>

lemmas step_defs = parser_step_def in_name_def in_comment_def in_email_def

lemma of_char_delimiters [simp]:
  "of_char ch = (40 :: nat) \<longleftrightarrow> ch = CHR ''(''" "of_char ch = (41 :: nat) \<longleftrightarrow> ch = CHR '')''"
  "of_char ch = (60 :: nat) \<longleftrightarrow> ch = CHR ''<''" "of_char ch = (62 :: nat) \<longleftrightarrow> ch = CHR ''>''"
  using of_char_eq_iff [of ch "CHR ''(''", where 'a = nat] of_char_eq_iff [of ch "CHR '')''", where 'a = nat]
    of_char_eq_iff [of ch "CHR ''<''", where 'a = nat] of_char_eq_iff [of ch "CHR ''>''", where 'a = nat]
  by (simp_all del: of_char_eq_iff)


lemma loop_skips:
  assumes "parser_step off (of_char ch) p = q" and "\<And>off d. d \<in> set s \<Longrightarrow> parser_step off (of_char d) q = q"
  shows "parser_loop off (octet_runes (ch # s) @ rs) p = parser_loop (off + length (ch # s)) rs q"
proof -
  have "parser_loop off (octet_runes s @ rs) q = parser_loop (off + length s) rs q" for off
    using assms(2)
  proof (induction s arbitrary: off)
    case (Cons d s)
    then have "parser_step off (of_char d) q = q" by simp
    then show ?case using Cons.IH [of "Suc off"] Cons.prems by simp
  qed simp
  then show ?thesis using assms(1) by simp
qed

text \<open>The text up to the delimiter \<open>d\<close>, read from an entering state or from the one after it.\<close>

lemma loop_name:
  assumes "CHR ''('' \<notin> set s" "CHR ''<'' \<notin> set s"
  shows "parser_loop 0 (octet_runes s @ rs) init_parser
    = parser_loop (length s) rs (if s = [] then init_parser else init_parser\<lparr>p_state := 1\<rparr>)"
proof (cases s)
  case (Cons ch s')
  have "parser_loop 0 (octet_runes (ch # s') @ rs) init_parser
      = parser_loop (0 + length (ch # s')) rs (init_parser\<lparr>p_state := 1\<rparr>)"
    by (rule loop_skips) (use assms Cons in \<open>auto simp: step_defs init_parser_def\<close>)
  then show ?thesis using Cons by simp
qed simp

lemma loop_comment:
  assumes "p_state p = 2" "CHR '')'' \<notin> set s"
  shows "parser_loop off (octet_runes s @ rs) p
    = parser_loop (off + length s) rs (if s = [] then p else p\<lparr>p_c := (p_c p)\<lparr>s_start := off\<rparr>, p_state := 3\<rparr>)"
proof (cases s)
  case (Cons ch s')
  have "parser_loop off (octet_runes (ch # s') @ rs) p
      = parser_loop (off + length (ch # s')) rs (p\<lparr>p_c := (p_c p)\<lparr>s_start := off\<rparr>, p_state := 3\<rparr>)"
    by (rule loop_skips) (use assms Cons in \<open>auto simp: step_defs\<close>)
  then show ?thesis using Cons by simp
qed simp

lemma loop_email:
  assumes "p_state p = 5" "CHR ''>'' \<notin> set s"
  shows "parser_loop off (octet_runes s @ rs) p
    = parser_loop (off + length s) rs (if s = [] then p else p\<lparr>p_e := (p_e p)\<lparr>s_start := off\<rparr>, p_state := 6\<rparr>)"
proof (cases s)
  case (Cons ch s')
  have "parser_loop off (octet_runes (ch # s') @ rs) p
      = parser_loop (off + length (ch # s')) rs (p\<lparr>p_e := (p_e p)\<lparr>s_start := off\<rparr>, p_state := 6\<rparr>)"
    by (rule loop_skips) (use assms Cons in \<open>auto simp: step_defs\<close>)
  then show ?thesis using Cons by simp
qed simp

lemma loop_gap:
  assumes "p_state p = 4" "CHR ''<'' \<notin> set s"
  shows "parser_loop off (octet_runes s @ rs) p = parser_loop (off + length s) rs p"
  using assms by (induction s arbitrary: off) (auto simp: step_defs)

lemma loop_after: "p_state p = 7 \<Longrightarrow> parser_loop off (octet_runes s) p = p"
  by (induction s arbitrary: off) (simp_all add: step_defs)

text \<open>What follows the first \<open>'<'\<close>.\<close>

definition email_part :: "string \<Rightarrow> string" where
  "email_part s = takeWhile (\<lambda>ch. ch \<noteq> CHR ''>'') s"

lemma split_at:
  obtains "d \<notin> set s" "takeWhile (\<lambda>ch. ch \<noteq> d) s = s" "dropWhile (\<lambda>ch. ch \<noteq> d) s = []"
  | u v where "s = u @ d # v" "d \<notin> set u" "takeWhile (\<lambda>ch. ch \<noteq> d) s = u" "dropWhile (\<lambda>ch. ch \<noteq> d) s = d # v"
proof (cases "d \<in> set s")
  case True
  then obtain u v where s: "s = u @ d # v" "d \<notin> set u" by (meson split_list_first)
  then have "\<forall>x \<in> set u. x \<noteq> d" by auto
  then show ?thesis using that(2) [OF s] s(1) by (simp add: takeWhile_append dropWhile_append)
next
  case False
  then show ?thesis using that(1) by (simp add: takeWhile_eq_all_conv dropWhile_eq_Nil_conv) metis
qed

lemma email_span:
  fixes pre s :: string and p :: parser and off :: nat
  assumes "p_state p = 5" and "s_start (p_e p) = 0" "s_end (p_e p) = 0" and "length pre = off"
    and "parser_finish (length (pre @ s)) (parser_loop off (octet_runes s) p) = q"
  shows "p_n q = p_n p" "p_c q = p_c p" "slice_of (pre @ s) (p_e q) = Ok (email_part s)"
proof -
  have "p_n q = p_n p \<and> p_c q = p_c p \<and> slice_of (pre @ s) (p_e q) = Ok (email_part s)"
  proof (cases rule: split_at [of "CHR ''>''" s])
    case 1
    then have "parser_loop off (octet_runes s) p
        = (if s = [] then p else p\<lparr>p_e := (p_e p)\<lparr>s_start := off\<rparr>, p_state := 6\<rparr>)"
      using loop_email [OF assms(1) 1(1), of off "[]"] by simp
    then have "q = (if s = [] then p else p\<lparr>p_e := \<lparr>s_start = off, s_end = off + length s\<rparr>, p_state := 6\<rparr>)"
      unfolding assms(5) [symmetric] using assms(1,4) by (cases p) (simp add: parser_finish_def)
    then show ?thesis
      using 1(2) assms(2-4)
      by (cases "p_e p") (simp add: slice_of_def subslice_def email_part_def del: takeWhile_eq_all_conv)
  next
    case (2 u v)
    have "parser_loop off (octet_runes s) p
        = p\<lparr>p_e := \<lparr>s_start = off, s_end = off + length u\<rparr>, p_state := 7\<rparr>"
      using loop_email [OF assms(1) 2(2), of off "octet_runes (CHR ''>'' # v)"] assms(1)
      by (cases p) (simp add: 2(1) loop_after step_defs)
    then have "q = p\<lparr>p_e := \<lparr>s_start = off, s_end = off + length u\<rparr>, p_state := 7\<rparr>"
      unfolding assms(5) [symmetric] by (simp add: parser_finish_def)
    then show ?thesis using 2 assms(4) by (simp add: slice_of_def subslice_def email_part_def)
  qed
  then show "p_n q = p_n p" "p_c q = p_c p" "slice_of (pre @ s) (p_e q) = Ok (email_part s)" by auto
qed

subsection \<open>The parts of a user id\<close>

definition split_user_id :: "string \<Rightarrow> string \<times> string \<times> string" where
  "split_user_id s =
     (let name = takeWhile (\<lambda>ch. ch \<noteq> CHR ''('' \<and> ch \<noteq> CHR ''<'') s in
      case dropWhile (\<lambda>ch. ch \<noteq> CHR ''('' \<and> ch \<noteq> CHR ''<'') s of
        [] \<Rightarrow> (name, [], [])
      | d # rest \<Rightarrow>
          if d = CHR ''<'' then (name, [], email_part rest)
          else (name, takeWhile (\<lambda>ch. ch \<noteq> CHR '')'') rest,
            email_part (drop 1 (dropWhile (\<lambda>ch. ch \<noteq> CHR ''<'')
              (drop 1 (dropWhile (\<lambda>ch. ch \<noteq> CHR '')'') rest))))))"

definition trimmed :: "string \<times> string \<times> string \<Rightarrow> string \<times> string \<times> string" where
  "trimmed = (\<lambda>(name, comment, email). (TrimSpace name, TrimSpace comment, TrimSpace email))"

lemma parseUserID_spans:
  assumes "parser_finish (length s) (parser_loop 0 (octet_runes s) init_parser) = q"
    and "slice_of s (p_n q) = Ok name" "slice_of s (p_c q) = Ok comment" "slice_of s (p_e q) = Ok email"
  shows "parseUserID s = Ok (trimmed (name, comment, email))"
  using assms by (simp add: parseUserID_def trimmed_def parser_loop_octets Let_def)

lemma slice_of_here: "slice_of (u @ v @ w) \<lparr>s_start = length u, s_end = length u + length v\<rparr> = Ok v"
  by (simp add: slice_of_def)

lemma slice_of_empty [simp]: "slice_of s \<lparr>s_start = 0, s_end = 0\<rparr> = Ok []"
  by (simp add: slice_of_def subslice_def)

text \<open>The parser after \<open>name(\<close>.\<close>

definition after_name :: "string \<Rightarrow> nat \<Rightarrow> parser" where
  "after_name name st = init_parser\<lparr>p_n := \<lparr>s_start = 0, s_end = length name\<rparr>, p_state := st\<rparr>"

lemma loop_name_delimiter:
  assumes "CHR ''('' \<notin> set name" "CHR ''<'' \<notin> set name" "d = CHR ''('' \<and> st = 2 \<or> d = CHR ''<'' \<and> st = 5"
  shows "parser_loop 0 (octet_runes (name @ d # rest)) init_parser
    = parser_loop (Suc (length name)) (octet_runes rest) (after_name name st)"
  using assms loop_name [OF assms(1,2), of "octet_runes (d # rest)"]
  by (auto simp: step_defs init_parser_def after_name_def)

lemma loop_comment_delimiter:
  assumes "p_state p = 2" "CHR '')'' \<notin> set comment"
  shows "parser_loop off (octet_runes (comment @ CHR '')'' # rest)) p
    = parser_loop (Suc (off + length comment)) (octet_runes rest)
        (p\<lparr>p_c := \<lparr>s_start = off, s_end = off + length comment\<rparr>, p_state := 4\<rparr>)"
  using assms loop_comment [OF assms, of off "octet_runes (CHR '')'' # rest)"]
  by (cases p) (auto simp: step_defs)

lemma parse_name_email:
  assumes "CHR ''('' \<notin> set name" "CHR ''<'' \<notin> set name"
  shows "parseUserID (name @ CHR ''<'' # rest) = Ok (trimmed (name, [], email_part rest))"
proof (rule parseUserID_spans)
  let ?p = "after_name name 5"
  have e: "name @ CHR ''<'' # rest = (name @ ''<'') @ rest" by simp
  let ?q = "parser_finish (length ((name @ ''<'') @ rest)) (parser_loop (Suc (length name)) (octet_runes rest) ?p)"
  have start: "p_state ?p = 5" "s_start (p_e ?p) = 0" "s_end (p_e ?p) = 0" "length (name @ ''<'') = Suc (length name)"
    by (simp_all add: after_name_def init_parser_def)
  note span = email_span [OF start refl, of rest]
  show "parser_finish (length (name @ CHR ''<'' # rest))
      (parser_loop 0 (octet_runes (name @ CHR ''<'' # rest)) init_parser) = ?q"
    using loop_name_delimiter [OF assms, of "CHR ''<''" 5 rest] by simp
  show "slice_of (name @ CHR ''<'' # rest) (p_n ?q) = Ok name"
    unfolding span(1) using slice_of_here [of "[]" name "CHR ''<'' # rest"] by (simp add: after_name_def)
  show "slice_of (name @ CHR ''<'' # rest) (p_c ?q) = Ok []"
    unfolding span(2) by (simp add: after_name_def init_parser_def)
  show "slice_of (name @ CHR ''<'' # rest) (p_e ?q) = Ok (email_part rest)"
    unfolding e by (rule span(3))
qed

lemma parse_name_comment_email:
  assumes "CHR ''('' \<notin> set name" "CHR ''<'' \<notin> set name" "CHR '')'' \<notin> set comment" "CHR ''<'' \<notin> set gap"
  shows "parseUserID (name @ CHR ''('' # comment @ CHR '')'' # gap @ CHR ''<'' # rest)
    = Ok (trimmed (name, comment, email_part rest))" (is "parseUserID ?id = _")
proof (rule parseUserID_spans)
  let ?off = "Suc (length name)" and ?n = "Suc (length name + length comment)"
  let ?p4 = "(after_name name 2)\<lparr>p_c := \<lparr>s_start = ?off, s_end = ?off + length comment\<rparr>, p_state := 4\<rparr>"
  let ?p = "?p4\<lparr>p_state := 5\<rparr>"
  define pre where "pre = name @ CHR ''('' # comment @ CHR '')'' # gap @ ''<''"
  have e: "?id = pre @ rest" by (simp add: pre_def)
  let ?q = "parser_finish (length (pre @ rest)) (parser_loop (length pre) (octet_runes rest) ?p)"
  have start: "p_state ?p = 5" "s_start (p_e ?p) = 0" "s_end (p_e ?p) = 0"
    by (simp_all add: after_name_def init_parser_def)
  note span = email_span [OF start refl refl, of pre rest]
  have "parser_loop 0 (octet_runes ?id) init_parser = parser_loop ?off
      (octet_runes (comment @ CHR '')'' # gap @ CHR ''<'' # rest)) (after_name name 2)"
    by (rule loop_name_delimiter) (use assms in auto)
  also have "\<dots> = parser_loop (Suc (?off + length comment)) (octet_runes gap @ octet_runes (CHR ''<'' # rest)) ?p4"
    using loop_comment_delimiter [OF _ assms(3), of "after_name name 2" ?off "gap @ CHR ''<'' # rest"]
    by (simp add: after_name_def)
  also have "\<dots> = parser_loop (length pre) (octet_runes rest) ?p"
    using loop_gap [OF _ assms(4), of ?p4 "Suc (?off + length comment)" "octet_runes (CHR ''<'' # rest)"]
    by (simp add: step_defs pre_def add.assoc)
  finally show "parser_finish (length ?id) (parser_loop 0 (octet_runes ?id) init_parser) = ?q" unfolding e by simp
  show "slice_of ?id (p_n ?q) = Ok name"
    unfolding span(1) using slice_of_here [of "[]" name] by (simp add: after_name_def)
  show "slice_of ?id (p_c ?q) = Ok comment"
    unfolding span(2)
    using slice_of_here [of "name @ ''(''" comment "CHR '')'' # gap @ CHR ''<'' # rest"] by simp
  show "slice_of ?id (p_e ?q) = Ok (email_part rest)" unfolding e by (rule span(3))
qed

lemma parse_name:
  assumes "CHR ''('' \<notin> set name" "CHR ''<'' \<notin> set name"
  shows "parseUserID name = Ok (trimmed (name, [], []))"
proof (rule parseUserID_spans [OF refl])
  have "parser_loop 0 (octet_runes name) init_parser
      = (if name = [] then init_parser else init_parser\<lparr>p_state := 1\<rparr>)"
    using loop_name [OF assms, of "[]"] by simp
  then have q: "parser_finish (length name) (parser_loop 0 (octet_runes name) init_parser)
      = init_parser\<lparr>p_n := \<lparr>s_start = 0, s_end = length name\<rparr>, p_state := (if name = [] then 0 else 1)\<rparr>"
    by (simp add: parser_finish_def init_parser_def)
  let ?q = "parser_finish (length name) (parser_loop 0 (octet_runes name) init_parser)"
  show "slice_of name (p_n ?q) = Ok name"
    unfolding q using slice_of_here [of "[]" name "[]"] by simp
  show "slice_of name (p_c ?q) = Ok []" "slice_of name (p_e ?q) = Ok []"
    unfolding q by (simp_all add: init_parser_def)
qed

lemma parse_name_comment:
  assumes "CHR ''('' \<notin> set name" "CHR ''<'' \<notin> set name" "CHR '')'' \<notin> set comment"
  shows "parseUserID (name @ CHR ''('' # comment) = Ok (trimmed (name, comment, []))" (is "parseUserID ?id = _")
proof (rule parseUserID_spans [OF refl])
  let ?off = "Suc (length name)"
  have "parser_loop 0 (octet_runes ?id) init_parser = parser_loop ?off (octet_runes comment) (after_name name 2)"
    by (rule loop_name_delimiter) (use assms in auto)
  then have "parser_loop 0 (octet_runes ?id) init_parser = (if comment = [] then after_name name 2
      else (after_name name 2)\<lparr>p_c := \<lparr>s_start = ?off, s_end = 0\<rparr>, p_state := 3\<rparr>)"
    using loop_comment [OF _ assms(3), of "after_name name 2" ?off "[]"]
    by (simp add: after_name_def init_parser_def)
  then have q: "parser_finish (length ?id) (parser_loop 0 (octet_runes ?id) init_parser)
      = (if comment = [] then after_name name 2
         else (after_name name 2)\<lparr>p_c := \<lparr>s_start = ?off, s_end = ?off + length comment\<rparr>, p_state := 3\<rparr>)"
    by (simp add: parser_finish_def after_name_def)
  let ?q = "parser_finish (length ?id) (parser_loop 0 (octet_runes ?id) init_parser)"
  show "slice_of ?id (p_n ?q) = Ok name"
    unfolding q using slice_of_here [of "[]" name "CHR ''('' # comment"]
    by (cases comment) (simp_all add: after_name_def)
  show "slice_of ?id (p_c ?q) = Ok comment"
    unfolding q using slice_of_here [of "name @ ''(''" comment "[]"] by (simp add: after_name_def init_parser_def)
  show "slice_of ?id (p_e ?q) = Ok []"
    unfolding q by (simp add: after_name_def init_parser_def)
qed

lemma parse_name_comment_gap:
  assumes "CHR ''('' \<notin> set name" "CHR ''<'' \<notin> set name" "CHR '')'' \<notin> set comment" "CHR ''<'' \<notin> set gap"
  shows "parseUserID (name @ CHR ''('' # comment @ CHR '')'' # gap) = Ok (trimmed (name, comment, []))"
    (is "parseUserID ?id = _")
proof (rule parseUserID_spans [OF refl])
  let ?off = "Suc (length name)"
  let ?p4 = "(after_name name 2)\<lparr>p_c := \<lparr>s_start = ?off, s_end = ?off + length comment\<rparr>, p_state := 4\<rparr>"
  have "parser_loop 0 (octet_runes ?id) init_parser
      = parser_loop ?off (octet_runes (comment @ CHR '')'' # gap)) (after_name name 2)"
    by (rule loop_name_delimiter) (use assms in auto)
  also have "\<dots> = parser_loop (Suc (?off + length comment)) (octet_runes gap) ?p4"
    by (rule loop_comment_delimiter [OF _ assms(3)]) (simp add: after_name_def)
  also have "\<dots> = ?p4"
    using loop_gap [OF _ assms(4), of ?p4 "Suc (?off + length comment)" "[]"] by simp
  finally have q: "parser_finish (length ?id) (parser_loop 0 (octet_runes ?id) init_parser) = ?p4"
    by (simp add: parser_finish_def)
  let ?q = "parser_finish (length ?id) (parser_loop 0 (octet_runes ?id) init_parser)"
  show "slice_of ?id (p_n ?q) = Ok name"
    unfolding q using slice_of_here [of "[]" name "CHR ''('' # comment @ CHR '')'' # gap"] by (simp add: after_name_def)
  show "slice_of ?id (p_c ?q) = Ok comment"
    unfolding q using slice_of_here [of "name @ ''(''" comment "CHR '')'' # gap"] by simp
  show "slice_of ?id (p_e ?q) = Ok []"
    unfolding q by (simp add: after_name_def init_parser_def)
qed

lemma parseUserID_octets: "parseUserID s = Ok (trimmed (split_user_id s))"
proof -
  let ?P = "\<lambda>ch. ch \<noteq> CHR ''('' \<and> ch \<noteq> CHR ''<''"
  define name where "name = takeWhile ?P s"
  have name: "CHR ''('' \<notin> set name" "CHR ''<'' \<notin> set name"
    by (auto simp: name_def dest: set_takeWhileD)
  have s: "name @ dropWhile ?P s = s" by (simp add: name_def)
  show ?thesis
  proof (cases "dropWhile ?P s")
    case Nil
    with s have "name = s" by simp
    with parse_name [OF name] have "parseUserID s = Ok (trimmed (name, [], []))" by simp
    then show ?thesis unfolding split_user_id_def Let_def Nil name_def by simp
  next
    case (Cons d rest)
    then have d: "d = CHR ''('' \<or> d = CHR ''<''" using hd_dropWhile [of ?P s] by auto
    show ?thesis
    proof (cases "d = CHR ''<''")
      case True
      have "name @ CHR ''<'' # rest = s" using s unfolding Cons True .
      with parse_name_email [OF name, of rest] have "parseUserID s = Ok (trimmed (name, [], email_part rest))" by simp
      then show ?thesis unfolding split_user_id_def Let_def Cons name_def using True by simp
    next
      case False
      then have d: "d = CHR ''(''" using d by simp
      have s': "name @ CHR ''('' # rest = s" using s unfolding Cons d .
      have split: "split_user_id s = (name, takeWhile (\<lambda>ch. ch \<noteq> CHR '')'') rest,
          email_part (drop 1 (dropWhile (\<lambda>ch. ch \<noteq> CHR ''<'') (drop 1 (dropWhile (\<lambda>ch. ch \<noteq> CHR '')'') rest)))))"
        unfolding split_user_id_def Let_def Cons name_def using False by simp
      show ?thesis
      proof (cases rule: split_at [of "CHR '')''" rest])
        case 1
        have "split_user_id s = (name, rest, [])" unfolding split 1(2,3) by (simp add: email_part_def)
        then show ?thesis using parse_name_comment [OF name 1(1)] s' by simp
      next
        case (2 comment after)
        show ?thesis
        proof (cases rule: split_at [of "CHR ''<''" after])
          case 1
          have "split_user_id s = (name, comment, [])"
            unfolding split 2(3,4) using 1(3) by (simp add: email_part_def del: dropWhile_eq_Nil_conv)
          then show ?thesis using parse_name_comment_gap [OF name 2(2) 1(1)] s' 2(1) by simp
        next
          case gap: (2 gap rest')
          have "split_user_id s = (name, comment, email_part rest')"
            unfolding split 2(3,4) using gap by simp
          then show ?thesis
            using parse_name_comment_email [OF name 2(2) gap(2), of rest'] s' 2(1) gap(1) by simp
        qed
      qed
    qed
  qed
qed

text \<open>
  C13: \<open>parseUserID\<close> never slices out of bounds, whatever octets it is given, and equals a split at the
  first delimiters: the name ends at the first \<open>(\<close> or \<open><\<close>, a comment at the next \<open>)\<close>, and the email is what
  lies between the next \<open><\<close> and the \<open>></\<close> after it, each without the white space around it.
\<close>

theorem parseUserID_split: "parseUserID s = Ok (trimmed (split_user_id s))"
  by (rule parseUserID_octets)

subsection \<open>Fingerprints\<close>

lemma hex_digit_cases: "n < 16 \<Longrightarrow> n \<in> {0, 1, 2, 3, 4, 5, 6, 7, 8, 9, 10, 11, 12, 13, 14, 15 :: nat}"
  unfolding insert_iff empty_iff by presburger

lemma hex_value_digit: "n < 16 \<Longrightarrow> hex_value (hex_digit n) = Some n"
  using hex_digit_cases [of n] by (auto simp: hex_value_def hex_digit_def)

lemma hex_digit_not_x: "n < 16 \<Longrightarrow> hex_digit n \<noteq> CHR ''x''"
  using hex_value_digit [of n] by (auto simp: hex_value_def)

lemma hex_digit_not_at: "n < 16 \<Longrightarrow> hex_digit n \<noteq> CHR ''@''"
  using hex_value_digit [of n] by (auto simp: hex_value_def)

lemma hex_EncodeToString_simps [simp]:
  "hex_EncodeToString [] = []"
  "hex_EncodeToString (b # bs) = hex_digit (unat b div 16) # hex_digit (unat b mod 16) # hex_EncodeToString bs"
  by (simp_all add: hex_EncodeToString_def)

lemma octet_nibbles: "octet (16 * (unat b div 16) + unat b mod 16) = b"
  by (simp add: octet_def)

lemma nibble_less [simp]: "unat (b :: byte) div 16 < 16"
  using unat_byte_less [of b] by linarith

lemma hex_no_at: "CHR ''@'' \<notin> set (hex_EncodeToString bs)"
  by (induction bs) (auto dest: sym simp: hex_digit_not_at)

lemma hex_round_trip: "hex_DecodeString (hex_EncodeToString bs) = Some bs"
proof (induction bs)
  case (Cons b bs)
  then show ?case by (simp add: hex_value_digit octet_nibbles)
qed simp

lemma normalizeFingerprint_hex:
  "normalizeFingerprint (hex_EncodeToString bs) = bs"
  "normalizeFingerprint (''0x'' @ hex_EncodeToString bs) = bs"
proof -
  have "take 2 (hex_EncodeToString bs) \<noteq> ''0x''"
    by (cases bs) (use hex_digit_not_x in \<open>auto simp: numeral_2_eq_2\<close>)
  then show "normalizeFingerprint (hex_EncodeToString bs) = bs"
    by (cases bs) (simp_all add: normalizeFingerprint_def hex_round_trip del: hex_EncodeToString_simps(2),
        simp add: normalizeFingerprint_def Let_def hex_round_trip [of "_ # _", simplified])
  show "normalizeFingerprint (''0x'' @ hex_EncodeToString bs) = bs"
    by (simp add: normalizeFingerprint_def hex_round_trip)
qed

subsection \<open>Email addresses\<close>

text \<open>
  The pattern of email addresses matches exactly the texts of the form \<open>local@label.rest\<close> with
  each part non-empty and over its class of characters.
\<close>

theorem emailRegexp_language:
  "emailRegexp s \<longleftrightarrow> (\<exists>user label tld. s = user @ CHR ''@'' # label @ CHR ''.'' # tld \<and>
     user \<noteq> [] \<and> set user \<subseteq> Collect local_char \<and> label \<noteq> [] \<and> set label \<subseteq> Collect label_char \<and>
     tld \<noteq> [] \<and> set tld \<subseteq> Collect domain_char)" (is "_ \<longleftrightarrow> ?R")
proof
  assume m: "emailRegexp s"
  then obtain rest tld where r: "dropWhile local_char s = CHR ''@'' # rest"
    "dropWhile label_char rest = CHR ''.'' # tld" "takeWhile local_char s \<noteq> []"
    "takeWhile label_char rest \<noteq> []" "tld \<noteq> []" "list_all domain_char tld"
    by (auto simp: emailRegexp_def split: list.splits)
  have "s = takeWhile local_char s @ CHR ''@'' # takeWhile label_char rest @ CHR ''.'' # tld"
    by (metis r(1,2) takeWhile_dropWhile_id)
  with r show ?R
    by (intro exI [of _ "takeWhile local_char s"] exI [of _ "takeWhile label_char rest"] exI [of _ tld])
      (auto dest: set_takeWhileD simp: list_all_iff)
next
  assume ?R
  then obtain user label tld where s: "s = user @ CHR ''@'' # label @ CHR ''.'' # tld"
    and u: "user \<noteq> []" "\<forall>ch \<in> set user. local_char ch" and l: "label \<noteq> []" "\<forall>ch \<in> set label. label_char ch"
    and t: "tld \<noteq> []" "\<forall>ch \<in> set tld. domain_char ch" by (metis mem_Collect_eq subsetD)
  have "\<not> local_char CHR ''@''" "\<not> label_char CHR ''.''"
    by (simp_all add: local_char_def label_char_def alphanumeric_def)
  then have "dropWhile local_char s = CHR ''@'' # label @ CHR ''.'' # tld" "takeWhile local_char s = user"
    "dropWhile label_char (label @ CHR ''.'' # tld) = CHR ''.'' # tld"
    "takeWhile label_char (label @ CHR ''.'' # tld) = label"
    using u l by (simp_all add: s dropWhile_append3 takeWhile_append2 dropWhile_append2)
  then show "emailRegexp s" using u l t by (simp add: emailRegexp_def list_all_iff)
qed

end
