(* ===== verification/Sign_Verify.thy ===== *)
theory Sign_Verify
  imports Cms_Verify
begin

text \<open>
  From \<open>Sign\<close> to \<open>Verify\<close>: the message that signing makes, its encoding, what the parser makes of the
  encoding, and every check of the verifier on the result.  The cryptography enters as a relation
  between the key, the certificate and the signature check, stated in \<open>verifiable\<close>.
\<close>

subsection \<open>The message that signing makes\<close>

definition sha256_identifier :: AlgorithmIdentifier where
  "sha256_identifier = \<lparr>Algorithm = DigestAlgorithmSHA256, Parameters = nil_raw\<rparr>"

definition serial_id :: "certificate \<Rightarrow> bytes" where
  "serial_id cert = RawIssuer cert @ int_tlv (cert_SerialNumber cert)"

definition signed_attributes :: "bytes \<Rightarrow> bytes \<Rightarrow> Attribute list" where
  "signed_attributes time digest =
     [the_attribute AttributeContentType [6, 9, 42, 134, 72, 134, 247, 13, 1, 7, 1],
      the_attribute AttributeSigningTime (tlv 0 23 False time),
      the_attribute AttributeMessageDigest (octets_tlv digest)]"

definition signer_info :: "certificate \<Rightarrow> bytes \<Rightarrow> bytes \<Rightarrow> oid \<Rightarrow> bytes \<Rightarrow> SignerInfo" where
  "signer_info cert time digest sig s =
     \<lparr>Version = 1, SID = raw_of 0 16 True (serial_id cert), DigestAlgorithm = sha256_identifier,
      SignedAttrs = Some (signed_attributes time digest),
      SignatureAlgorithm = \<lparr>Algorithm = sig, Parameters = nil_raw\<rparr>, Signature = s, UnsignedAttrs = None\<rparr>"

definition signed_data :: "certificate list \<Rightarrow> EncapsulatedContentInfo \<Rightarrow> SignerInfo \<Rightarrow> SignedData" where
  "signed_data certs eci si =
     \<lparr>sd_Version = 1, DigestAlgorithms = [sha256_identifier], EncapContentInfo = eci,
      Certificates = Some (map raw_certificate certs), CRLs = None, SignerInfos = [si]\<rparr>"

text \<open>The signature OID of the key, and the algorithm it is read back as.\<close>

definition signature_oid :: "certificate \<Rightarrow> oid" where
  "signature_oid cert =
     (if PublicKeyAlgorithm cert = RSA then SignatureAlgorithmSHA256WithRSA else SignatureAlgorithmECDSAWithSHA256)"

definition signature_algorithm_of :: "certificate \<Rightarrow> signature_algorithm" where
  "signature_algorithm_of cert = (if PublicKeyAlgorithm cert = RSA then SHA256WithRSA else ECDSAWithSHA256)"

lemma signature_oid_table:
  assumes "PublicKeyAlgorithm cert = RSA \<or> PublicKeyAlgorithm cert = ECDSA"
  shows "lookup X509PublicKeyAndDigestAlgorithmToSignatureAlgorithm (\<lambda>_. None) (PublicKeyAlgorithm cert)
    (oid_String DigestAlgorithmSHA256) = Some (signature_oid cert)"
  using assms
  by (auto simp: X509PublicKeyAndDigestAlgorithmToSignatureAlgorithm_def lookup_def signature_oid_def)
    (simp_all add: oid_defs)

lemma X509SignatureAlgorithm_signer_info:
  "X509SignatureAlgorithm (signer_info cert time digest (signature_oid cert) s) = signature_algorithm_of cert"
  by (simp add: X509SignatureAlgorithm_def signer_info_def signature_oid_def signature_algorithm_of_def
      SignatureAlgorithmToX509SignatureAlgorithm_def lookup_def Let_def) (simp add: oid_defs)

text \<open>What \<open>AddSignerInfo\<close> makes of a new message.\<close>

lemma AddSignerInfo_new:
  assumes s: "signable c now cert signer data" and k: "key_chain c cert chain"
  obtains time sm sig where
    "length time = 13"
    "AddSignerInfo c now chain signer (cms_NewSignedData data) = (signed_data chain (NewDataEncapsulatedContentInfo data)
       (signer_info cert time (hash_sum c SHA256 data) (signature_oid cert) sig), Ok ())"
    "MarshaledForVerification (Some (signed_attributes time (hash_sum c SHA256 data))) = Ok sm"
    "Sign_digest signer (hash_sum c SHA256 sm) SHA256 = Ok sig"
proof -
  let ?sd = "cms_NewSignedData data" and ?eci = "NewDataEncapsulatedContentInfo data"
  have a: "wf_certificate cert" "PublicKeyAlgorithm cert = RSA \<or> PublicKeyAlgorithm cert = ECDSA"
    "\<And>d. length (hash_sum c SHA256 d) = 32" "utc_now now" "length data < 2 ^ 31"
    using s by (simp_all add: signable_def)
  obtain sd' where sd': "AddSignerInfo c now chain signer ?sd = (sd', Ok ())"
    using AddSignerInfo_chain [OF s k] by (auto simp: cms_NewSignedData_def)
  obtain pub cert' si sd1 where "MarshalPKIXPublicKey c (Public signer) = Ok pub" "cert' \<in> set chain"
      "MarshalPKIXPublicKey c (PublicKey cert') = Ok pub"
    and sd1: "sd1 = ?sd\<lparr>Certificates := go_append (Certificates ?sd) (map raw_certificate chain)\<rparr>"
    and si: "new_SignerInfo c now cert' pub signer sd1 = Ok si"
    and eq: "sd' = (addDigestAlgorithm (DigestAlgorithm si) sd1)\<lparr>SignerInfos := SignerInfos ?sd @ [si]\<rparr>"
    by (rule AddSignerInfo_Ok [OF sd'])
  then have cert': "cert' = cert" using s k by (simp add: signable_def key_chain_def)
  have eci: "EncapContentInfo sd1 = ?eci" "EContentType ?eci = ContentTypeData"
    by (simp_all add: sd1 cms_NewSignedData_def NewSignedData_def NewDataEncapsulatedContentInfo_def
        NewEncapsulatedContentInfo_def)
  have content: "EContentValue ?eci = Ok (Some data)"
    using EContentValue_new [OF a(5)] by (simp add: NewDataEncapsulatedContentInfo_def)
  obtain content' attrs sm sid sig where
    new: "EContentValue (EncapContentInfo sd1) = Ok (Some content')" "NewIssuerAndSerialNumber cert = Ok sid"
      "new_SignedAttrs c now SHA256 (EContentType (EncapContentInfo sd1)) content' = Ok attrs"
      "MarshaledForSigning (Some attrs) = Ok sm"
      "Sign_digest signer (hash_sum c SHA256 sm) SHA256 = Ok (Signature si)"
      "lookup X509PublicKeyAndDigestAlgorithmToSignatureAlgorithm (\<lambda>_. None) (PublicKeyAlgorithm cert)
        (oid_String DigestAlgorithmSHA256) = Some sig"
    and si_eq: "si = \<lparr>Version = 1, SID = sid, DigestAlgorithm = \<lparr>Algorithm = DigestAlgorithmSHA256, Parameters = nil_raw\<rparr>,
      SignedAttrs = Some attrs, SignatureAlgorithm = \<lparr>Algorithm = sig, Parameters = nil_raw\<rparr>,
      Signature = Signature si, UnsignedAttrs = None\<rparr>"
    by (rule new_SignerInfo_inv [OF si [unfolded cert']])
  have c': "content' = data" using new(1) content eci by simp
  obtain time sm' attrs' where time: "length time = 13"
    and attrs': "attrs' = [the_attribute AttributeContentType [6, 9, 42, 134, 72, 134, 247, 13, 1, 7, 1],
        the_attribute AttributeSigningTime (tlv 0 23 False time),
        the_attribute AttributeMessageDigest (octets_tlv (hash_sum c SHA256 data))]"
    and new': "new_SignedAttrs c now SHA256 ContentTypeData data = Ok attrs'"
      "MarshaledForSigning (Some attrs') = Ok sm'" "MarshaledForVerification (Some attrs') = Ok sm'"
    by (rule new_SignedAttrs_sorted [OF a(4) oid_tlv_content_types(2), of c SHA256 data]) (simp_all add: a(3))
  have "attrs = attrs'" using new(3) new'(1) eci c' by simp
  then have attrs: "attrs = signed_attributes time (hash_sum c SHA256 data)" and sm: "sm = sm'"
    using attrs' new(4) new'(2) by (simp_all add: signed_attributes_def)
  have "sid = raw_of 0 16 True (serial_id cert)" "sig = signature_oid cert"
    using new(2,6) NewIssuerAndSerialNumber_Ok [OF a(1)] signature_oid_table [OF a(2)]
    by (simp_all add: serial_id_def)
  then have "si = signer_info cert time (hash_sum c SHA256 data) (signature_oid cert) (Signature si)"
    by (subst si_eq) (simp add: signer_info_def sha256_identifier_def attrs)
  moreover have "sd' = signed_data chain ?eci si"
    using si_eq [THEN arg_cong, of DigestAlgorithm] k
    by (simp add: eq sd1 cms_NewSignedData_def NewSignedData_def addDigestAlgorithm_def signed_data_def
        go_append_def IsTypeData_def eci(2) sha256_identifier_def key_chain_def)
      (auto simp: sha256_identifier_def)
  ultimately have add: "AddSignerInfo c now chain signer ?sd = (signed_data chain ?eci
      (signer_info cert time (hash_sum c SHA256 data) (signature_oid cert) (Signature si)), Ok ())"
    using sd' by simp
  have "MarshaledForVerification (Some (signed_attributes time (hash_sum c SHA256 data))) = Ok sm"
    using new'(3) \<open>attrs = attrs'\<close> attrs sm by simp
  then show ?thesis by (rule that [OF time add _ new(5)])
qed

subsection \<open>Its encoding\<close>

text \<open>What the encoding asks of the certificate beyond \<open>wf_certificate\<close>: that it is DER.\<close>

definition der_certificate :: "certificate \<Rightarrow> bool" where
  "der_certificate cert \<longleftrightarrow> wf_certificate cert \<and> is_der (Raw cert) \<and> is_der (RawIssuer cert)"

lemma wf_oids: "wf_oid DigestAlgorithmSHA256" "wf_oid (signature_oid cert)" "wf_oid AttributeContentType"
  "wf_oid AttributeSigningTime" "wf_oid AttributeMessageDigest"
  by (simp_all add: signature_oid_def wf_oid_def oid_defs)

lemma serial_id_short: "wf_certificate cert \<Longrightarrow> length (serial_id cert) < 2 ^ 31"
proof -
  assume "wf_certificate cert"
  then obtain c t k body where "length (seq_tlv (RawIssuer cert @ int_tlv (cert_SerialNumber cert))) < 2 ^ 31"
    by (rule wf_certificate_Issuer)
  then show ?thesis unfolding serial_id_def by (rule length_parts(1))
qed

lemma the_attribute_wf:
  assumes "wf_oid typ" "length enc < 2 ^ 31" "is_der enc"
  shows "wf_Attribute (the_attribute typ enc)" "is_der (marshal_raw (attr_RawValue (the_attribute typ enc)))"
    "norm_Attribute (the_attribute typ enc) = the_attribute typ enc"
proof -
  have "decoded_raw (raw_of 0 17 True enc)" using assms(2) by (intro decoded_raw_raw_of) (simp add: wf_tlv_def)
  then show "wf_Attribute (the_attribute typ enc)" "norm_Attribute (the_attribute typ enc) = the_attribute typ enc"
    using assms(1) by (simp_all add: the_attribute_def wf_Attribute_def norm_Attribute_def norm_raw_decoded wf_raw_decoded)
  show "is_der (marshal_raw (attr_RawValue (the_attribute typ enc)))"
    using assms(3) by (simp add: the_attribute_def is_der_constructed is_der_ders)
qed

lemma signed_attributes_wf:
  assumes "length time = 13" "length digest = 32"
  shows "\<forall>a \<in> set (signed_attributes time digest).
    wf_Attribute a \<and> is_der (marshal_raw (attr_RawValue a)) \<and> norm_Attribute a = a"
proof -
  have "is_der (tlv 0 23 False time)" "is_der (octets_tlv digest)"
    "is_der [6, 9, 42, 134, 72, 134, 247, 13, 1, 7, 1]"
    using assms is_der_oid_tlv [OF oid_tlv_content_types(2)]
    by (simp_all add: octets_tlv_def is_der_primitive)
  moreover have "length (tlv 0 23 False time) < 2 ^ 31" "length (octets_tlv digest) < 2 ^ 31"
    using assms by (simp_all add: octets_tlv_def tlv_def appendTagAndLength_def length_octets_def)
  ultimately show ?thesis
    unfolding signed_attributes_def by (auto simp: the_attribute_wf wf_oids)
qed

lemma signer_info_wf:
  assumes "der_certificate cert" "length time = 13" "length digest = 32"
  shows "wf_SignerInfo (signer_info cert time digest (signature_oid cert) s)"
    and "der_SignerInfo (signer_info cert time digest (signature_oid cert) s)"
    and "norm_SignerInfo (signer_info cert time digest (signature_oid cert) s)
      = signer_info cert time digest (signature_oid cert) s"
proof -
  have wf: "wf_certificate cert" "is_der (RawIssuer cert)" using assms(1) by (simp_all add: der_certificate_def)
  have short: "length (serial_id cert) < 2 ^ 31" using wf(1) by (rule serial_id_short)
  then have raw: "decoded_raw (raw_of 0 16 True (serial_id cert))"
    by (intro decoded_raw_raw_of) (simp add: wf_tlv_def)
  have "length (int_tlv (cert_SerialNumber cert)) < 2 ^ 31" using short by (simp add: serial_id_def)
  then have "length (int_octets (cert_SerialNumber cert)) < 2 ^ 31" by (rule length_parts)
  then have "is_der (int_tlv (cert_SerialNumber cert))" unfolding int_tlv_def by (intro is_der_primitive) simp_all
  then have der: "is_der (tlv 0 16 True (serial_id cert))"
    unfolding serial_id_def by (intro is_der_constructed ders_append is_der_ders wf(2))
  note attrs = signed_attributes_wf [OF assms(2,3)]
  show "wf_SignerInfo (signer_info cert time digest (signature_oid cert) s)"
    using attrs by (simp add: wf_SignerInfo_def signer_info_def sha256_identifier_def wf_AlgorithmIdentifier_def
        wf_opt_def wf_oids wf_raw_decoded raw wf_Attributes_def int_octets_small)
  show "der_SignerInfo (signer_info cert time digest (signature_oid cert) s)"
    using attrs der by (simp add: der_SignerInfo_def signer_info_def sha256_identifier_def der_opt_def
        der_Attributes_def)
  have "map norm_Attribute (signed_attributes time digest) = signed_attributes time digest"
    using attrs by (simp add: map_idI)
  then show "norm_SignerInfo (signer_info cert time digest (signature_oid cert) s)
      = signer_info cert time digest (signature_oid cert) s"
    by (simp add: norm_SignerInfo_def signer_info_def norm_raw_decoded raw sha256_identifier_def
        norm_AlgorithmIdentifier_def norm_opt_def norm_signed_def norm_unsigned_def)
qed

text \<open>The encapsulated content, present or detached.\<close>

definition detached_eci :: EncapsulatedContentInfo where
  "detached_eci = \<lparr>EContentType = ContentTypeData, EContent = nil_raw\<rparr>"

lemma detached_eci_eq: "(NewDataEncapsulatedContentInfo data)\<lparr>EContent := nil_raw\<rparr> = detached_eci"
  by (simp add: NewDataEncapsulatedContentInfo_def NewEncapsulatedContentInfo_def detached_eci_def)

definition good_eci :: "EncapsulatedContentInfo \<Rightarrow> bool" where
  "good_eci eci \<longleftrightarrow> EContentType eci = ContentTypeData \<and> wf_EncapsulatedContentInfo eci \<and> der_opt (EContent eci)"

lemma good_eci_detached: "good_eci detached_eci"
  by (simp add: good_eci_def detached_eci_def wf_EncapsulatedContentInfo_def wf_oid_ContentTypeSignedData der_opt_def)

lemma good_eci_data:
  assumes "length (octets_tlv data) < 2 ^ 31"
  shows "good_eci (NewDataEncapsulatedContentInfo data)"
    and "EContentValue (norm_EncapsulatedContentInfo (NewDataEncapsulatedContentInfo data)) = Ok (Some data)"
proof -
  let ?rv = "\<lparr>rv_Class = 2, rv_Tag = 0, rv_IsCompound = True, rv_Bytes = Some (octets_tlv data), rv_FullBytes = None\<rparr>"
  have eci: "NewDataEncapsulatedContentInfo data = \<lparr>EContentType = ContentTypeData, EContent = ?rv\<rparr>"
    by (simp add: NewDataEncapsulatedContentInfo_def NewEncapsulatedContentInfo_def octets_tlv_def marshal_raw_fresh)
  have ne: "octets_tlv data \<noteq> []" by (simp add: octets_tlv_def)
  have short: "length data < 2 ^ 31" using assms by (rule length_parts)
  then have "is_der (octets_tlv data)" unfolding octets_tlv_def by (intro is_der_primitive) simp_all
  then have "is_der (marshal_raw ?rv)" by (simp add: marshal_raw_fresh is_der_constructed is_der_ders)
  then show "good_eci (NewDataEncapsulatedContentInfo data)"
    using marshal_explicit0 [OF ne assms]
    by (simp add: good_eci_def eci wf_EncapsulatedContentInfo_def wf_oid_ContentTypeSignedData der_opt_def)
  have "unmarshal_raw (tlv 0 4 False data @ []) = Ok (raw_of 0 4 False data, [])"
    using short by (intro unmarshal_raw_tlv) (simp add: wf_tlv_def)
  then show "EContentValue (norm_EncapsulatedContentInfo (NewDataEncapsulatedContentInfo data)) = Ok (Some data)"
    by (simp add: eci norm_EncapsulatedContentInfo_def norm_opt_def nil_raw_def norm_raw_def EContentValue_def
        octets_tlv_def no_trailing_def)
qed

text \<open>The message is written, and the parser gives it back.\<close>

lemma is_ok_simps: "is_ok (Ok x)" "is_ok (obind m f) \<longleftrightarrow> (\<exists>x. m = Ok x \<and> is_ok (f x))"
  by (auto simp: is_ok_iff outcome_simps)

lemma is_ok_traverse: "(\<And>x. x \<in> set xs \<Longrightarrow> is_ok (m x)) \<Longrightarrow> is_ok (traverse m xs)"
proof (induction xs)
  case (Cons x xs)
  then have "is_ok (m x)" "is_ok (traverse m xs)" by simp_all
  then show ?case by (auto simp: is_ok_iff)
qed simp

lemma is_ok_oid_tlv: "wf_oid oid \<Longrightarrow> is_ok (oid_tlv oid)"
  using wf_oid_Ok [of oid] by (auto simp: oid_tlv_def is_ok_simps)

lemma is_ok_marshal:
  "wf_AlgorithmIdentifier a \<Longrightarrow> is_ok (marshal_AlgorithmIdentifier a)"
  "wf_EncapsulatedContentInfo e \<Longrightarrow> is_ok (marshal_EncapsulatedContentInfo e)"
  "wf_Attribute at \<Longrightarrow> is_ok (marshal_Attribute at)"
  using is_ok_oid_tlv [of "Algorithm a"] is_ok_oid_tlv [of "EContentType e"] is_ok_oid_tlv [of "attr_Type at"]
  by (auto simp: marshal_AlgorithmIdentifier_def wf_AlgorithmIdentifier_def marshal_EncapsulatedContentInfo_def
      wf_EncapsulatedContentInfo_def marshal_Attribute_def wf_Attribute_def is_ok_iff)

lemma is_ok_marshal_Attributes: "wf_Attributes attrs \<Longrightarrow> is_ok (marshal_Attributes body n attrs)"
proof (cases attrs)
  case (Some as)
  assume "wf_Attributes attrs"
  then have "is_ok (traverse marshal_Attribute as)"
    using Some by (intro is_ok_traverse is_ok_marshal) (simp add: wf_Attributes_def)
  then show ?thesis by (auto simp: marshal_Attributes_def Some is_ok_iff)
qed (simp add: marshal_Attributes_def)

lemma is_ok_marshal_SignerInfo:
  assumes "wf_SignerInfo si"
  shows "is_ok (marshal_SignerInfo si)"
proof -
  have "is_ok (marshal_AlgorithmIdentifier (DigestAlgorithm si))" "is_ok (marshal_AlgorithmIdentifier (SignatureAlgorithm si))"
    "is_ok (marshal_Attributes concat 0 (SignedAttrs si))" "is_ok (marshal_Attributes set_body 1 (UnsignedAttrs si))"
    using assms by (simp_all add: wf_SignerInfo_def is_ok_marshal is_ok_marshal_Attributes)
  then show ?thesis by (auto simp: marshal_SignerInfo_def is_ok_iff)
qed

lemma ContentInfoDER_ok:
  assumes "wf_SignedData sd"
  shows "is_ok (ContentInfoDER sd)"
proof -
  have "is_ok (traverse marshal_AlgorithmIdentifier (DigestAlgorithms sd))"
    "is_ok (marshal_EncapsulatedContentInfo (EncapContentInfo sd))"
    "is_ok (traverse marshal_SignerInfo (SignerInfos sd))"
    using assms by (simp_all add: wf_SignedData_def is_ok_marshal is_ok_marshal_SignerInfo is_ok_traverse)
  then have "is_ok (marshal_SignedData sd)" by (auto simp: marshal_SignedData_def is_ok_iff)
  then show ?thesis
    using is_ok_oid_tlv [OF wf_oid_ContentTypeSignedData(1)]
    by (auto simp: ContentInfoDER_def SignedData_ContentInfo_def marshal_ContentInfo_def is_ok_iff)
qed

text \<open>The certificates of a message are written in the order of their encodings.\<close>

definition der_order :: "certificate list \<Rightarrow> certificate list" where
  "der_order certs = sort_key Raw certs"

lemma set_der_order [simp]: "set (der_order certs) = set certs"
  by (simp add: der_order_def)

lemma der_order_single [simp]: "der_order [cert] = [cert]"
  by (simp add: der_order_def)

lemma insort_key_map: "insort_key f (g x) (map g xs) = map g (insort_key (\<lambda>x. f (g x)) x xs)"
  by (induction xs) simp_all

lemma sort_key_map: "sort_key f (map g xs) = map g (sort_key (\<lambda>x. f (g x)) xs)"
  by (induction xs) (simp_all add: insort_key_map)

lemma insort_key_cong: "(\<And>y. y \<in> insert x (set xs) \<Longrightarrow> f y = g y) \<Longrightarrow> insort_key f x xs = insort_key g x xs"
  by (induction xs) auto

lemma sort_key_cong: "(\<And>x. x \<in> set xs \<Longrightarrow> f x = g x) \<Longrightarrow> sort_key f xs = sort_key g xs"
proof (induction xs)
  case (Cons x xs)
  then have "sort_key f xs = sort_key g xs" by simp
  moreover have "insort_key f x (sort_key g xs) = insort_key g x (sort_key g xs)"
    by (rule insort_key_cong) (use Cons.prems in simp)
  ultimately show ?case by simp
qed simp

lemma der_certificate_raw:
  assumes "der_certificate cert"
  shows "decoded_raw (raw_certificate cert)" "marshal_raw (raw_certificate cert) = Raw cert"
    "is_der (marshal_raw (raw_certificate cert))" "norm_raw (raw_certificate cert) = raw_certificate cert"
    "rv_Class (raw_certificate cert) = 0" "rv_Tag (raw_certificate cert) = 16"
    "elems (rv_FullBytes (raw_certificate cert)) = Raw cert"
proof -
  have der: "wf_certificate cert" "is_der (Raw cert)" using assms by (simp_all add: der_certificate_def)
  obtain body where raw: "raw_certificate cert = raw_of 0 16 True body" "length body < 2 ^ 31" "Raw cert = tlv 0 16 True body"
    by (rule wf_certificate_Raw [OF der(1)])
  then show dec: "decoded_raw (raw_certificate cert)"
    by (simp add: raw(1)) (intro decoded_raw_raw_of, simp add: wf_tlv_def)
  show "norm_raw (raw_certificate cert) = raw_certificate cert" by (rule norm_raw_decoded [OF dec])
  show "marshal_raw (raw_certificate cert) = Raw cert" using raw by simp
  then show "is_der (marshal_raw (raw_certificate cert))" using der(2) by simp
  show "rv_Class (raw_certificate cert) = 0" "rv_Tag (raw_certificate cert) = 16"
    "elems (rv_FullBytes (raw_certificate cert)) = Raw cert"
    using raw by simp_all
qed

lemma norm_raws_certificates:
  assumes "\<forall>x \<in> set certs. der_certificate x"
  shows "norm_raws (Some (map raw_certificate certs)) = Some (map raw_certificate (der_order certs))"
proof -
  have "sort_key (\<lambda>x. marshal_raw (raw_certificate x)) certs = der_order certs"
    unfolding der_order_def by (rule sort_key_cong) (use assms in \<open>simp add: der_certificate_raw\<close>)
  then show ?thesis using assms by (simp add: norm_raws_def sort_key_map der_certificate_raw)
qed

lemma ToDER_signed_data:
  assumes cert: "der_certificate cert" "\<forall>x \<in> set certs. der_certificate x"
    and len: "length time = 13" "length digest = 32" and eci: "good_eci eci"
  shows "\<exists>bs. ToDER (signed_data certs eci (signer_info cert time digest (signature_oid cert) s)) = Ok bs \<and>
    (length bs < 2 ^ 31 \<longrightarrow> ParseSignedData (bs @ junk)
      = Ok (signed_data (der_order certs) (norm_EncapsulatedContentInfo eci)
          (signer_info cert time digest (signature_oid cert) s)))"
proof -
  let ?si = "signer_info cert time digest (signature_oid cert) s" and ?sd = "signed_data certs eci"
  note si = signer_info_wf [OF cert(1) len, of s]
  have wf: "wf_SignedData (?sd ?si)"
    using si(1) eci cert(2)
    by (simp add: wf_SignedData_def signed_data_def sha256_identifier_def wf_AlgorithmIdentifier_def wf_opt_def
        wf_oids good_eci_def wf_raw_decoded int_octets_small der_certificate_raw)
  have der: "der_SignedData (?sd ?si)"
    using si(2) eci cert(2)
    by (simp add: der_SignedData_def signed_data_def sha256_identifier_def der_opt_def good_eci_def der_certificate_raw)
      (simp add: der_certificate_def)
  have norm: "norm_SignedData (?sd ?si) = signed_data (der_order certs) (norm_EncapsulatedContentInfo eci) ?si"
    using si(3) norm_raws_certificates [OF cert(2)]
    by (simp add: norm_SignedData_def signed_data_def sha256_identifier_def norm_AlgorithmIdentifier_def norm_opt_def
        norm_raws_def [of None])
  have "is_ok (ToDER (?sd ?si))" unfolding ToDER_def by (rule ContentInfoDER_ok [OF wf])
  then obtain bs where bs: "ToDER (?sd ?si) = Ok bs" by (auto simp: is_ok_iff)
  show ?thesis
  proof (intro exI conjI impI)
    show "ToDER (?sd ?si) = Ok bs" by (rule bs)
    assume "length bs < 2 ^ 31"
    from ContentInfoDER_parse [OF bs [unfolded ToDER_def] wf der this, of junk] norm
    show "ParseSignedData (bs @ junk) = Ok (signed_data (der_order certs) (norm_EncapsulatedContentInfo eci) ?si)"
      by (auto simp: ParseSignedData_def)
  qed
qed

subsection \<open>Its verification\<close>

text \<open>
  What the caller must supply: a parser that reads the certificates of the message back, among which
  the signer's is told apart by issuer and serial number; a signature check that accepts what the key
  signs; and a chain for the certificate with the pool that the verifier hands over, to which all
  certificates of the message have been added.
\<close>

definition carried :: "crypto \<Rightarrow> certificate \<Rightarrow> certificate list \<Rightarrow> bool" where
  "carried c cert certs \<longleftrightarrow> cert \<in> set certs \<and> addable certs None \<and>
     (\<forall>x \<in> set certs. der_certificate x \<and> ParseCertificate c (Raw x) = Ok x \<and>
        (RawIssuer x = RawIssuer cert \<and> cert_SerialNumber x = cert_SerialNumber cert \<longrightarrow> x = cert))"

definition verifiable :: "crypto \<Rightarrow> x509 \<Rightarrow> certificate \<Rightarrow> certificate list \<Rightarrow> signer \<Rightarrow> verify_options
    \<Rightarrow> certificate list \<Rightarrow> certificate list list \<Rightarrow> bool" where
  "verifiable c x cert certs signer opts pool chain \<longleftrightarrow>
     carried c cert certs \<and>
     (\<forall>m s. Sign_digest signer (hash_sum c SHA256 m) SHA256 = Ok s \<longrightarrow>
        CheckSignature x cert (signature_algorithm_of cert) m s = Ok ()) \<and>
     Verify_certificate x cert opts (foldl AddCert pool (der_order certs)) = Ok chain"

lemma carried_der: "carried c cert certs \<Longrightarrow> der_certificate cert" "carried c cert certs \<Longrightarrow> \<forall>x \<in> set certs. der_certificate x"
  by (auto simp: carried_def)

lemma carried_single:
  assumes "der_certificate cert" "ParseCertificate c (Raw cert) = Ok cert"
  shows "carried c cert [cert]"
  using assms addable_single by (simp add: carried_def der_certificate_def)

lemma attribute_types: "AttributeContentType \<noteq> AttributeSigningTime" "AttributeContentType \<noteq> AttributeMessageDigest"
  "AttributeSigningTime \<noteq> AttributeContentType" "AttributeSigningTime \<noteq> AttributeMessageDigest"
  "AttributeMessageDigest \<noteq> AttributeContentType" "AttributeMessageDigest \<noteq> AttributeSigningTime"
  by (simp_all add: oid_defs)

lemma the_attribute_single:
  assumes "wf_tlv c t body" "length (tlv c t k body) < 2 ^ 31"
  shows "DecodeAnySet (attr_RawValue (the_attribute typ (tlv c t k body))) = Ok \<lparr>Elements = Some [raw_of c t k body]\<rparr>"
  using DecodeAnySet_single [OF assms(1)] by (simp add: the_attribute_def)

lemma content_type_octets: "[6, 9, 42, 134, 72, 134, 247, 13, 1, 7, 1] = tlv 0 6 False [42, 134, 72, 134, 247, 13, 1, 7, 1]"
  by (simp add: tlv_def appendTagAndLength_def length_octets_def octet_def)

lemma signer_info_attributes:
  assumes "length digest = 32"
  shows "GetContentTypeAttribute (signer_info cert time digest sig s) = Ok ContentTypeData"
    and "GetMessageDigestAttribute (signer_info cert time digest sig s) = Ok digest"
proof -
  let ?attrs = "Some (signed_attributes time digest)"
  have "length (octets_tlv digest) < 2 ^ 31"
    using assms by (simp add: octets_tlv_def tlv_def appendTagAndLength_def length_octets_def)
  then have "GetOnlyAttributeValueBytes ?attrs AttributeMessageDigest = Ok (raw_of 0 4 False digest)"
    using the_attribute_single [of 0 4 digest False AttributeMessageDigest] assms
    by (simp add: GetOnlyAttributeValueBytes_Ok_iff signed_attributes_def octets_tlv_def wf_tlv_def attribute_types)
      (simp add: the_attribute_def attribute_types)
  then show "GetMessageDigestAttribute (signer_info cert time digest sig s) = Ok digest"
    by (simp add: GetMessageDigestAttribute_def signer_info_def)
  have "DecodeAnySet (attr_RawValue (the_attribute AttributeContentType (tlv 0 6 False [42, 134, 72, 134, 247, 13, 1, 7, 1])))
      = Ok \<lparr>Elements = Some [raw_of 0 6 False [42, 134, 72, 134, 247, 13, 1, 7, 1]]\<rparr>"
    by (rule the_attribute_single) (simp_all add: wf_tlv_def tlv_def appendTagAndLength_def length_octets_def)
  then have "GetOnlyAttributeValueBytes ?attrs AttributeContentType
      = Ok (raw_of 0 6 False [42, 134, 72, 134, 247, 13, 1, 7, 1])"
    unfolding GetOnlyAttributeValueBytes_Ok_iff signed_attributes_def content_type_octets
    by (simp add: the_attribute_def attribute_types)
  moreover have "oid_field plain (tlv 0 6 False [42, 134, 72, 134, 247, 13, 1, 7, 1]) = Ok (ContentTypeData, [])"
    using oid_field_tlv [OF wf_oid_ContentTypeSignedData(2) oid_tlv_content_types(2), of "[]"]
    unfolding content_type_octets [symmetric] by simp
  ultimately show "GetContentTypeAttribute (signer_info cert time digest sig s) = Ok ContentTypeData"
    by (simp add: GetContentTypeAttribute_def signer_info_def no_trailing_def)
qed

lemma FindCertificate_signer_info:
  assumes "carried c cert certs" "set certs' = set certs"
  shows "FindCertificate (signer_info cert time digest sig s) certs' = Ok cert"
proof -
  have "wf_certificate cert" using carried_der(1) [OF assms(1)] by (simp add: der_certificate_def)
  from issuerAndSerialNumberSID_new [OF this, of "signer_info cert time digest sig s"]
  obtain isn where isn: "issuerAndSerialNumberSID (signer_info cert time digest sig s) = Ok isn"
    "elems (rv_FullBytes (Issuer isn)) = RawIssuer cert" "SerialNumber isn = cert_SerialNumber cert"
    by (auto simp: signer_info_def serial_id_def)
  then show ?thesis
    using assms isn by (auto simp: FindCertificate_def signer_info_def carried_def intro!: first_certificate_unique)
qed

lemma signed_message_signer_info:
  assumes c: "Available c SHA256" "length digest = 32"
    and sm: "MarshaledForVerification (Some (signed_attributes time digest)) = Ok sm"
    and eci: "EContentType eci = ContentTypeData"
  shows "signed_message c econtent eci (signer_info cert time digest sig s)
    = (if hash_sum c SHA256 econtent = digest then Ok sm else Err (ErrorString ''invalid message digest''))"
proof -
  let ?si = "signer_info cert time digest sig s"
  have "SignerInfo_Hash c ?si = Ok SHA256"
    using c(1) by (simp add: SignerInfo_Hash_def signer_info_def sha256_identifier_def hash_of_SHA256)
  moreover have "SignedAttrs ?si = Some (signed_attributes time digest)" by (simp add: signer_info_def)
  ultimately show ?thesis
    using signer_info_attributes [OF c(2), of cert time sig s] sm eci by (simp add: signed_message_def)
qed

text \<open>The verifier accepts the signature exactly on content with the digest that was signed.\<close>

lemma check_signer_signer_info:
  assumes v: "verifiable c x cert certs signer opts pool chain" and c: "Available c SHA256" "length digest = 32"
    and sm: "MarshaledForVerification (Some (signed_attributes time digest)) = Ok sm"
    and sig: "Sign_digest signer (hash_sum c SHA256 sm) SHA256 = Ok s" and eci: "EContentType eci = ContentTypeData"
  shows "check_signer c x (Some (der_order certs)) econtent eci (signer_info cert time digest (signature_oid cert) s)
    = (if hash_sum c SHA256 econtent = digest then Ok cert else Err (ErrorString ''invalid message digest''))"
proof -
  let ?si = "signer_info cert time digest (signature_oid cert) s"
  have "FindCertificate ?si (der_order certs) = Ok cert"
    by (rule FindCertificate_signer_info [of c _ certs]) (use v in \<open>simp_all add: verifiable_def\<close>)
  moreover have "CheckSignature x cert (signature_algorithm_of cert) sm s = Ok ()"
    using v sig by (simp add: verifiable_def)
  moreover have "Signature ?si = s" by (simp add: signer_info_def)
  moreover have "signature_algorithm_of cert \<noteq> UnknownSignatureAlgorithm"
    by (simp add: signature_algorithm_of_def)
  ultimately show ?thesis
    by (simp add: check_signer_def signed_message_signer_info [OF c sm eci] X509SignatureAlgorithm_signer_info)
qed

lemma X509Certificates_signed_data:
  assumes "carried c cert certs"
  shows "X509Certificates c (signed_data (der_order certs) eci si) = Ok (Some (der_order certs))"
proof -
  have "traverse (\<lambda>x. if rv_Class (raw_certificate x) \<noteq> 0 \<or> rv_Tag (raw_certificate x) \<noteq> 16 then Err ErrUnsupported
      else ParseCertificate c (elems (rv_FullBytes (raw_certificate x)))) (der_order certs) = Ok (map id (der_order certs))"
    by (rule traverse_map_Ok) (use assms in \<open>simp add: carried_def der_certificate_raw\<close>)
  then show ?thesis by (simp add: X509Certificates_def signed_data_def traverse_map)
qed

lemma verify_signed_data:
  assumes v: "verifiable c x cert certs signer opts (elems pool) chain" and c: "Available c SHA256" "length digest = 32"
    and sm: "MarshaledForVerification (Some (signed_attributes time digest)) = Ok sm"
    and sig: "Sign_digest signer (hash_sum c SHA256 sm) SHA256 = Ok s" and eci: "EContentType eci = ContentTypeData"
  shows "verify c x econtent opts pool (signed_data (der_order certs) eci (signer_info cert time digest (signature_oid cert) s))
    = (foldl AddCert (elems pool) (der_order certs), if hash_sum c SHA256 econtent = digest then Ok [chain]
         else Err (ErrorString ''invalid message digest''))"
proof -
  let ?si = "signer_info cert time digest (signature_oid cert) s"
  have ver: "Verify_certificate x cert opts (foldl AddCert (elems pool) (der_order certs)) = Ok chain"
    and "carried c cert certs" using v by (simp_all add: verifiable_def)
  then have "X509Certificates c (signed_data (der_order certs) eci ?si) = Ok (Some (der_order certs))"
    by (intro X509Certificates_signed_data)
  moreover have "hasTimestamp ?si = Ok False"
    by (simp add: hasTimestamp_def GetValues_def signer_info_def)
  moreover have "SignerInfos (signed_data (der_order certs) eci ?si) = [?si]" "EncapContentInfo (signed_data (der_order certs) eci ?si) = eci"
    by (simp_all add: signed_data_def)
  ultimately show ?thesis
    using check_signer_signer_info [OF v c sm sig eci] ver by (simp add: verify.simps)
qed

subsection \<open>Its size\<close>

text \<open>The message is at most 1000 octets longer than the certificates, the name of the signer's, the content and the signature.\<close>

lemma oid_tlv_signing:
  "oid_tlv DigestAlgorithmSHA256 = Ok [6, 9, 96, 134, 72, 1, 101, 3, 4, 2, 1]"
  "\<exists>bs. oid_tlv (signature_oid cert) = Ok bs \<and> length bs \<le> 11"
  by (auto simp: signature_oid_def oid_tlv_def makeObjectIdentifier_def oid_defs tlv_def appendTagAndLength_def
        appendBase128Int_def base128_hi.simps length_octets_def octet_def)

lemma length_signed_attribute:
  assumes "oid_tlv typ = Ok (attribute_oid n)" "length enc \<le> 50" "marshal_Attribute (the_attribute typ enc) = Ok bs"
  shows "length bs \<le> 100"
  using marshal_the_attribute [OF assms(1), of enc] assms(2,3) by (auto simp: attribute_oid_def)

lemma length_signer_info:
  assumes "length time = 13" "length digest = 32" "length (serial_id cert) + length s \<le> n" "n < 2 ^ 30"
    and "marshal_SignerInfo (signer_info cert time digest (signature_oid cert) s) = Ok bs"
  shows "length bs \<le> n + 500"
proof -
  obtain sigo where sigo: "oid_tlv (signature_oid cert) = Ok sigo" "length sigo \<le> 11" using oid_tlv_signing(2) by blast
  have enc: "length (tlv 0 23 False time) \<le> 50" "length (octets_tlv digest) \<le> 50"
    using assms(1,2) by (simp_all add: octets_tlv_def tlv_def appendTagAndLength_def length_octets_def)
  obtain e1 e2 e3 where e: "traverse marshal_Attribute (signed_attributes time digest) = Ok [e1, e2, e3]"
    and bs: "bs = seq_tlv (int_tlv 1 @ tlv 0 16 True (serial_id cert)
      @ seq_tlv [6, 9, 96, 134, 72, 1, 101, 3, 4, 2, 1] @ tlv 2 0 True (e1 @ e2 @ e3) @ seq_tlv sigo @ octets_tlv s)"
    using assms(5) sigo
    by (auto simp: marshal_SignerInfo_def signer_info_def sha256_identifier_def marshal_AlgorithmIdentifier_def
        oid_tlv_signing optional_raw_def marshal_Attributes_def outcome_simps signed_attributes_def)
  have "length [6, 9, 42, 134, 72, 134, 247, 13, 1, 7, 1 :: byte] \<le> 50" by simp
  note len1 = length_signed_attribute [OF oid_tlv_attributes(1) this]
  note len2 = length_signed_attribute [OF oid_tlv_attributes(3) enc(1)]
  note len3 = length_signed_attribute [OF oid_tlv_attributes(2) enc(2)]
  have lens: "length (e1 @ e2 @ e3) \<le> 300"
    using e by (auto simp: signed_attributes_def outcome_simps dest!: len1 len2 len3)
  have sid: "length (tlv 0 16 True (serial_id cert)) \<le> length (serial_id cert) + 10"
    using assms(3,4) by (intro length_tlv_le) simp_all
  have sig: "length (octets_tlv s) \<le> length s + 10"
    unfolding octets_tlv_def using assms(3,4) by (intro length_tlv_le) simp_all
  have attrs: "length (tlv 2 0 True (e1 @ e2 @ e3)) \<le> 300 + 10" by (rule length_tlv_le [OF lens]) simp_all
  have sigalg: "length (seq_tlv sigo) \<le> 11 + 10" unfolding seq_tlv_def by (rule length_tlv_le [OF sigo(2)]) simp_all
  have small: "length (int_tlv 1) = 3" "length (seq_tlv [6, 9, 96, 134, 72, 1, 101, 3, 4, 2, 1 :: byte]) = 13"
    by (simp_all add: int_tlv_def seq_tlv_def int_octets_small tlv_def appendTagAndLength_def length_octets_def)
  have "length bs \<le> (n + 400) + 10"
    unfolding bs seq_tlv_def [of "int_tlv 1 @ _"]
    by (rule length_tlv_le) (use sid sig attrs sigalg small assms(3,4) in \<open>simp_all\<close>)
  then show ?thesis by simp
qed

lemma length_signed_data:
  assumes "length time = 13" "length digest = 32" "\<forall>x \<in> set certs. der_certificate x"
    and "length (serial_id cert) + length s + length (concat (map Raw certs)) + length (optional_raw (EContent eci)) \<le> n" "n < 2 ^ 30"
    and "EContentType eci = ContentTypeData"
    and "ToDER (signed_data certs eci (signer_info cert time digest (signature_oid cert) s)) = Ok bs"
  shows "length bs \<le> n + 1000"
proof -
  let ?si = "signer_info cert time digest (signature_oid cert) s"
  have raw: "map (marshal_raw \<circ> raw_certificate) certs = map Raw certs"
    using assms(3) by (simp add: der_certificate_raw)
  let ?alg = "seq_tlv [6, 9, 96, 134, 72, 1, 101, 3, 4, 2, 1]"
  let ?eci = "seq_tlv ([6, 9, 42, 134, 72, 134, 247, 13, 1, 7, 1] @ optional_raw (EContent eci))"
  obtain si where si: "marshal_SignerInfo ?si = Ok si"
    and bs: "bs = seq_tlv ([6, 9, 42, 134, 72, 134, 247, 13, 1, 7, 2] @ tlv 2 0 True (seq_tlv (int_tlv 1
      @ set_tlv [?alg] @ ?eci @ tlv 2 0 True (set_body (map Raw certs)) @ set_tlv [si])))"
    using assms(6,7) raw
    by (auto simp: ToDER_def ContentInfoDER_def SignedData_ContentInfo_def marshal_ContentInfo_def marshal_SignedData_def
        signed_data_def sha256_identifier_def marshal_AlgorithmIdentifier_def oid_tlv_signing oid_tlv_content_types
        optional_raw_def [of nil_raw] marshal_EncapsulatedContentInfo_def marshal_raws_def outcome_simps marshal_raw_fresh)
  have "length si \<le> (length (serial_id cert) + length s) + 500"
    by (rule length_signer_info [OF assms(1,2) order_refl _ si]) (use assms(4,5) in simp)
  then have "length (set_tlv [si]) \<le> (length (serial_id cert) + length s + 500) + 10"
    unfolding set_tlv_def using assms(4,5) by (intro length_tlv_le) simp_all
  moreover have "length ?eci \<le> (11 + length (optional_raw (EContent eci))) + 10"
    unfolding seq_tlv_def using assms(4,5) by (intro length_tlv_le) simp_all
  moreover have "length (tlv 2 0 True (set_body (map Raw certs))) \<le> length (concat (map Raw certs)) + 10"
    using assms(4,5) by (intro length_tlv_le) simp_all
  moreover have "length (set_tlv [?alg]) \<le> 30" "length (int_tlv 1) = 3"
    by (simp_all add: set_tlv_def set_body_def int_tlv_def int_octets_small seq_tlv_def tlv_def appendTagAndLength_def length_octets_def)
  ultimately have "length (seq_tlv (int_tlv 1 @ set_tlv [?alg] @ ?eci @ tlv 2 0 True (set_body (map Raw certs)) @ set_tlv [si]))
      \<le> (n + 800) + 10" (is "length ?sd \<le> _")
    unfolding seq_tlv_def [of "int_tlv 1 @ _"] using assms(4,5) by (intro length_tlv_le) simp_all
  then have "length (tlv 2 0 True ?sd) \<le> (n + 810) + 10"
    using assms(5) by (intro length_tlv_le) simp_all
  then have "length bs \<le> (n + 840) + 10"
    unfolding bs seq_tlv_def [of "[6, 9, 42, 134, 72, 134, 247, 13, 1, 7, 2] @ _"] using assms(5) by (intro length_tlv_le) simp_all
  then show ?thesis by simp
qed

definition small_message :: "crypto \<Rightarrow> certificate \<Rightarrow> certificate list \<Rightarrow> signer \<Rightarrow> bytes \<Rightarrow> bool" where
  "small_message c cert certs signer data \<longleftrightarrow>
     length (serial_id cert) + length (concat (map Raw certs)) + length data < 2 ^ 29 \<and>
     (\<forall>m s. Sign_digest signer (hash_sum c SHA256 m) SHA256 = Ok s \<longrightarrow> length s < 2 ^ 28)"

lemma length_EContent:
  assumes "length data < 2 ^ 29"
  shows "length (octets_tlv data) \<le> length data + 10"
    and "length (optional_raw (EContent (NewDataEncapsulatedContentInfo data))) \<le> length data + 20"
proof -
  show *: "length (octets_tlv data) \<le> length data + 10"
    unfolding octets_tlv_def using assms by (intro length_tlv_le) simp_all
  have "length (tlv 2 0 True (octets_tlv data)) \<le> (length data + 10) + 10"
    by (rule length_tlv_le [OF *]) (use assms in simp_all)
  then show "length (optional_raw (EContent (NewDataEncapsulatedContentInfo data))) \<le> length data + 20"
    by (simp add: NewDataEncapsulatedContentInfo_def NewEncapsulatedContentInfo_def optional_raw_def nil_raw_def
        marshal_raw_fresh octets_tlv_def)
qed

subsection \<open>Properties\<close>

text \<open>The signed message, once: what signing returns, and how it is written and read.\<close>

lemma signed_message_cases:
  assumes "signable c now cert signer data" and "key_chain c cert chain"
  obtains time sm sig where
    "length time = 13"
    "SignedData_Sign c now chain signer (cms_NewSignedData data) = (signed_data chain (NewDataEncapsulatedContentInfo data)
       (signer_info cert time (hash_sum c SHA256 data) (signature_oid cert) sig), Ok ())"
    "MarshaledForVerification (Some (signed_attributes time (hash_sum c SHA256 data))) = Ok sm"
    "Sign_digest signer (hash_sum c SHA256 sm) SHA256 = Ok sig"
    "Available c SHA256" "length (hash_sum c SHA256 data) = 32"
  by (rule AddSignerInfo_new [OF assms]) (use assms in \<open>auto simp: SignedData_Sign_def signable_def\<close>)

lemma signed_data_read_back:
  assumes der: "der_certificate cert" "\<forall>x \<in> set certs. der_certificate x"
    and "length time = 13" "length digest = 32" and eci: "good_eci eci"
    and "length (serial_id cert) + length sig + length (concat (map Raw certs)) + length (optional_raw (EContent eci)) < 2 ^ 30"
  obtains bs where "ToDER (signed_data certs eci (signer_info cert time digest (signature_oid cert) sig)) = Ok bs"
    "ParseSignedData (bs @ junk) = Ok (signed_data (der_order certs) (norm_EncapsulatedContentInfo eci)
       (signer_info cert time digest (signature_oid cert) sig))"
    "length bs < 2 ^ 31"
proof -
  obtain bs where bs: "ToDER (signed_data certs eci (signer_info cert time digest (signature_oid cert) sig)) = Ok bs"
    and read: "length bs < 2 ^ 31 \<longrightarrow> ParseSignedData (bs @ junk) = Ok (signed_data (der_order certs)
      (norm_EncapsulatedContentInfo eci) (signer_info cert time digest (signature_oid cert) sig))"
    using ToDER_signed_data [OF der assms(3,4) eci, of sig junk] by blast
  have "EContentType eci = ContentTypeData" using eci by (simp add: good_eci_def)
  then have "length bs \<le> (length (serial_id cert) + length sig + length (concat (map Raw certs))
      + length (optional_raw (EContent eci))) + 1000"
    by (intro length_signed_data [OF assms(3,4) der(2) order_refl assms(6) _ bs])
  then have "length bs < 2 ^ 31" using assms(6) by simp
  then show ?thesis using that bs read by blast
qed

text \<open>
  C3: What \<open>Sign\<close> makes, \<open>Verify\<close> accepts: signing with a chain, in which one certificate has the key of the
  signer, succeeds; the message parses (with anything behind it), it yields the data that was signed, and
  verification returns the chain of the signer's certificate, having put all certificates of the
  message into the pool, in the order of their encodings.
\<close>

theorem Sign_then_Verify:
  assumes "signable c now cert signer data" and "key_chain c cert certs"
    and "verifiable c x cert certs signer opts (elems pool) chain" and "small_message c cert certs signer data"
  shows "\<exists>bs sd. cms_Sign c now data certs signer = Ok bs \<and> ParseSignedData (bs @ junk) = Ok sd \<and>
    GetData sd = Ok (Some data) \<and>
    Verify c x opts pool sd = (foldl AddCert (elems pool) (der_order certs), Ok [chain])"
proof -
  let ?eci = "NewDataEncapsulatedContentInfo data"
  obtain time sm sig where time: "length time = 13"
    and add: "SignedData_Sign c now certs signer (cms_NewSignedData data) = (signed_data certs ?eci
      (signer_info cert time (hash_sum c SHA256 data) (signature_oid cert) sig), Ok ())"
    and sm: "MarshaledForVerification (Some (signed_attributes time (hash_sum c SHA256 data))) = Ok sm"
    and sig: "Sign_digest signer (hash_sum c SHA256 sm) SHA256 = Ok sig"
    and c: "Available c SHA256" "length (hash_sum c SHA256 data) = 32"
    by (rule signed_message_cases [OF assms(1,2)])
  let ?si = "signer_info cert time (hash_sum c SHA256 data) (signature_oid cert) sig"
  let ?sd = "signed_data (der_order certs) (norm_EncapsulatedContentInfo ?eci) ?si"
  have small: "length (serial_id cert) + length (concat (map Raw certs)) + length data < 2 ^ 29" "length sig < 2 ^ 28"
    using assms(4) sig by (auto simp: small_message_def)
  have "length data < 2 ^ 29" using small(1) by simp
  note len = length_EContent [OF this]
  have "length (octets_tlv data) < 2 ^ 31" using len(1) small(1) by simp
  note eci = good_eci_data [OF this]
  have type: "EContentType (norm_EncapsulatedContentInfo ?eci) = ContentTypeData"
    using eci(1) by (simp add: good_eci_def norm_EncapsulatedContentInfo_def)
  have carried: "carried c cert certs" using assms(3) by (simp add: verifiable_def)
  obtain bs where bs: "ToDER (signed_data certs ?eci ?si) = Ok bs" "ParseSignedData (bs @ junk) = Ok ?sd"
    by (rule signed_data_read_back [OF carried_der [OF carried] time c(2) eci(1), of sig junk]) (use len(2) small in simp)
  have sd: "EncapContentInfo ?sd = norm_EncapsulatedContentInfo ?eci" by (simp add: signed_data_def)
  have "GetData ?sd = Ok (Some data)"
    using eci(2) type by (simp add: GetData_def DataEContent_def IsTypeData_def sd)
  moreover have "Verify c x opts pool ?sd = (foldl AddCert (elems pool) (der_order certs), Ok [chain])"
    using verify_signed_data [OF assms(3) c sm sig type, of data] eci(2) by (simp add: Verify.simps sd)
  moreover have "cms_Sign c now data certs signer = Ok bs" using add bs(1) by (simp add: cms_Sign_def)
  ultimately show ?thesis using bs(2) by blast
qed

lemma add_certificates_Ok:
  assumes "addable certs (Certificates sd)"
  shows "add_certificates certs sd
    = (sd\<lparr>Certificates := go_append (Certificates sd) (map raw_certificate certs)\<rparr>, Ok ())"
  using assms
proof (induction certs arbitrary: sd)
  case (Cons cert certs)
  let ?sd = "sd\<lparr>Certificates := go_append (Certificates sd) [raw_certificate cert]\<rparr>"
  have "add_certificates certs ?sd
      = (?sd\<lparr>Certificates := go_append (Certificates ?sd) (map raw_certificate certs)\<rparr>, Ok ())"
    by (rule Cons.IH) (use addable_Cons(2) [OF Cons.prems] in simp)
  then show ?case by (simp add: addable_Cons(1) [OF Cons.prems] go_append_append)
qed simp

lemma SetCertificates_Ok:
  assumes "addable certs None"
  shows "SetCertificates certs sd = (sd\<lparr>Certificates := Some (map raw_certificate certs)\<rparr>, Ok ())"
  using add_certificates_Ok [of certs "ClearCertificates sd"] assms
  by (simp add: SetCertificates_def ClearCertificates_def go_append_def addable_def)

text \<open>
  Making a detached message with any certificates, apart from its serialization, and reading it back: it
  is signed with the chain and then given the certificates.
\<close>

lemma detached_written:
  assumes "signable c now cert signer data" and "key_chain c cert chain" and "small_message c cert certs signer data"
    and der: "der_certificate cert" "\<forall>x \<in> set certs. der_certificate x" and add: "addable certs None"
  obtains time sm sig sd' sd bs where
    "SignedData_Sign c now chain signer (cms_NewSignedData data) = (sd', Ok ())"
    "SetCertificates certs (Detached sd') = (sd, Ok ())" "chain = certs \<longrightarrow> Detached sd' = sd" "ToDER sd = Ok bs"
    "ParseSignedData (bs @ junk) = Ok (signed_data (der_order certs) detached_eci
       (signer_info cert time (hash_sum c SHA256 data) (signature_oid cert) sig))"
    "MarshaledForVerification (Some (signed_attributes time (hash_sum c SHA256 data))) = Ok sm"
    "Sign_digest signer (hash_sum c SHA256 sm) SHA256 = Ok sig"
    "Available c SHA256" "length (hash_sum c SHA256 data) = 32"
proof -
  obtain time sm sig where time: "length time = 13"
    and sign: "SignedData_Sign c now chain signer (cms_NewSignedData data) =
      (signed_data chain (NewDataEncapsulatedContentInfo data)
        (signer_info cert time (hash_sum c SHA256 data) (signature_oid cert) sig), Ok ())"
    and sm: "MarshaledForVerification (Some (signed_attributes time (hash_sum c SHA256 data))) = Ok sm"
    and sig: "Sign_digest signer (hash_sum c SHA256 sm) SHA256 = Ok sig"
    and c: "Available c SHA256" "length (hash_sum c SHA256 data) = 32"
    by (rule signed_message_cases [OF assms(1,2)])
  let ?si = "signer_info cert time (hash_sum c SHA256 data) (signature_oid cert) sig"
  let ?sd = "signed_data certs detached_eci ?si"
  have norm: "norm_EncapsulatedContentInfo detached_eci = detached_eci"
    by (simp add: norm_EncapsulatedContentInfo_def detached_eci_def norm_opt_def)
  have small: "length (serial_id cert) + length (concat (map Raw certs)) + length data < 2 ^ 29" "length sig < 2 ^ 28"
    using assms(3) sig by (auto simp: small_message_def)
  obtain bs where bs: "ToDER ?sd = Ok bs"
    "ParseSignedData (bs @ junk) = Ok (signed_data (der_order certs) detached_eci ?si)"
    by (rule signed_data_read_back [OF der time c(2) good_eci_detached, of sig junk, unfolded norm])
      (use small in \<open>simp add: detached_eci_def optional_raw_def\<close>)
  have det: "Detached (signed_data chain (NewDataEncapsulatedContentInfo data) ?si) = signed_data chain detached_eci ?si"
    for chain
    by (simp add: Detached_def signed_data_def detached_eci_eq)
  from SetCertificates_Ok [OF add, of "signed_data chain detached_eci ?si"]
  have set: "SetCertificates certs (signed_data chain detached_eci ?si) = (?sd, Ok ())" by (simp add: signed_data_def)
  show thesis
    by (rule that [OF sign _ _ bs(1,2) sm sig c]) (simp_all add: det set)
qed

lemma detached_message:
  assumes "signable c now cert signer data" and "key_chain c cert chain"
    and "verifiable c x cert certs signer opts (elems pool) result" and "small_message c cert certs signer data"
  obtains sd' sd bs parsed where
    "SignedData_Sign c now chain signer (cms_NewSignedData data) = (sd', Ok ())"
    "SetCertificates certs (Detached sd') = (sd, Ok ())" "chain = certs \<longrightarrow> Detached sd' = sd"
    "ToDER sd = Ok bs" "ParseSignedData (bs @ junk) = Ok parsed" "EncapContentInfo parsed = detached_eci"
    "\<And>message. verify c x message opts pool parsed = (foldl AddCert (elems pool) (der_order certs),
      if hash_sum c SHA256 message = hash_sum c SHA256 data then Ok [result]
      else Err (ErrorString ''invalid message digest''))"
proof -
  have carried: "carried c cert certs" "addable certs None" using assms(3) by (simp_all add: verifiable_def carried_def)
  have type: "EContentType detached_eci = ContentTypeData" by (simp add: detached_eci_def)
  obtain time sm sig sd' sd bs where
    m: "SignedData_Sign c now chain signer (cms_NewSignedData data) = (sd', Ok ())"
      "SetCertificates certs (Detached sd') = (sd, Ok ())" "chain = certs \<longrightarrow> Detached sd' = sd" "ToDER sd = Ok bs"
      "ParseSignedData (bs @ junk) = Ok (signed_data (der_order certs) detached_eci
         (signer_info cert time (hash_sum c SHA256 data) (signature_oid cert) sig))"
    and v: "MarshaledForVerification (Some (signed_attributes time (hash_sum c SHA256 data))) = Ok sm"
      "Sign_digest signer (hash_sum c SHA256 sm) SHA256 = Ok sig"
    and c: "Available c SHA256" "length (hash_sum c SHA256 data) = 32"
    by (rule detached_written [OF assms(1,2,4) carried_der [OF carried(1)] carried(2), of junk])
  show thesis
    by (rule that [OF m(1-5) _ verify_signed_data [OF assms(3) c v type]]) (simp add: signed_data_def)
qed

text \<open>A message without certificates is refused, whatever the verifier trusts.\<close>

lemma verify_no_certificates:
  assumes c: "wf_certificate cert" "Available c SHA256" "length digest = 32"
    and sm: "MarshaledForVerification (Some (signed_attributes time digest)) = Ok sm"
  shows "\<exists>e. verify c x econtent opts pool
    (signed_data [] detached_eci (signer_info cert time digest (signature_oid cert) s)) = (elems pool, Err e)"
proof -
  let ?si = "signer_info cert time digest (signature_oid cert) s"
  have "\<exists>isn. issuerAndSerialNumberSID ?si = Ok isn"
    using issuerAndSerialNumberSID_new [OF c(1), of ?si] by (auto simp: signer_info_def serial_id_def)
  then have find: "FindCertificate ?si [] = Err ErrNoCertificate"
    by (auto simp: FindCertificate_def signer_info_def)
  have "EContentType detached_eci = ContentTypeData" by (simp add: detached_eci_def)
  then have "\<exists>e. check_signer c x (Some []) econtent detached_eci ?si = Err e"
    using find by (simp add: check_signer_def signed_message_signer_info [OF c(2,3) sm])
  then show ?thesis by (auto simp: verify.simps signed_data_def X509Certificates_def)
qed

text \<open>
  C7: A detached signature verifies against the data it was made for, and against other data exactly
  when that has the same digest; it holds no data, and \<open>Verify\<close> refuses it.
\<close>

theorem SignDetached_then_VerifyDetached:
  assumes "signable c now cert signer data" and "key_chain c cert certs"
    and "verifiable c x cert certs signer opts (elems pool) chain" and "small_message c cert certs signer data"
  shows "\<exists>bs sd. SignDetached c now data certs signer = Ok bs \<and> ParseSignedData (bs @ junk) = Ok sd \<and>
    IsDetached sd \<and> GetData sd = Ok None \<and>
    VerifyDetached c x message opts pool sd = (foldl AddCert (elems pool) (der_order certs),
      if hash_sum c SHA256 message = hash_sum c SHA256 data then Ok [chain]
      else Err (ErrorString ''invalid message digest'')) \<and>
    Verify c x opts pool sd = (elems pool, Err (ErrorString ''detached signature''))"
proof -
  obtain sd' sd bs parsed where m:
    "SignedData_Sign c now certs signer (cms_NewSignedData data) = (sd', Ok ())" "Detached sd' = sd"
    "ToDER sd = Ok bs" "ParseSignedData (bs @ junk) = Ok parsed" "EncapContentInfo parsed = detached_eci"
    "verify c x message opts pool parsed = (foldl AddCert (elems pool) (der_order certs),
      if hash_sum c SHA256 message = hash_sum c SHA256 data then Ok [chain]
      else Err (ErrorString ''invalid message digest''))"
    by (rule detached_message [OF assms, of junk]) blast
  have det: "rv_Bytes (EContent detached_eci) = None" "EContentValue detached_eci = Ok None"
    "EContentType detached_eci = ContentTypeData"
    by (simp_all add: detached_eci_def EContentValue_def nil_raw_def)
  have "SignDetached c now data certs signer = Ok bs" using m(1-3) by (simp add: SignDetached_def)
  moreover have "VerifyDetached c x message opts pool parsed = verify c x message opts pool parsed"
    by (simp add: VerifyDetached_def m(5) det)
  moreover have "IsDetached parsed" "GetData parsed = Ok None"
    "Verify c x opts pool parsed = (elems pool, Err (ErrorString ''detached signature''))"
    by (simp_all add: IsDetached_def GetData_def DataEContent_def IsTypeData_def Verify.simps m(5) det)
  ultimately show ?thesis using m(4,6) by (intro exI [of _ bs] exI [of _ parsed]) simp
qed

text \<open>A certificate authority that knows one certificate, and a signature check that recomputes.\<close>

definition example_pki :: crypto where
  "example_pki = example_crypto\<lparr>ParseCertificate := (\<lambda>_. Ok example_certificate)\<rparr>"

definition example_x509 :: x509 where
  "example_x509 =
     \<lparr>CheckSignature = (\<lambda>cert algo m s. if s = 9 # hash_sum example_pki SHA256 m then Ok ()
        else Err (ErrorString ''verification failure'')),
      Verify_certificate = (\<lambda>cert opts pool. if cert \<in> set pool then Ok [[cert]]
        else Err (ErrorString ''unknown authority''))\<rparr>"

definition example_now :: go_time where
  "example_now = zero_time\<lparr>t_year := 2024\<rparr>"

definition example_options :: verify_options where
  "example_options = \<lparr>CurrentTime = 0, KeyUsages = [ExtKeyUsageAny]\<rparr>"

lemma example_signing:
  "signable example_pki example_now example_certificate example_signer [104, 105]"
  "verifiable example_pki example_x509 example_certificate [example_certificate] example_signer example_options [] [[example_certificate]]"
  "small_message example_pki example_certificate [example_certificate] example_signer [104, 105]"
proof -
  show "signable example_pki example_now example_certificate example_signer [104, 105]"
    using example_signable by (simp add: signable_def example_pki_def example_now_def)
  have "is_der (tlv 0 16 True [])" by (intro is_der_constructed ders_Nil)
  then have "is_der [48, 0]" by (simp add: tlv_def appendTagAndLength_def length_octets_def octet_def)
  then have "der_certificate example_certificate"
    using wf_example_certificate by (simp add: der_certificate_def) (simp add: example_certificate_def)
  then have "carried example_pki example_certificate [example_certificate]"
    by (intro carried_single) (simp_all add: example_pki_def)
  then show "verifiable example_pki example_x509 example_certificate [example_certificate] example_signer example_options [] [[example_certificate]]"
    by (simp add: verifiable_def example_pki_def example_crypto_def example_x509_def example_signer_def AddCert_def)
  show "small_message example_pki example_certificate [example_certificate] example_signer [104, 105]"
    by (simp add: small_message_def serial_id_def example_pki_def example_crypto_def example_signer_def
        example_certificate_def int_tlv_def int_octets_small tlv_def appendTagAndLength_def length_octets_def)
qed

lemma example_verified:
  obtains sd pool where
    "verify example_pki example_x509 [104, 105] example_options None sd = (pool, Ok [[[example_certificate]]])"
proof -
  have v: "verifiable example_pki example_x509 example_certificate [example_certificate] example_signer example_options (elems None)
      [[example_certificate]]"
    using example_signing(2) by simp
  obtain time sm sig where
    sm: "MarshaledForVerification (Some (signed_attributes time (hash_sum example_pki SHA256 [104, 105]))) = Ok sm"
    and sig: "Sign_digest example_signer (hash_sum example_pki SHA256 sm) SHA256 = Ok sig"
    and c: "Available example_pki SHA256" "length (hash_sum example_pki SHA256 [104, 105]) = 32"
    by (rule signed_message_cases [OF example_signing(1) key_chain_single [OF example_signing(1)]])
  have "EContentType detached_eci = ContentTypeData" by (simp add: detached_eci_def)
  from that [unfolded verify_signed_data [OF v c sm sig this, of "[104, 105]"]]
    verify_signed_data [OF v c sm sig this, of "[104, 105]"]
  show ?thesis using that by simp
qed

theorem Sign_then_Verify_witness:
  "\<exists>bs sd. cms_Sign example_pki example_now [104, 105] [example_certificate] example_signer = Ok bs \<and>
    ParseSignedData bs = Ok sd \<and> snd (Verify example_pki example_x509 example_options None sd) = Ok [[[example_certificate]]]"
  using Sign_then_Verify [OF example_signing(1) key_chain_single [OF example_signing(1)] _ example_signing(3), of example_x509 example_options None _ "[]"]
    example_signing(2) by fastforce

theorem SignDetached_then_VerifyDetached_witness:
  "\<exists>bs sd. SignDetached example_pki example_now [104, 105] [example_certificate] example_signer = Ok bs \<and>
    ParseSignedData bs = Ok sd \<and>
    snd (VerifyDetached example_pki example_x509 [104, 105] example_options None sd) = Ok [[[example_certificate]]]"
  using SignDetached_then_VerifyDetached [OF example_signing(1) key_chain_single [OF example_signing(1)] _ example_signing(3),
      of example_x509 example_options None _ "[]" "[104, 105]"]
    example_signing(2) by fastforce

end
