(* ===== verification/Key_Vault_Spec.thy ===== *)
theory Key_Vault_Spec
  imports Key_Vault User_Id_Spec Sign_Verify
begin

text \<open>
  Properties of the Key Vault store: what the signer asks the vault, which certificates are loaded, and
  the contract between an identity and the commands, which the store's identities satisfy.
\<close>

subsection \<open>The signer\<close>

text \<open>
  C18: \<open>Sign\<close> yields a signature exactly when the vault returned it, not empty, for the algorithm that was
  asked for, over a digest of 32 octets and with SHA-256: a PSS request is PS256 and never PKCS#1.
\<close>

theorem kv_Sign_iff:
  "kv_Sign s digest opts = Ok sig \<longleftrightarrow>
     length digest = 32 \<and> sig \<noteq> [] \<and>
     (opts = Some (PSSOptions SHA256) \<and> kv_client s (kv_keyName s) (kv_keyVersion s) PS256 digest = Ok sig \<or>
      (opts = Some (HashOpts SHA256) \<or> opts = Some (OtherOpts SHA256)) \<and>
        kv_client s (kv_keyName s) (kv_keyVersion s) RS256 digest = Ok sig)"
proof (cases opts)
  case (Some o')
  then show ?thesis by (cases o') (auto simp: kv_Sign_def outcome_simps split: if_splits)
qed (simp add: kv_Sign_def)

subsection \<open>Loading certificates\<close>

text \<open>The blocks the decoder finds in a text, one after the other.\<close>

inductive pem_blocks :: "pem_decoder \<Rightarrow> bytes \<Rightarrow> pem_block list \<Rightarrow> bool" for decode where
  Done: "decode rest = None \<Longrightarrow> pem_blocks decode rest []"
| Block: "decode rest = Some (block, rest') \<Longrightarrow> pem_blocks decode rest' blocks \<Longrightarrow>
    pem_blocks decode rest (block # blocks)"

inductive_cases pem_blocks_cases: "pem_blocks decode rest blocks"

text \<open>A decoder that consumes something with every block.\<close>

definition consumes :: "pem_decoder \<Rightarrow> bool" where
  "consumes decode \<longleftrightarrow> (\<forall>rest block rest'. decode rest = Some (block, rest') \<longrightarrow> length rest' < length rest)"

lemma pem_blocks_exist:
  assumes "consumes decode"
  obtains blocks where "pem_blocks decode rest blocks"
proof -
  have "\<exists>blocks. pem_blocks decode rest blocks"
  proof (induction rest rule: length_induct)
    case (1 rest)
    show ?case
    proof (cases "decode rest")
      case (Some br)
      obtain block rest' where br: "br = (block, rest')" by (cases br)
      then have "length rest' < length rest" using assms Some by (simp add: consumes_def)
      then show ?thesis using 1 Some br by (blast intro: pem_blocks.Block)
    qed (blast intro: pem_blocks.Done)
  qed
  then show thesis using that by blast
qed

definition certificate_blocks :: "pem_block list \<Rightarrow> bytes list" where
  "certificate_blocks blocks = map pem_Bytes (filter (\<lambda>b. pem_Type b = ''CERTIFICATE'') blocks)"

lemma load_loop_blocks:
  assumes "pem_blocks decode rest blocks"
  shows "load_loop decode parse certs rest = Some (obind
    (traverse (\<lambda>bs. wrap ''azuresign: failed to parse certificate'' (parse bs)) (certificate_blocks blocks))
    (\<lambda>cs. Ok (certs @ cs)))"
  using assms
proof (induction arbitrary: certs)
  case (Done rest)
  then show ?case by (simp add: load_loop.simps certificate_blocks_def)
next
  case (Block rest block rest' blocks)
  show ?case
  proof (cases "parse (pem_Bytes block)")
    case (Ok cert)
    then show ?thesis
      using Block by (simp add: load_loop.simps [of decode parse certs rest] certificate_blocks_def obind_assoc)
  qed (use Block in \<open>simp_all add: load_loop.simps [of decode parse certs rest] certificate_blocks_def\<close>)
qed

text \<open>
  C35: Loading the certificates of a file ends, and yields the certificates of its CERTIFICATE blocks in
  the order of the file, blocks of other types left out; the first that does not parse is an error,
  and so is a file without any.
\<close>

theorem LoadCertificates_blocks:
  assumes "consumes (pem_Decode az)" and "ReadFile az path = Ok data"
  shows "\<exists>blocks. pem_blocks (pem_Decode az) data blocks \<and>
    LoadCertificates az path = Some (obind
      (traverse (\<lambda>bs. wrap ''azuresign: failed to parse certificate'' (ParseCertificate (az_crypto az) bs))
        (certificate_blocks blocks))
      (\<lambda>certs. if certs = [] then Err (ErrorString ''azuresign: no PEM certificates found'') else Ok certs))"
proof -
  obtain blocks where b: "pem_blocks (pem_Decode az) data blocks" by (rule pem_blocks_exist [OF assms(1)])
  let ?parse = "ParseCertificate (az_crypto az)"
  have "LoadCertificates az path = Some (obind
      (traverse (\<lambda>bs. wrap ''azuresign: failed to parse certificate'' (?parse bs)) (certificate_blocks blocks))
      (\<lambda>certs. if certs = [] then Err (ErrorString ''azuresign: no PEM certificates found'') else Ok certs))"
    by (simp add: LoadCertificates_def assms(2) load_loop_blocks [OF b])
  then show ?thesis using b by blast
qed

definition example_pem :: pem_decoder where
  "example_pem bs = (case bs of
     [] \<Rightarrow> None
   | b # bs \<Rightarrow> Some (\<lparr>pem_Type = (if b = 0 then ''CERTIFICATE'' else ''EC PARAMETERS''), pem_Bytes = [b]\<rparr>, bs))"

definition example_azure :: azure where
  "example_azure = \<lparr>ReadFile = (\<lambda>_. Ok [7, 0, 0]), pem_Decode = example_pem,
     az_crypto = example_pki\<lparr>ParseCertificate := (\<lambda>_. Ok (example_certificate\<lparr>PublicKey := RSAPublicKey [3]\<rparr>))\<rparr>,
     NewDefaultAzureCredential = Ok 0, NewClient = (\<lambda>_ _. Ok (\<lambda>_ _ _ digest. Ok (9 # digest)))\<rparr>"

lemma example_pem_consumes: "consumes example_pem"
  by (auto simp: consumes_def example_pem_def split: list.splits)

theorem LoadCertificates_blocks_witness:
  "\<exists>blocks. pem_blocks example_pem [7, 0, 0] blocks \<and>
    LoadCertificates example_azure ''cert.pem'' = Some (obind
      (traverse (\<lambda>bs. wrap ''azuresign: failed to parse certificate''
          (ParseCertificate (az_crypto example_azure) bs)) (certificate_blocks blocks))
      (\<lambda>certs. if certs = [] then Err (ErrorString ''azuresign: no PEM certificates found'') else Ok certs))"
  using LoadCertificates_blocks [of example_azure "''cert.pem''" "[7, 0, 0]"] example_pem_consumes
  by (simp add: example_azure_def)

subsection \<open>The contract of an identity\<close>

text \<open>
  What the commands rely on when they sign with an identity: its methods succeed, its chain starts with
  its certificate, and its signer holds the key of that certificate.
\<close>

locale identity_provider =
  fixes issued :: "'i \<Rightarrow> bool" and as_identity :: "'i \<Rightarrow> identity"
  assumes provides: "issued i \<Longrightarrow> \<exists>cert rest signer. Certificate (as_identity i) = Ok cert \<and>
    CertificateChain (as_identity i) = Ok (cert # rest) \<and> Signer (as_identity i) = Ok signer \<and>
    Public signer = PublicKey cert"
begin

lemma leaf_first:
  assumes "issued i" "CertificateChain (as_identity i) = Ok chain"
  shows "\<exists>cert rest. chain = cert # rest \<and> Certificate (as_identity i) = Ok cert"
  using provides [OF assms(1)] assms(2) by auto

text \<open>The signer finds the identity's certificate: there is no identity that cannot sign for itself.\<close>

lemma certificate_found:
  assumes "issued i" "Certificate (as_identity i) = Ok cert" "Signer (as_identity i) = Ok signer"
    and "MarshalPKIXPublicKey c (Public signer) = Ok pub" "AddCertificate cert sd = (sd', Ok ())"
  shows "add_chain c pub None [cert] sd = (sd', Ok (Some cert))"
  using provides [OF assms(1)] assms(2-) by auto

end

lemma NewSigner_Ok:
  "NewSigner client name version leaf = Ok s \<longleftrightarrow>
     (\<exists>kv cert pub. client = Some kv \<and> name \<noteq> [] \<and> leaf = Some cert \<and> PublicKey cert = RSAPublicKey pub \<and>
        s = \<lparr>kv_client = kv, kv_keyName = name, kv_keyVersion = version, kv_pub = pub\<rparr>)"
  by (auto simp: NewSigner_def split: option.splits public_key.splits)

lemma NewIdentity_Ok:
  assumes "NewIdentity az cfg = Some (Ok i)"
  obtains leaf rest pub where "az_Certs i = leaf # rest" "PublicKey leaf = RSAPublicKey pub"
    "kv_pub (az_Signer i) = pub" "kv_keyName (az_Signer i) = KeyName cfg"
    "kv_keyVersion (az_Signer i) = KeyVersion cfg" "LoadCertificates az (CertPath cfg) = Some (Ok (leaf # rest))"
proof -
  obtain certs client where c: "LoadCertificates az (CertPath cfg) = Some (Ok certs)" "certs \<noteq> []"
    and i: "az_Certs i = certs" "NewSigner (Some client) (KeyName cfg) (KeyVersion cfg) (Some (certs ! 0))
      = Ok (az_Signer i)"
    using assms by (auto simp: NewIdentity_def outcome_simps)
  then obtain leaf rest where "certs = leaf # rest" by (cases certs) auto
  then show thesis using that c i by (auto simp: NewSigner_Ok)
qed

interpretation kms: identity_provider "\<lambda>i. \<exists>az cfg. NewIdentity az cfg = Some (Ok i)" kmsIdentity
proof unfold_locales
  fix i
  assume "\<exists>az cfg. NewIdentity az cfg = Some (Ok i)"
  then obtain leaf rest pub where "az_Certs i = leaf # rest" "PublicKey leaf = RSAPublicKey pub"
    "kv_pub (az_Signer i) = pub" by (auto elim: NewIdentity_Ok)
  then show "\<exists>cert rest signer. Certificate (kmsIdentity i) = Ok cert \<and>
    CertificateChain (kmsIdentity i) = Ok (cert # rest) \<and> Signer (kmsIdentity i) = Ok signer \<and>
    Public signer = PublicKey cert"
    by (auto simp: kmsIdentity_def az_Leaf_def az_Chain_def kv_signer_def kv_Public_def byte_at_def)
qed

end
