(* ===== verification/Timestamp_Spec.thy ===== *)
theory Timestamp_Spec
  imports Timestamp
begin

text \<open>
  The properties of ietf-cms/timestamp: when two imprints are equal and when a response matches its
  request, the time window of a token and its arithmetic, what posting a request makes of the
  response, and the round trip of a request through the struct tags.
\<close>

subsection \<open>Matching\<close>

text \<open>What \<open>Equal\<close> compares of the parameters: absent ones and ones without contents (NULL) are alike.\<close>

definition parameters_key :: "MessageImprint \<Rightarrow> bytes" where
  "parameters_key mi =
     (let p = Parameters (HashAlgorithm mi) in
      if elems (rv_Bytes p) = [] then [] else elems (rv_FullBytes p))"

definition wf_parameters :: "MessageImprint \<Rightarrow> bool" where
  "wf_parameters mi \<longleftrightarrow> Parameters (HashAlgorithm mi) = nil_raw \<or> decoded_raw (Parameters (HashAlgorithm mi))"

lemma wf_parameters_FullBytes:
  assumes "wf_parameters a" "wf_parameters b"
    and "elems (rv_FullBytes (Parameters (HashAlgorithm a))) = elems (rv_FullBytes (Parameters (HashAlgorithm b)))"
  shows "elems (rv_Bytes (Parameters (HashAlgorithm a))) = elems (rv_Bytes (Parameters (HashAlgorithm b)))"
proof -
  have nil: "elems (rv_FullBytes nil_raw) = []" by (simp add: nil_raw_def)
  have full: "decoded_raw rv \<Longrightarrow> elems (rv_FullBytes rv) \<noteq> [] \<and>
      unmarshal_raw (elems (rv_FullBytes rv)) = Ok (rv, [])" for rv
    using unmarshal_raw_tlv [where rest = "[]"] by (auto elim!: decoded_rawE)
  show ?thesis
    using assms full nil unfolding wf_parameters_def by (metis outcome.inject(1) prod.inject)
qed

text \<open>
  On imprints as the parser makes them \<open>Equal\<close> is an equivalence: it compares the algorithm, the
  digest, and the parameters up to the difference between absent and NULL.
\<close>

theorem MessageImprint_Equal_iff:
  assumes "wf_parameters a" and "wf_parameters b"
  shows "MessageImprint_Equal a b \<longleftrightarrow>
    Algorithm (HashAlgorithm a) = Algorithm (HashAlgorithm b) \<and> HashedMessage a = HashedMessage b \<and>
    parameters_key a = parameters_key b"
proof -
  let ?p = "Parameters (HashAlgorithm a)" and ?q = "Parameters (HashAlgorithm b)"
  have ne: "elems (rv_Bytes (Parameters (HashAlgorithm x))) \<noteq> [] \<Longrightarrow>
      elems (rv_FullBytes (Parameters (HashAlgorithm x))) \<noteq> []" if "wf_parameters x" for x
    using that by (auto simp: wf_parameters_def nil_raw_def elim!: decoded_rawE)
  have "(elems (rv_Bytes ?p) = [] \<and> elems (rv_Bytes ?q) = []) \<or> elems (rv_FullBytes ?p) = elems (rv_FullBytes ?q)
      \<longleftrightarrow> parameters_key a = parameters_key b"
    using wf_parameters_FullBytes [OF assms] ne [OF assms(1)] ne [OF assms(2)]
    by (auto simp: parameters_key_def Let_def)
  then show ?thesis by (auto simp: MessageImprint_Equal_def Let_def)
qed

definition imprint :: "raw_value \<Rightarrow> MessageImprint" where
  "imprint p = \<lparr>HashAlgorithm = \<lparr>Algorithm = DigestAlgorithmSHA256, Parameters = p\<rparr>, HashedMessage = [1, 2]\<rparr>"

theorem MessageImprint_Equal_iff_witness:
  "MessageImprint_Equal (imprint nil_raw) (imprint (raw_of 0 5 False []))"
proof -
  have "decoded_raw (raw_of 0 5 False [])" by (rule decoded_raw_raw_of) (simp add: wf_tlv_def)
  then have "wf_parameters (imprint nil_raw)" "wf_parameters (imprint (raw_of 0 5 False []))"
    by (simp_all add: wf_parameters_def imprint_def)
  from MessageImprint_Equal_iff [OF this] show ?thesis
    by (simp add: imprint_def parameters_key_def nil_raw_def)
qed

text \<open>
  C36: A response matches exactly when the imprints are equal and the nonces are; and the comparison
  panics exactly when a request without a nonce is answered by a token that has one.
\<close>

theorem Matches_iff:
  "(Matches req tsti = Ok True \<longleftrightarrow>
      MessageImprint_Equal (req_MessageImprint req) (tsti_MessageImprint tsti) \<and>
      req_Nonce req = tsti_Nonce tsti) \<and>
   (panics (Matches req tsti) \<longleftrightarrow>
      MessageImprint_Equal (req_MessageImprint req) (tsti_MessageImprint tsti) \<and>
      req_Nonce req = None \<and> tsti_Nonce tsti \<noteq> None)"
  by (cases "req_Nonce req"; cases "tsti_Nonce tsti") (auto simp: Matches_def big_Cmp_differs_def)

subsection \<open>The time window\<close>

lemma sint_word_of_int_64:
  assumes "- (2 ^ 63) \<le> i" "i < 2 ^ 63"
  shows "sint (word_of_int i :: 64 word) = i"
  using signed_take_bit_int_eq_self [OF assms] by (simp add: sint_sbintrunc' del: One_nat_def)

text \<open>The nanoseconds of an accuracy, before they are cut to 64 bits.\<close>

definition accuracy_ns :: "Accuracy \<Rightarrow> int" where
  "accuracy_ns a = Seconds a * 1000000000 + Millis a * 1000000 + Micros a * 1000"

lemma Duration_eq: "Duration a = word_of_int (accuracy_ns a)"
  by (simp add: Duration_def accuracy_ns_def wi_hom_syms)

lemma minus_Duration_eq: "- Duration a = word_of_int (- accuracy_ns a)"
  by (simp add: Duration_eq wi_hom_syms)

text \<open>
  C26: With an accuracy below 292 years, a token is after \<open>nb\<close> and before \<open>na\<close> exactly when its whole
  window, from the stated time less the accuracy to the stated time plus the accuracy, lies between
  them.
\<close>

theorem Info_window:
  assumes "\<bar>accuracy_ns (tsti_Accuracy i)\<bar> < 2 ^ 63"
  shows "Info_After i nb \<and> Info_Before i na \<longleftrightarrow>
    nb \<le> instant (tsti_GenTime i) - accuracy_ns (tsti_Accuracy i) \<and>
    instant (tsti_GenTime i) + accuracy_ns (tsti_Accuracy i) \<le> na"
proof -
  have "sint (Duration (tsti_Accuracy i)) = accuracy_ns (tsti_Accuracy i)"
    unfolding Duration_eq using assms by (intro sint_word_of_int_64) linarith+
  moreover have "sint (- Duration (tsti_Accuracy i)) = - accuracy_ns (tsti_Accuracy i)"
    unfolding minus_Duration_eq using assms by (intro sint_word_of_int_64) linarith+
  ultimately show ?thesis
    by (auto simp: Info_After_def Info_Before_def genTimeMax_def genTimeMin_def)
qed

definition example_info :: "int \<Rightarrow> Info" where
  "example_info s = nil_Info\<lparr>tsti_Accuracy := \<lparr>Seconds = s, Millis = 500, Micros = 0\<rparr>\<rparr>"

lemma instant_zero_time: "instant zero_time = 0"
  by (simp add: instant_def zero_time_def day_number_def days_before_year_def)

theorem Info_window_witness:
  "Info_After (example_info 1) (- 1500000000) \<and> Info_Before (example_info 1) 1500000000"
  using Info_window [of "example_info 1" "- 1500000000" 1500000000]
  by (simp add: example_info_def nil_Info_def accuracy_ns_def instant_zero_time)

text \<open>
  The seconds of an accuracy are not bounded before they are multiplied: a token that claims an
  accuracy of 18446744074 seconds, 584 years, passes as one that is exact to a third of a second.
\<close>

theorem Info_window_overflow:
  "Info_After (example_info 18446744074) nb \<and> Info_Before (example_info 18446744074) na \<longleftrightarrow>
     nb \<le> - 790448384 \<and> 790448384 \<le> na"
proof -
  have "Duration (tsti_Accuracy (example_info 18446744074)) = 790448384"
    by (simp add: Duration_def example_info_def)
  then have "sint (Duration (tsti_Accuracy (example_info 18446744074))) = 790448384"
    "sint (- Duration (tsti_Accuracy (example_info 18446744074))) = - 790448384"
    by simp_all
  then show ?thesis
    by (auto simp: Info_After_def Info_Before_def genTimeMax_def genTimeMin_def example_info_def
        nil_Info_def instant_zero_time)
qed

subsection \<open>Posting a request\<close>

text \<open>
  A reply of the right type whose length the server did not announce, such as a chunked one, makes
  \<open>Do\<close> panic whatever its body holds: \<open>ContentLength\<close> is then \<open>-1\<close>, and it is the capacity of a
  \<open>make\<close>.
\<close>

theorem Request_Do_unknown_length:
  assumes "marshal_Request req = Ok reqDER" and "http url reqDER = Ok resp"
    and "http_ContentType resp = ''application/timestamp-reply''" and "ContentLength resp = - 1"
  shows "Request_Do http url req = Panic (PanicMsg ''makeslice: cap out of range'')"
  using assms by (simp add: Request_Do_def make_capacity_def)

definition example_request :: Request where
  "example_request = \<lparr>req_Version = 1, req_MessageImprint = imprint nil_raw, req_ReqPolicy = [],
     req_Nonce = Some 7, req_CertReq = True, req_Extensions = None\<rparr>"

text \<open>The request's encoding: the policy and the extensions are absent.\<close>

lemma marshal_example_request:
  "\<exists>oid. oid_tlv DigestAlgorithmSHA256 = Ok oid \<and> length oid < 30 \<and>
     marshal_Request example_request = Ok (seq_tlv (int_tlv 1 @
       seq_tlv (seq_tlv oid @ octets_tlv [1, 2]) @ int_tlv 7 @ tlv 0 1 False [0xFF]))"
  by (simp add: example_request_def imprint_def marshal_Request_def marshal_MessageImprint_def
      marshal_AlgorithmIdentifier_def optional_raw_def opt_oid_tlv_def marshal_extensions_def
      opt_big_int_tlv_def opt_bool_tlv_def oid_tlv_def makeObjectIdentifier_def DigestAlgorithmSHA256_def)
    (simp add: tlv_def appendTagAndLength_def appendBase128Int_def base128_hi.simps length_octets_def)

theorem Request_Do_unknown_length_witness:
  "Request_Do (\<lambda>_ _. Ok \<lparr>http_ContentType = ''application/timestamp-reply'', ContentLength = - 1,
     http_Body = Ok []\<rparr>) [] example_request = Panic (PanicMsg ''makeslice: cap out of range'')"
proof -
  obtain der where "marshal_Request example_request = Ok der" using marshal_example_request by blast
  from Request_Do_unknown_length [OF this, where url = "[]"] show ?thesis by simp
qed

subsection \<open>A request survives its encoding\<close>

text \<open>An optional field is skipped when the next element has another tag.\<close>

definition other_tag :: "nat \<Rightarrow> bytes \<Rightarrow> bool" where
  "other_tag n rest \<longleftrightarrow>
     rest = [] \<or> (\<exists>c t k body post. rest = tlv c t k body @ post \<and> wf_tlv c t body \<and> (c \<noteq> 0 \<or> t \<noteq> n))"

lemma other_tag_Nil [simp]: "other_tag n []"
  by (simp add: other_tag_def)

lemma other_tag_tlv: "wf_tlv c t body \<Longrightarrow> c \<noteq> 0 \<or> t \<noteq> n \<Longrightarrow> other_tag n (tlv c t k body @ post)"
  unfolding other_tag_def by blast

lemma prim_absent:
  assumes "other_tag n rest"
  shows "field opt (PrimKind n) dec dflt rest = Ok (dflt, rest)"
  using assms unfolding other_tag_def
proof (elim disjE exE conjE)
  assume "rest = []"
  then show ?thesis by (simp add: field_absent_Nil opt_def)
next
  fix c t k body post
  assume r: "rest = tlv c t k body @ post" and wf: "wf_tlv c t body" and "c \<noteq> 0"
  then show ?thesis unfolding r
    by (intro field_absent_tlv [OF wf]) (simp_all add: tags_match_def universal_tag_def opt_def)
next
  fix c t k body post
  assume r: "rest = tlv c t k body @ post" and wf: "wf_tlv c t body" and "t \<noteq> n"
  then show ?thesis unfolding r
    by (intro field_absent_tlv [OF wf]) (simp_all add: tags_match_def universal_tag_def opt_def)
qed

lemma prim_present:
  assumes "wf_tlv 0 n body" "dec (raw_of 0 n False body) = Ok v"
  shows "field opt (PrimKind n) dec dflt (tlv 0 n False body @ rest) = Ok (v, rest)"
  using assms by (intro field_tlv) (auto simp: tags_match_def universal_tag_def opt_def)

lemma opt_bool_round:
  assumes "other_tag 1 rest"
  shows "bool_field opt (opt_bool_tlv b @ rest) = Ok (b, rest)"
proof (cases b)
  case True
  have "bool_field opt (tlv 0 1 False [0xFF] @ rest) = Ok (True, rest)"
    by (rule prim_present) (simp_all add: wf_tlv_def contents_def parseBool_def)
  with True show ?thesis by (simp add: opt_bool_tlv_def)
next
  case False
  have "bool_field opt rest = Ok (False, rest)"
    using assms by (rule prim_absent)
  with False show ?thesis by (simp add: opt_bool_tlv_def)
qed

lemma opt_big_int_round:
  assumes "other_tag 2 rest"
    and "length (opt_big_int_tlv i) < 2 ^ 31"
  shows "opt_big_int_field (opt_big_int_tlv i @ rest) = Ok (i, rest)"
proof (cases i)
  case None
  have "opt_big_int_field rest = Ok (None, rest)"
    unfolding opt_big_int_field_def using assms(1) by (rule prim_absent)
  with None show ?thesis by (simp add: opt_big_int_tlv_def)
next
  case (Some v)
  then have "length (int_octets v) < 2 ^ 31"
    using assms(2) length_parts(5) by (metis opt_big_int_tlv_def option.simps(5))
  then have "opt_big_int_field (tlv 0 2 False (int_octets v) @ rest) = Ok (Some v, rest)"
    unfolding opt_big_int_field_def
    by (intro prim_present) (simp_all add: wf_tlv_def contents_def)
  with Some show ?thesis by (simp add: opt_big_int_tlv_def int_tlv_def)
qed

lemma opt_oid_round:
  assumes "other_tag 6 rest"
    and "opt_oid_tlv oid = Ok bs" "oid = [] \<or> wf_oid oid" "length bs < 2 ^ 31"
  shows "oid_field opt (bs @ rest) = Ok (oid, rest)"
proof (cases "oid = []")
  case True
  have "oid_field opt rest = Ok ([], rest)"
    using assms(1) by (rule prim_absent)
  with True assms(2) show ?thesis by (simp add: opt_oid_tlv_def)
next
  case False
  then obtain os where os: "makeObjectIdentifier oid = Ok os" "bs = tlv 0 6 False os"
    using assms(2) by (auto simp: opt_oid_tlv_def oid_tlv_def outcome_simps)
  then have "length os < 2 ^ 31" using assms(4) length_parts(3) by metis
  moreover have "wf_oid oid" using assms(3) False by simp
  ultimately show ?thesis
    unfolding os(2) using parse_makeObjectIdentifier [OF _ os(1)]
    by (intro prim_present) (simp_all add: wf_tlv_def contents_def)
qed

lemma MessageImprint_codec:
  assumes m: "marshal_MessageImprint mi = Ok bs" and wf: "wf_AlgorithmIdentifier (HashAlgorithm mi)"
    and "length bs < 2 ^ 31"
  shows "struct_field plain parse_MessageImprint z (bs @ rest)
    = Ok (mi\<lparr>HashAlgorithm := norm_AlgorithmIdentifier (HashAlgorithm mi)\<rparr>, rest)"
proof -
  from m obtain a where a: "marshal_AlgorithmIdentifier (HashAlgorithm mi) = Ok a"
    and bs: "bs = seq_tlv (a @ octets_tlv (HashedMessage mi))"
    by (auto simp: marshal_MessageImprint_def outcome_simps)
  have len: "length (a @ octets_tlv (HashedMessage mi)) < 2 ^ 31"
    using assms(3) unfolding bs by (rule length_parts)
  have "length (octets_tlv (HashedMessage mi)) < 2 ^ 31" using len by simp
  then have h: "length (HashedMessage mi) < 2 ^ 31" by (rule length_parts(4))
  have "struct_field plain parse_AlgorithmIdentifier nil_AlgorithmIdentifier (a @ octets_tlv (HashedMessage mi))
      = Ok (norm_AlgorithmIdentifier (HashAlgorithm mi), octets_tlv (HashedMessage mi))"
    using AlgorithmIdentifier_codec [OF a wf] len by simp
  moreover have "octets_field plain (octets_tlv (HashedMessage mi)) = Ok (HashedMessage mi, [])"
    using octets_field_tlv [OF h, of "[]"] by simp
  ultimately show ?thesis using len by (simp add: bs codec parse_MessageImprint_def)
qed

lemma extension_codec:
  assumes m: "marshal_extension e = Ok bs" and wf: "wf_oid (ext_Id e)" and "length bs < 2 ^ 31"
  shows "element_tlv SeqKind bs \<and> (\<forall>rest. struct_field plain parse_extension z (bs @ rest) = Ok (e, rest))"
proof -
  from m obtain i where i: "oid_tlv (ext_Id e) = Ok i"
    and bs: "bs = seq_tlv (i @ opt_bool_tlv (ext_Critical e) @ octets_tlv (ext_Value e))"
    by (auto simp: marshal_extension_def outcome_simps)
  have len: "length (i @ opt_bool_tlv (ext_Critical e) @ octets_tlv (ext_Value e)) < 2 ^ 31"
    using assms(3) unfolding bs by (rule length_parts)
  have "length (octets_tlv (ext_Value e)) < 2 ^ 31" using len by simp
  then have v: "length (ext_Value e) < 2 ^ 31" by (rule length_parts(4))
  have "other_tag 1 (octets_tlv (ext_Value e) @ [])"
    unfolding octets_tlv_def using v by (intro other_tag_tlv) (simp_all add: wf_tlv_def)
  then have "bool_field opt (opt_bool_tlv (ext_Critical e) @ octets_tlv (ext_Value e))
      = Ok (ext_Critical e, octets_tlv (ext_Value e))"
    by (intro opt_bool_round) simp
  moreover have "oid_field plain (i @ opt_bool_tlv (ext_Critical e) @ octets_tlv (ext_Value e))
      = Ok (ext_Id e, opt_bool_tlv (ext_Critical e) @ octets_tlv (ext_Value e))"
    using len by (intro oid_field_tlv [OF wf i]) simp
  moreover have "octets_field plain (octets_tlv (ext_Value e)) = Ok (ext_Value e, [])"
    using octets_field_tlv [OF v, of "[]"] by simp
  ultimately show ?thesis using len by (simp add: bs codec parse_extension_def element_tlv_seq)
qed

lemma extensions_codec:
  assumes m: "marshal_extensions es = Ok bs" and wf: "\<forall>e \<in> set (elems es). wf_oid (ext_Id e)"
    and len: "length bs < 2 ^ 31"
  shows "extensions_field bs = Ok (es, [])" and "n \<noteq> 0 \<Longrightarrow> other_tag n bs"
proof -
  have "extensions_field bs = Ok (es, []) \<and> other_tag n bs"
  proof (cases es)
    case None
    then show ?thesis using m by (simp add: marshal_extensions_def extensions_field_def codec del: One_nat_def)
  next
    case (Some xs)
    then obtain encs where encs: "traverse marshal_extension xs = Ok encs" and bs: "bs = tlv 2 1 True (concat encs)"
      using m by (auto simp: marshal_extensions_def outcome_simps)
    have l: "length (concat encs) < 2 ^ 31" using len unfolding bs by (rule length_parts)
    have "element_tlv SeqKind b \<and> (\<forall>rest. struct_field plain parse_extension nil_extension (b @ rest) = Ok (id e, rest))"
      if "e \<in> set xs" "marshal_extension e = Ok b" for e b
      using extension_codec [of e b nil_extension] that wf Some length_traverse_member [OF encs l that] by simp
    note parseSequenceOf_traverse(1) [where n = id, OF encs this]
    then have "extensions_field (tlv 2 1 True (concat encs) @ []) = Ok (es, [])"
      unfolding extensions_field_def using l Some by (subst slice_field_tag) simp_all
    moreover have "other_tag n (tlv 2 1 True (concat encs) @ [])"
      using l by (intro other_tag_tlv) (simp_all add: wf_tlv_def)
    ultimately show ?thesis unfolding bs by simp
  qed
  then show "extensions_field bs = Ok (es, [])" and "other_tag n bs" by simp_all
qed

definition wf_Request :: "Request \<Rightarrow> bool" where
  "wf_Request req \<longleftrightarrow> length (int_octets (req_Version req)) \<le> 8 \<and>
     wf_AlgorithmIdentifier (HashAlgorithm (req_MessageImprint req)) \<and>
     (req_ReqPolicy req = [] \<or> wf_oid (req_ReqPolicy req)) \<and>
     (\<forall>e \<in> set (elems (req_Extensions req)). wf_oid (ext_Id e))"

text \<open>An optional integer or boolean is skipped, whether it is there or not, by a reader of another tag.\<close>

lemma other_tag_opt:
  "other_tag n rest \<Longrightarrow> n \<noteq> 1 \<Longrightarrow> other_tag n (opt_bool_tlv b @ rest)"
  "other_tag n rest \<Longrightarrow> n \<noteq> 2 \<Longrightarrow> length (opt_big_int_tlv i) < 2 ^ 31 \<Longrightarrow> other_tag n (opt_big_int_tlv i @ rest)"
proof -
  assume "other_tag n rest" "n \<noteq> 1"
  then show "other_tag n (opt_bool_tlv b @ rest)"
    by (cases b) (auto simp: opt_bool_tlv_def intro!: other_tag_tlv simp: wf_tlv_def)
next
  assume *: "other_tag n rest" "n \<noteq> 2" "length (opt_big_int_tlv i) < 2 ^ 31"
  show "other_tag n (opt_big_int_tlv i @ rest)"
  proof (cases i)
    case (Some v)
    then have "length (int_octets v) < 2 ^ 31"
      using *(3) length_parts(5) by (metis opt_big_int_tlv_def option.simps(5))
    with Some * show ?thesis
      by (auto simp: opt_big_int_tlv_def int_tlv_def wf_tlv_def intro!: other_tag_tlv)
  qed (use * in \<open>simp add: opt_big_int_tlv_def\<close>)
qed

text \<open>
  C37: A request that is written is read back field by field by the reader of its struct tags: an absent
  policy, nonce, certificate flag or extension list stays absent, and the fields behind it are not
  taken for it.
\<close>

theorem Request_roundtrip:
  assumes "wf_Request req" and "marshal_Request req = Ok bs" and "length bs < 2 ^ 31"
  shows "no_trailing (struct_field plain parse_Request_body z bs) = Ok (req\<lparr>req_MessageImprint :=
    (req_MessageImprint req)\<lparr>HashAlgorithm := norm_AlgorithmIdentifier (HashAlgorithm (req_MessageImprint req))\<rparr>\<rparr>)"
proof -
  from assms(2) obtain mi p ext where
    mi: "marshal_MessageImprint (req_MessageImprint req) = Ok mi" and
    p: "opt_oid_tlv (req_ReqPolicy req) = Ok p" and
    ext: "marshal_extensions (req_Extensions req) = Ok ext" and
    bs: "bs = seq_tlv (int_tlv (req_Version req) @ mi @ p @ opt_big_int_tlv (req_Nonce req)
      @ opt_bool_tlv (req_CertReq req) @ ext)"
    by (auto simp: marshal_Request_def outcome_simps)
  let ?e = "opt_bool_tlv (req_CertReq req) @ ext" and ?n = "opt_big_int_tlv (req_Nonce req)"
  have len: "length (int_tlv (req_Version req) @ mi @ p @ ?n @ ?e) < 2 ^ 31"
    using assms(3) unfolding bs by (rule length_parts)
  then have lens: "length mi < 2 ^ 31" "length p < 2 ^ 31" "length ?n < 2 ^ 31" "length ext < 2 ^ 31"
    by simp_all
  note wf = assms(1) [unfolded wf_Request_def]
  have x: "extensions_field ext = Ok (req_Extensions req, [])" "n \<noteq> 0 \<Longrightarrow> other_tag n ext" for n
    using extensions_codec [OF ext _ lens(4)] wf by blast+
  have "bool_field opt ?e = Ok (req_CertReq req, ext)"
    using x(2) [of 1] by (intro opt_bool_round) simp
  moreover have e: "n \<noteq> 0 \<Longrightarrow> n \<noteq> 1 \<Longrightarrow> other_tag n ?e" for n
    using x(2) by (intro other_tag_opt) simp_all
  then have "opt_big_int_field (?n @ ?e) = Ok (req_Nonce req, ?e)"
    using lens(3) by (intro opt_big_int_round) simp_all
  moreover have "other_tag 6 (?n @ ?e)"
    using lens(3) by (intro other_tag_opt(2) [OF e]) simp_all
  then have "oid_field opt (p @ ?n @ ?e) = Ok (req_ReqPolicy req, ?n @ ?e)"
    using wf lens(2) by (intro opt_oid_round [OF _ p]) simp_all
  moreover note MessageImprint_codec [OF mi _ lens(1), of nil_MessageImprint "p @ ?n @ ?e"]
  ultimately show ?thesis
    using len wf x(1) struct_field_seq [OF len, of parse_Request_body z "[]"]
    by (simp add: bs parse_Request_body_def no_trailing_def)
qed

theorem Request_roundtrip_witness:
  "\<exists>bs. marshal_Request example_request = Ok bs \<and>
     no_trailing (struct_field plain parse_Request_body example_request bs) = Ok example_request"
proof -
  obtain oid where oid: "oid_tlv DigestAlgorithmSHA256 = Ok oid" "length oid < 30"
    and bs: "marshal_Request example_request = Ok (seq_tlv (int_tlv 1 @
       seq_tlv (seq_tlv oid @ octets_tlv [1, 2]) @ int_tlv 7 @ tlv 0 1 False [0xFF]))"
    using marshal_example_request by blast
  have "wf_oid DigestAlgorithmSHA256" by (simp add: wf_oid_def DigestAlgorithmSHA256_def)
  then have "wf_Request example_request"
    by (simp add: wf_Request_def example_request_def int_octets_small imprint_def
        wf_AlgorithmIdentifier_def wf_opt_def)
  moreover have small: "length (tlv c t k body) = length body + 2" if "t < 31" "length body < 128" for c t k body
    using that by (simp add: tlv_def appendTagAndLength_def length_octets_def)
  have "length (seq_tlv (int_tlv 1 @ seq_tlv (seq_tlv oid @ octets_tlv [1, 2]) @ int_tlv 7 @ tlv 0 1 False [0xFF]))
      < 2 ^ 31"
    using oid(2) by (simp add: seq_tlv_def octets_tlv_def int_tlv_def int_octets_small small)
  ultimately have "no_trailing (struct_field plain parse_Request_body example_request
      (seq_tlv (int_tlv 1 @ seq_tlv (seq_tlv oid @ octets_tlv [1, 2]) @ int_tlv 7 @ tlv 0 1 False [0xFF])))
    = Ok (example_request\<lparr>req_MessageImprint := (req_MessageImprint example_request)\<lparr>HashAlgorithm :=
        norm_AlgorithmIdentifier (HashAlgorithm (req_MessageImprint example_request))\<rparr>\<rparr>)"
    using Request_roundtrip [OF _ bs] by blast
  then show ?thesis
    using bs by (simp add: example_request_def imprint_def norm_AlgorithmIdentifier_def norm_opt_def)
qed

end
