(* ===== verification/Cms_Spec.thy ===== *)
theory Cms_Spec
  imports Sign_Verify Timestamp_Spec "HOL-Library.Sublist"
begin

text \<open>
  The properties of the package cms: what a successful verification has established, the pool it
  shares, detached messages, the certificates of a message, and timestamps, fetched and verified.
\<close>

subsection \<open>The pool of intermediates\<close>

lemma prefix_AddCert: "prefix pool (AddCert pool cert)"
  by (simp add: AddCert_def)

lemma prefix_foldl_AddCert: "prefix pool (foldl AddCert pool certs)"
proof (induction certs arbitrary: pool)
  case (Cons cert certs)
  then show ?case using prefix_AddCert prefix_order.order_trans by fastforce
qed simp

lemma prefix_attempt:
  assumes "attempt pool m f = (pool', r)" "\<And>v. m = Ok v \<Longrightarrow> f v = (pool', r) \<Longrightarrow> prefix pool pool'"
  shows "prefix pool pool'"
  using assms by (cases m) auto

lemma pool_grows:
  "Verify c x opts pool sd = (pool', r) \<Longrightarrow> prefix (elems pool) pool'"
  "verify c x econtent opts pool sd = (pool', r) \<Longrightarrow> prefix (elems pool) pool'"
  "verify_signers c x certs econtent eci opts plist sis = (pool', r) \<Longrightarrow> prefix plist pool'"
  "getTimestamp c x si opts plist = (pool', rt) \<Longrightarrow> prefix plist pool'"
proof (induction c x opts pool sd and c x econtent opts pool sd and c x certs econtent eci opts plist sis
    and c x si opts plist arbitrary: pool' r and pool' r and pool' r and pool' rt
    rule: Verify_verify_verify_signers_getTimestamp.induct)
  case (1 c x opts pool sd)
  from "1.prems" show ?case unfolding Verify.simps
  proof (rule prefix_attempt)
    fix econtent
    assume e: "EContentValue (EncapContentInfo sd) = Ok econtent"
      and r: "(case econtent of None \<Rightarrow> (elems pool, Err (ErrorString ''detached signature''))
        | Some econtent \<Rightarrow> verify c x econtent opts pool sd) = (pool', r)"
    then show "prefix (elems pool) pool'" using "1.IH" [OF e] by (auto split: option.splits)
  qed
next
  case (2 c x econtent opts pool sd)
  show ?case
  proof (cases "length (SignerInfos sd) = 0")
    case False
    with "2.prems" have "attempt (elems pool) (X509Certificates c sd) (\<lambda>certs.
        verify_signers c x certs econtent (EncapContentInfo sd) opts
          (foldl AddCert (elems pool) (elems certs)) (SignerInfos sd)) = (pool', r)"
      by (simp add: verify.simps)
    then show ?thesis
    proof (rule prefix_attempt)
      fix certs
      assume e: "X509Certificates c sd = Ok certs" and r: "verify_signers c x certs econtent (EncapContentInfo sd) opts
          (foldl AddCert (elems pool) (elems certs)) (SignerInfos sd) = (pool', r)"
      show "prefix (elems pool) pool'"
        using "2.IH" [OF False e r] prefix_foldl_AddCert prefix_order.order_trans by blast
    qed
  qed (use "2.prems" in \<open>simp add: verify.simps\<close>)
next
  case (3 c x certs econtent eci opts pool)
  then show ?case by simp
next
  case (4 c x certs econtent eci opts pool si sis)
  from "4.prems" show ?case unfolding verify_signers_Cons
  proof (elim prefix_attempt)
    fix cert hasTS
    assume check: "check_signer c x certs econtent eci si = Ok cert" and ts: "hasTimestamp si = Ok hasTS"
      and r: "(case signer_options c x cert opts pool si hasTS of (pool, optsCopy) \<Rightarrow>
        attempt pool optsCopy (\<lambda>optsCopy. attempt pool (Verify_certificate x cert optsCopy pool) (\<lambda>chain.
        case verify_signers c x certs econtent eci opts pool sis of
          (pool, others) \<Rightarrow> (pool, obind others (\<lambda>others. Ok (chain # others)))))) = (pool', r)"
    obtain p1 optsCopy where so: "signer_options c x cert opts pool si hasTS = (p1, optsCopy)"
      by (cases "signer_options c x cert opts pool si hasTS")
    have "prefix pool p1"
      using so "4.IH"(1) [OF check ts] by (cases hasTS) (auto simp: signer_options_def split: prod.splits)
    moreover from r so have "prefix p1 pool'" unfolding so prod.case
    proof (elim prefix_attempt)
      fix o' chain
      assume o': "optsCopy = Ok o'" and chain: "Verify_certificate x cert o' p1 = Ok chain"
        and r: "(case verify_signers c x certs econtent eci opts p1 sis of
          (pool, others) \<Rightarrow> (pool, obind others (\<lambda>others. Ok (chain # others)))) = (pool', r)"
      then show "prefix p1 pool'"
        using "4.IH"(2) [OF check ts so [symmetric, unfolded signer_options_def] o' chain]
        by (auto split: prod.splits)
    qed
    ultimately show "prefix pool pool'" by (rule prefix_order.order_trans)
  qed
next
  case (5 c x si opts pool)
  from "5.prems" show ?case unfolding getTimestamp.simps
  proof (rule prefix_attempt)
    fix token
    assume token: "timestamp_token si = Ok token"
      and r: "(case token of (tst, tsti) \<Rightarrow> case Verify c x opts (Some pool) tst of
        (pool, verified) \<Rightarrow> (pool, obind verified (\<lambda>_. check_imprint c si tsti))) = (pool', rt)"
    obtain tst tsti where t: "token = (tst, tsti)" by (cases token)
    show "prefix pool pool'"
      using r "5.IH" [OF token t [symmetric]] by (auto simp: t split: prod.splits)
  qed
qed

subsection \<open>What a successful verification has established\<close>

text \<open>
  The signature of \<open>si\<close> over the content, directly or through its signed attributes, checks under the
  key of \<open>cert\<close>, which is one of the message's certificates.
\<close>

definition authentic :: "crypto \<Rightarrow> x509 \<Rightarrow> certificate list \<Rightarrow> bytes \<Rightarrow> EncapsulatedContentInfo \<Rightarrow> SignerInfo
    \<Rightarrow> certificate \<Rightarrow> bool" where
  "authentic c x certs econtent eci si cert \<longleftrightarrow>
     cert \<in> set certs \<and> X509SignatureAlgorithm si \<noteq> UnknownSignatureAlgorithm \<and>
     (\<exists>m. CheckSignature x cert (X509SignatureAlgorithm si) m (Signature si) = Ok () \<and>
        (case SignedAttrs si of
           None \<Rightarrow> EContentType eci = ContentTypeData \<and> m = econtent
         | Some attrs \<Rightarrow> MarshaledForVerification (Some attrs) = Ok m \<and>
             GetContentTypeAttribute si = Ok (EContentType eci) \<and>
             (\<exists>hash. SignerInfo_Hash c si = Ok hash \<and>
                GetMessageDigestAttribute si = Ok (hash_sum c hash econtent))))"

text \<open>
  A timestamp token is itself a verified message, made for time stamping, its imprint is the digest of
  the signature, and its window lies within the validity of the certificate.
\<close>

definition timestamped :: "crypto \<Rightarrow> x509 \<Rightarrow> verify_options \<Rightarrow> certificate \<Rightarrow> SignerInfo \<Rightarrow> Info \<Rightarrow> bool" where
  "timestamped c x opts cert si tsti \<longleftrightarrow>
     (\<exists>tst token pool pool' chain. token_bytes si = Ok token \<and> ParseSignedData token = Ok tst \<and>
        ParseInfo (EncapContentInfo tst) = Ok tsti \<and> tsti_Version tsti = 1 \<and>
        Verify c x (opts\<lparr>KeyUsages := [ExtKeyUsageTimeStamping]\<rparr>) pool tst = (pool', Ok chain)) \<and>
     (\<exists>hash. MessageImprint_Hash c (tsti_MessageImprint tsti) = Ok hash \<and>
        (\<exists>mi. NewMessageImprint c hash (Signature si) = Ok mi \<and>
           MessageImprint_Equal mi (tsti_MessageImprint tsti))) \<and>
     Info_Before tsti (NotAfter cert) \<and> Info_After tsti (NotBefore cert)"

text \<open>The options the chain is verified with: the time is the caller's, or that of the timestamp.\<close>

definition chain_options :: "crypto \<Rightarrow> x509 \<Rightarrow> verify_options \<Rightarrow> certificate \<Rightarrow> SignerInfo \<Rightarrow> verify_options \<Rightarrow> bool" where
  "chain_options c x opts cert si opts' \<longleftrightarrow>
     (hasTimestamp si = Ok False \<and> opts' = opts) \<or>
     (hasTimestamp si = Ok True \<and> (\<exists>tsti. timestamped c x opts cert si tsti \<and>
        opts' = (if CurrentTime opts = 0 then opts\<lparr>CurrentTime := instant (tsti_GenTime tsti)\<rparr> else opts)))"

definition accepted :: "crypto \<Rightarrow> x509 \<Rightarrow> certificate list \<Rightarrow> bytes \<Rightarrow> EncapsulatedContentInfo \<Rightarrow> verify_options
    \<Rightarrow> certificate list \<Rightarrow> SignerInfo \<Rightarrow> certificate list list \<Rightarrow> bool" where
  "accepted c x certs econtent eci opts pool si chain \<longleftrightarrow>
     (\<exists>cert opts' pool'. authentic c x certs econtent eci si cert \<and> chain_options c x opts cert si opts' \<and>
        prefix pool pool' \<and> Verify_certificate x cert opts' pool' = Ok chain)"

lemma first_certificate_Ok: "first_certificate ok certs = Ok cert \<Longrightarrow> cert \<in> set certs"
  by (induction certs) (auto split: if_splits)

lemma FindCertificate_member: "FindCertificate si certs = Ok cert \<Longrightarrow> cert \<in> set certs"
  by (auto simp: FindCertificate_def outcome_simps dest: first_certificate_Ok split: if_splits)

lemma check_signer_authentic:
  assumes "check_signer c x certs econtent eci si = Ok cert"
  shows "authentic c x (elems certs) econtent eci si cert"
  using assms
  by (cases "SignedAttrs si")
    (auto simp: check_signer_def signed_message_def authentic_def IsTypeData_def outcome_simps Let_def
      dest: FindCertificate_member split: if_splits)

lemma getTimestamp_Ok:
  assumes "getTimestamp c x si opts pool = (pool', Ok tsti)"
  shows "\<exists>tst token chain. token_bytes si = Ok token \<and> ParseSignedData token = Ok tst \<and>
      ParseInfo (EncapContentInfo tst) = Ok tsti \<and> tsti_Version tsti = 1 \<and>
      Verify c x opts (Some pool) tst = (pool', Ok chain) \<and> check_imprint c si tsti = Ok tsti"
proof -
  from assms obtain tst tsti' chain where *: "timestamp_token si = Ok (tst, tsti')"
    "Verify c x opts (Some pool) tst = (pool', Ok chain)" "check_imprint c si tsti' = Ok tsti"
    by (auto simp: getTimestamp.simps outcome_simps)
  moreover from *(3) have "tsti' = tsti" by (auto simp: check_imprint_def outcome_simps split: if_splits)
  ultimately show ?thesis using timestamp_token_Ok by metis
qed

lemma signer_options_Ok:
  assumes "signer_options c x cert opts pool si hasTS = (pool', Ok opts')" "hasTimestamp si = Ok hasTS"
  shows "chain_options c x opts cert si opts'" and "prefix pool pool'"
proof -
  have "chain_options c x opts cert si opts' \<and> prefix pool pool'"
  proof (cases hasTS)
    case False
    then show ?thesis using assms by (simp add: signer_options_def chain_options_def)
  next
    case True
    let ?opts = "opts\<lparr>KeyUsages := [ExtKeyUsageTimeStamping]\<rparr>"
    obtain tsti where ts: "getTimestamp c x si ?opts pool = (pool', Ok tsti)"
      and opts': "timestamp_options cert tsti opts = Ok opts'"
      using assms(1) True by (auto simp: signer_options_def outcome_simps split: prod.splits)
    have "timestamped c x opts cert si tsti"
      using getTimestamp_Ok [OF ts] opts' unfolding timestamped_def
      by (auto simp: check_imprint_def timestamp_options_def outcome_simps split: if_splits)
    moreover have "opts' = (if CurrentTime opts = 0 then opts\<lparr>CurrentTime := instant (tsti_GenTime tsti)\<rparr> else opts)"
      using opts' by (auto simp: timestamp_options_def split: if_splits)
    ultimately show ?thesis
      using pool_grows(4) [OF ts] assms(2) True by (auto simp: chain_options_def)
  qed
  then show "chain_options c x opts cert si opts'" and "prefix pool pool'" by blast+
qed

lemma accepted_mono: "accepted c x certs econtent eci opts p1 si chain \<Longrightarrow> prefix p0 p1 \<Longrightarrow>
    accepted c x certs econtent eci opts p0 si chain"
  unfolding accepted_def using prefix_order.order_trans by blast

lemma verify_signers_sound:
  assumes "verify_signers c x certs econtent eci opts pool sis = (pool', Ok results)"
  shows "list_all2 (accepted c x (elems certs) econtent eci opts pool) sis results"
  using assms
proof (induction sis arbitrary: pool results)
  case (Cons si sis)
  obtain cert hasTS where check: "check_signer c x certs econtent eci si = Ok cert" and ts: "hasTimestamp si = Ok hasTS"
    and r: "(case signer_options c x cert opts pool si hasTS of (pool, optsCopy) \<Rightarrow>
        attempt pool optsCopy (\<lambda>optsCopy. attempt pool (Verify_certificate x cert optsCopy pool) (\<lambda>chain.
        case verify_signers c x certs econtent eci opts pool sis of
          (pool, others) \<Rightarrow> (pool, obind others (\<lambda>others. Ok (chain # others)))))) = (pool', Ok results)"
    using Cons.prems unfolding verify_signers_Cons by (auto simp: outcome_simps)
  obtain p1 optsCopy where so: "signer_options c x cert opts pool si hasTS = (p1, optsCopy)"
    by (cases "signer_options c x cert opts pool si hasTS")
  obtain opts' chain others where o': "optsCopy = Ok opts'" and chain: "Verify_certificate x cert opts' p1 = Ok chain"
    and rest: "verify_signers c x certs econtent eci opts p1 sis = (pool', Ok others)" and eq: "results = chain # others"
    using r unfolding so by (auto simp: outcome_simps)
  note opts' = signer_options_Ok [OF so [unfolded o'] ts]
  have "accepted c x (elems certs) econtent eci opts pool si chain"
    unfolding accepted_def using check_signer_authentic [OF check] opts' chain by blast
  moreover have "list_all2 (accepted c x (elems certs) econtent eci opts pool) sis others"
    using Cons.IH [OF rest] by (rule list_all2_mono) (rule accepted_mono [OF _ opts'(2)])
  ultimately show ?case by (simp add: eq)
qed simp

text \<open>
  C2: When verification of a message succeeds, the message has signatures, and for every one of them: a
  certificate of the message carries the key that made it, the digest that was signed is that of the
  content that was passed, the content type is the one that was signed; a timestamp, if there is one, is
  a verified message about this very signature, and lies within the certificate's validity; and the
  chain returned for it was verified with all certificates of the message in the pool, at the caller's
  time or else at that of the timestamp.
\<close>

theorem verify_sound:
  assumes "verify c x econtent opts pool sd = (pool', Ok results)"
  shows "SignerInfos sd \<noteq> [] \<and> prefix (elems pool) pool' \<and> (\<exists>certs. X509Certificates c sd = Ok certs \<and>
    list_all2 (accepted c x (elems certs) econtent (EncapContentInfo sd) opts
      (foldl AddCert (elems pool) (elems certs))) (SignerInfos sd) results)"
proof -
  from assms have "SignerInfos sd \<noteq> []" by (auto simp: verify.simps split: if_splits)
  moreover from this assms obtain certs where "X509Certificates c sd = Ok certs"
    "verify_signers c x certs econtent (EncapContentInfo sd) opts
       (foldl AddCert (elems pool) (elems certs)) (SignerInfos sd) = (pool', Ok results)"
    by (auto simp: verify.simps outcome_simps)
  moreover note pool_grows(2) [OF assms]
  ultimately show ?thesis using verify_signers_sound by blast
qed

theorem verify_sound_witness:
  "\<exists>sd. SignerInfos sd \<noteq> [] \<and> (\<exists>certs. X509Certificates example_pki sd = Ok certs \<and>
    list_all2 (accepted example_pki example_x509 (elems certs) [104, 105] (EncapContentInfo sd) example_options
      (foldl AddCert (elems None) (elems certs))) (SignerInfos sd) [[[example_certificate]]])"
proof -
  obtain sd pool where
    "verify example_pki example_x509 [104, 105] example_options None sd = (pool, Ok [[[example_certificate]]])"
    by (rule example_verified)
  from verify_sound [OF this] show ?thesis by blast
qed

subsection \<open>Detached messages\<close>

lemma signed_message_type:
  "EContentType eci = EContentType eci' \<Longrightarrow> signed_message c econtent eci si = signed_message c econtent eci' si"
  by (simp add: signed_message_def IsTypeData_def)

lemma verify_signers_type:
  assumes "EContentType eci = EContentType eci'"
  shows "verify_signers c x certs econtent eci opts pool sis = verify_signers c x certs econtent eci' opts pool sis"
proof (induction sis arbitrary: pool)
  case (Cons si sis)
  then show ?case by (simp add: check_signer_def signed_message_type [OF assms])
qed simp

text \<open>
  Detaching loses nothing: verifying the content with the detached message does what verifying the
  attached message does, down to the pool and the errors.  \<open>Verify\<close> refuses a detached message and
  \<open>VerifyDetached\<close> an attached one.
\<close>

theorem Detached_VerifyDetached:
  assumes "EContentValue (EncapContentInfo sd) = Ok (Some econtent)"
  shows "IsDetached (Detached sd) \<and>
    VerifyDetached c x econtent opts pool (Detached sd) = Verify c x opts pool sd \<and>
    Verify c x opts pool (Detached sd) = (elems pool, Err (ErrorString ''detached signature'')) \<and>
    VerifyDetached c x message opts pool sd = (elems pool, Err (ErrorString ''signature not detached''))"
proof -
  have "rv_Bytes (EContent (EncapContentInfo sd)) \<noteq> None"
    using assms by (cases "rv_Bytes (EContent (EncapContentInfo sd))") (simp_all add: EContentValue_def)
  moreover have "verify c x econtent opts pool (Detached sd) = verify c x econtent opts pool sd"
    by (auto simp: verify.simps Detached_def X509Certificates_def intro!: arg_cong3 [where f = attempt] verify_signers_type)
  moreover have "EContentValue (EncapContentInfo (Detached sd)) = Ok None"
    by (simp add: EContentValue_def Detached_def nil_raw_def)
  moreover have "rv_Bytes (EContent (EncapContentInfo (Detached sd))) = None"
    by (simp add: Detached_def nil_raw_def)
  ultimately show ?thesis using assms by (simp add: IsDetached_def VerifyDetached_def Verify.simps)
qed

theorem Detached_VerifyDetached_witness:
  "VerifyDetached example_pki example_x509 [104, 105] example_options None (Detached example_data)
    = Verify example_pki example_x509 example_options None example_data"
proof -
  have "EContentValue (EncapContentInfo example_data) = Ok (Some [104, 105])"
    using EContentValue_new [of "[104, 105]" ContentTypeData]
    by (simp add: example_data_def NewSignedData_def NewDataEncapsulatedContentInfo_def)
  from Detached_VerifyDetached [OF this] show ?thesis by blast
qed

subsection \<open>The certificates of a message\<close>

definition parses_back :: "crypto \<Rightarrow> certificate list \<Rightarrow> bool" where
  "parses_back c certs \<longleftrightarrow> addable certs None \<and> (\<forall>cert \<in> set certs. ParseCertificate c (Raw cert) = Ok cert)"

text \<open>
  \<open>SetCertificates\<close> replaces the certificates of a message by the given ones, in their order, and
  \<open>GetCertificates\<close> returns them; nothing else in the message changes.
\<close>

theorem SetCertificates_GetCertificates:
  assumes "parses_back c certs"
  shows "\<exists>sd'. SetCertificates certs sd = (sd', Ok ()) \<and> GetCertificates c sd' = Ok (Some certs) \<and>
    sd' = sd\<lparr>Certificates := Some (map raw_certificate certs)\<rparr>"
proof -
  have set: "SetCertificates certs sd = (sd\<lparr>Certificates := Some (map raw_certificate certs)\<rparr>, Ok ())"
    by (rule SetCertificates_Ok) (use assms in \<open>simp add: parses_back_def\<close>)
  have "(if rv_Class raw \<noteq> 0 \<or> rv_Tag raw \<noteq> 16 then Err ErrUnsupported
      else ParseCertificate c (elems (rv_FullBytes raw))) = Ok cert"
    if "cert \<in> set certs" "raw = raw_certificate cert" for cert raw
  proof -
    have wf: "wf_certificate cert" "ParseCertificate c (Raw cert) = Ok cert" using assms that by (auto simp: parses_back_def addable_def)
    obtain body where "Raw cert = tlv 0 16 True body" "raw_certificate cert = raw_of 0 16 True body"
      by (rule wf_certificate_Raw [OF wf(1)])
    then show ?thesis using that(2) wf(2) by simp
  qed
  then have "traverse (\<lambda>raw. if rv_Class raw \<noteq> 0 \<or> rv_Tag raw \<noteq> 16 then Err ErrUnsupported
      else ParseCertificate c (elems (rv_FullBytes raw))) (map raw_certificate certs) = Ok (map id certs)"
    unfolding traverse_map by (intro traverse_map_Ok) simp
  then show ?thesis using set by (simp add: GetCertificates_def X509Certificates_def)
qed

theorem SetCertificates_GetCertificates_witness:
  "\<exists>sd'. SetCertificates [example_certificate] example_data = (sd', Ok ()) \<and>
    GetCertificates example_pki sd' = Ok (Some [example_certificate])"
proof -
  have "parses_back example_pki [example_certificate]"
    using addable_single [OF wf_example_certificate] by (simp add: parses_back_def example_pki_def)
  from SetCertificates_GetCertificates [OF this] show ?thesis by blast
qed

subsection \<open>Fetching timestamps\<close>

text \<open>
  What \<open>fetchTS\<close> has checked of a token before it becomes an attribute: the service granted it, it is a
  TSTInfo over the digest of this signature, and it repeats the nonce of the request.
\<close>

definition granted :: "crypto \<Rightarrow> bytes outcome \<Rightarrow> SignerInfo \<Rightarrow> Attribute \<Rightarrow> bool" where
  "granted c random si attr \<longleftrightarrow> attr_Type attr = AttributeTimeStampToken \<and>
     (\<exists>(resp :: Response) sd tsti hash mi nonce.
        NewAttribute AttributeTimeStampToken (ContentInfoValue (resp_TimeStampToken resp)) = Ok attr \<and>
        pki_Status (resp_Status resp) = 0 \<and>
        SignedDataContent (resp_TimeStampToken resp) = Ok sd \<and> ParseInfo (EncapContentInfo sd) = Ok tsti \<and>
        SignerInfo_Hash c si = Ok hash \<and> NewMessageImprint c hash (Signature si) = Ok mi \<and>
        MessageImprint_Equal mi (tsti_MessageImprint tsti) \<and>
        GenerateNonce random = Ok nonce \<and> tsti_Nonce tsti = Some nonce)"

lemma NewAttribute_Type: "NewAttribute typ val = Ok attr \<Longrightarrow> attr_Type attr = typ"
  by (auto simp: NewAttribute_def outcome_simps)

lemma fetchTS_granted:
  assumes "fetchTS c random http url si = Ok attr"
  shows "granted c random si attr"
proof -
  from assms obtain req resp tsti where
    req: "tsRequest c random si = Ok req" and info: "Response_Info resp = Ok tsti"
    and ok: "Matches req tsti = Ok True"
    and attr: "NewAttribute AttributeTimeStampToken (ContentInfoValue (resp_TimeStampToken resp)) = Ok attr"
    by (auto simp: fetchTS_def outcome_simps split: if_splits)
  from req obtain hash mi nonce where "SignerInfo_Hash c si = Ok hash" "NewMessageImprint c hash (Signature si) = Ok mi"
    "GenerateNonce random = Ok nonce" "req_MessageImprint req = mi" "req_Nonce req = Some nonce"
    by (auto simp: tsRequest_def outcome_simps)
  moreover from info obtain sd where "pki_Status (resp_Status resp) = 0"
    "SignedDataContent (resp_TimeStampToken resp) = Ok sd" "ParseInfo (EncapContentInfo sd) = Ok tsti"
    by (auto simp: Response_Info_def GetError_def outcome_simps split: if_splits)
  moreover from ok have "MessageImprint_Equal (req_MessageImprint req) (tsti_MessageImprint tsti)"
    by (auto simp: Matches_def split: if_splits)
  moreover from ok calculation have "tsti_Nonce tsti = Some nonce"
    by (cases "tsti_Nonce tsti") (auto simp: Matches_def big_Cmp_differs_def split: if_splits)
  ultimately show ?thesis using attr NewAttribute_Type [OF attr] unfolding granted_def by blast
qed

text \<open>
  C8: \<open>AddTimestamps\<close> is all or nothing: when a token cannot be fetched for some signature the message
  is as it was; otherwise every signature has got one more unsigned attribute, a granted token over
  that signature, and nothing else has changed.
\<close>

theorem AddTimestamps_atomic:
  "case AddTimestamps c random http url sd of (sd', r) \<Rightarrow>
     (if is_ok r
      then \<exists>attrs.
        list_all2 (\<lambda>(i, si). granted c (random i) si) (enumerate 0 (SignerInfos sd)) attrs \<and>
        sd' = sd\<lparr>SignerInfos := map2 (\<lambda>si attr. si\<lparr>UnsignedAttrs := go_append (UnsignedAttrs si) [attr]\<rparr>)
          (SignerInfos sd) attrs\<rparr>
      else sd' = sd)"
proof -
  let ?f = "\<lambda>(i, si). fetchTS c (random i) (http i) url si" and ?sis = "enumerate 0 (SignerInfos sd)"
  have add: "map2 add_unsigned sis attrs
      = map2 (\<lambda>si attr. si\<lparr>UnsignedAttrs := go_append (UnsignedAttrs si) [attr]\<rparr>) sis attrs" for sis attrs
    by (simp add: add_unsigned_def)
  show ?thesis
  proof (cases "traverse ?f ?sis")
    case (Ok attrs)
    have "granted c (random i) (SignerInfos sd ! i) (attrs ! i)" if "i < length (SignerInfos sd)" for i
      using traverse_Ok_nth [OF Ok, of i] that by (auto simp: nth_enumerate_eq intro: fetchTS_granted)
    then have "list_all2 (\<lambda>(i, si). granted c (random i) si) ?sis attrs"
      using traverse_Ok_length [OF Ok] by (auto simp: list_all2_conv_all_nth nth_enumerate_eq)
    then show ?thesis
      using Ok by (auto simp: AddTimestamps_def add intro!: exI [of _ attrs])
  qed (simp_all add: AddTimestamps_def)
qed

subsection \<open>Tokens within messages\<close>

text \<open>
  C11: Verification ends: the token in a signature of a parsed message is smaller than the message, by
  the multiset of the sizes of its elements, and that order is well-founded.
\<close>

theorem token_decreases:
  assumes "ParseSignedData bs = Ok sd" and "si \<in> set (SignerInfos sd)" and "token_bytes si = Ok token"
  shows "(message_sizes token, message_sizes bs) \<in> smaller \<and> wf smaller"
  using token_smaller [OF assms] by (simp add: wf_mult)

definition example_token_message :: SignedData where
  "example_token_message =
     \<lparr>sd_Version = 1, DigestAlgorithms = [], EncapContentInfo = detached_eci, Certificates = None, CRLs = None,
      SignerInfos = [\<lparr>Version = 1, SID = raw_of 0 16 True [], DigestAlgorithm = sha256_identifier, SignedAttrs = None,
        SignatureAlgorithm = sha256_identifier, Signature = [],
        UnsignedAttrs = Some [the_attribute AttributeTimeStampToken (tlv 0 16 True [])]\<rparr>]\<rparr>"

theorem token_decreases_witness:
  "\<exists>bs. is_ok (ParseSignedData bs) \<and> (message_sizes (tlv 0 16 True []), message_sizes bs) \<in> smaller"
proof -
  let ?sd = example_token_message
  have der: "is_der (tlv 0 16 True [])" by (intro is_der_constructed ders_Nil)
  have ts: "wf_oid AttributeTimeStampToken" by (simp add: wf_oid_def oid_defs)
  have small: "length (tlv 0 16 True []) = 2" by (simp add: tlv_def appendTagAndLength_def length_octets_def)
  have attr: "wf_Attribute (the_attribute AttributeTimeStampToken (tlv 0 16 True []))"
    "is_der (marshal_raw (attr_RawValue (the_attribute AttributeTimeStampToken (tlv 0 16 True []))))"
    by (rule the_attribute_wf [OF ts _ der]; simp add: small)+
  have raw: "decoded_raw (raw_of 0 16 True [])" by (rule decoded_raw_raw_of) (simp add: wf_tlv_def)
  have wf: "wf_SignedData ?sd"
    using attr(1) good_eci_detached raw
    by (simp add: example_token_message_def wf_SignedData_def wf_SignerInfo_def good_eci_def wf_Attributes_def
        sha256_identifier_def wf_AlgorithmIdentifier_def wf_opt_def wf_oids wf_raw_decoded int_octets_small)
  have d: "der_SignedData ?sd"
    using attr(2) good_eci_detached der
    by (simp add: example_token_message_def der_SignedData_def der_SignerInfo_def good_eci_def der_Attributes_def
        sha256_identifier_def der_opt_def)
  obtain bs where bs: "ContentInfoDER ?sd = Ok bs" using ContentInfoDER_ok [OF wf] by (auto simp: is_ok_iff)
  have "oid_tlv AttributeTimeStampToken = Ok [6, 11, 42, 134, 72, 134, 247, 13, 1, 9, 16, 2, 14]"
    by (simp add: oid_tlv_def makeObjectIdentifier_def oid_defs appendBase128Int_def
        base128_hi.simps tlv_def appendTagAndLength_def length_octets_def octet_def)
  then have "length bs < 2 ^ 31"
    using bs
    by (simp add: example_token_message_def ContentInfoDER_def SignedData_ContentInfo_def marshal_SignedData_def
        marshal_EncapsulatedContentInfo_def marshal_ContentInfo_def marshal_SignerInfo_def marshal_Attributes_def
        marshal_Attribute_def marshal_AlgorithmIdentifier_def sha256_identifier_def detached_eci_def the_attribute_def
        oid_tlv_content_types oid_tlv_signing marshal_raw_fresh optional_raw_def marshal_raws_def)
      (auto simp: int_tlv_def int_octets_small seq_tlv_def set_tlv_def set_body_def octets_tlv_def tlv_def
        appendTagAndLength_def length_octets_def)
  then obtain ci where "ParseContentInfo (bs @ []) = Ok ci" "SignedDataContent ci = Ok (norm_SignedData ?sd)"
    using ContentInfoDER_parse [OF bs wf d, of "[]"] by blast
  then have parse: "ParseSignedData bs = Ok (norm_SignedData ?sd)" by (simp add: ParseSignedData_def)
  define si where "si = norm_SignerInfo (hd (SignerInfos ?sd))"
  have si: "si \<in> set (SignerInfos (norm_SignedData ?sd))"
    by (simp add: si_def norm_SignedData_def example_token_message_def)
  have "DecodeAnySet (attr_RawValue (the_attribute AttributeTimeStampToken (tlv 0 16 True [])))
      = Ok \<lparr>Elements = Some [raw_of 0 16 True []]\<rparr>"
    by (rule the_attribute_single) (simp_all add: small, simp add: wf_tlv_def)
  moreover have "UnsignedAttrs si = Some [the_attribute AttributeTimeStampToken (tlv 0 16 True [])]"
    by (simp add: si_def example_token_message_def norm_SignerInfo_def norm_unsigned_def the_attribute_wf(3) [OF ts _ der] small)
  ultimately have "GetOnlyAttributeValueBytes (UnsignedAttrs si) AttributeTimeStampToken = Ok (raw_of 0 16 True [])"
    unfolding GetOnlyAttributeValueBytes_Ok_iff by (simp add: the_attribute_def)
  then have token: "token_bytes si = Ok (tlv 0 16 True [])" by (simp add: token_bytes_def)
  from token_decreases [OF parse si token] parse show ?thesis by (intro exI [of _ bs]) simp
qed

end
