(* ===== verification/Commands_Spec.thy ===== *)
theory Commands_Spec
  imports Commands Key_Vault_Spec Cms_Spec
begin

text \<open>
  Properties of the commands: which identity signs, which certificates go into the message, what a
  verification writes, when a run fails, and that a signature made by one run is accepted by another.
\<close>

subsection \<open>Selecting an identity\<close>

definition user_email :: "string \<Rightarrow> string" where
  "user_email user =
     (case trimmed (split_user_id user) of (name, _, email) \<Rightarrow>
        if email \<noteq> [] then email else if CHR ''@'' \<in> set name then name else [])"

lemma normalizeEmail_user: "normalizeEmail user = Ok (user_email user)"
  by (simp add: normalizeEmail_def parseUserID_octets user_email_def split: prod.splits)

text \<open>
  The test a user id stands for: an email address of the certificate, or the last digits of its
  fingerprint.
\<close>

definition selects :: "crypto \<Rightarrow> string \<Rightarrow> certificate \<Rightarrow> bool" where
  "selects c user cert \<longleftrightarrow>
     (if CHR ''@'' \<in> set user then user_email user \<in> set (certEmails cert)
      else HasSuffix (certFingerprint c cert) (normalizeFingerprint user))"

lemma find_identity_find:
  assumes "\<forall>i \<in> set idents. \<not> panics (Certificate i)"
  shows "find_identity ok idents
    = Ok (List.find (\<lambda>i. case Certificate i of Ok cert \<Rightarrow> ok cert | _ \<Rightarrow> False) idents)"
  using assms by (induction idents) (auto split: outcome.splits)

text \<open>
  What the code tests: for a user id that is a fingerprint the email address stays empty, and is
  compared all the same.
\<close>

lemma findUserIdentity_find:
  fixes opts :: options
  assumes "\<forall>i \<in> set idents. \<not> panics (Certificate i)"
  defines "user \<equiv> localUserOpt opts"
  shows "findUserIdentity c opts idents =
    (if (if CHR ''@'' \<in> set user then user_email user = [] else normalizeFingerprint user = [])
     then Err (ErrorString (''bad user-id format: '' @ user))
     else Ok (List.find (\<lambda>i. case Certificate i of
       Ok cert \<Rightarrow> CHR ''@'' \<notin> set user \<and> [] \<in> set (certEmails cert) \<or> selects c user cert | _ \<Rightarrow> False) idents))"
proof (cases "CHR ''@'' \<in> set user")
  case True
  have "certHasEmail cert (user_email user) \<or> certHasFingerprint c cert [] \<longleftrightarrow> selects c user cert" for cert
    using True by (auto simp: selects_def certHasEmail_def certHasFingerprint_def list_ex_iff)
  then show ?thesis
    using True by (simp add: findUserIdentity_def normalizeEmail_user find_identity_find [OF assms(1)]
        user_def [symmetric] cong: outcome.case_cong)
next
  case False
  have "certHasEmail cert [] \<or> certHasFingerprint c cert (normalizeFingerprint user) \<longleftrightarrow>
      [] \<in> set (certEmails cert) \<or> selects c user cert"
    if "normalizeFingerprint user \<noteq> []" for cert
    using False that by (auto simp: selects_def certHasEmail_def certHasFingerprint_def list_ex_iff)
  then show ?thesis
    using False by (auto simp: findUserIdentity_def find_identity_find [OF assms(1)] user_def [symmetric]
        cong: outcome.case_cong)
qed

text \<open>
  C34: Signing uses the first identity whose certificate has the email address of the user id or, when the
  user id has no \<open>@\<close>, a fingerprint that ends in the digits given; identities whose certificate cannot be
  had are passed over, and a user id that is neither is an error. For a fingerprint no certificate may
  have an empty email address: the code takes such a certificate for any fingerprint
  (\<open>empty_email_selected\<close>).
\<close>

theorem findUserIdentity_first:
  fixes opts :: options
  assumes "\<forall>i \<in> set idents. \<not> panics (Certificate i)"
    and "CHR ''@'' \<in> set (localUserOpt opts) \<or>
      (\<forall>i \<in> set idents. \<forall>cert. Certificate i = Ok cert \<longrightarrow> [] \<notin> set (certEmails cert))"
  defines "user \<equiv> localUserOpt opts"
  shows "findUserIdentity c opts idents =
    (if (if CHR ''@'' \<in> set user then user_email user = [] else normalizeFingerprint user = [])
     then Err (ErrorString (''bad user-id format: '' @ user))
     else Ok (List.find (\<lambda>i. case Certificate i of Ok cert \<Rightarrow> selects c user cert | _ \<Rightarrow> False) idents))"
proof -
  have "List.find (\<lambda>i. case Certificate i of
       Ok cert \<Rightarrow> CHR ''@'' \<notin> set user \<and> [] \<in> set (certEmails cert) \<or> selects c user cert | _ \<Rightarrow> False) idents =
     List.find (\<lambda>i. case Certificate i of Ok cert \<Rightarrow> selects c user cert | _ \<Rightarrow> False) idents"
    using assms(2) by (intro find_cong refl) (auto simp: user_def split: outcome.splits)
  then show ?thesis unfolding findUserIdentity_find [OF assms(1)] user_def by simp
qed

definition example_identity :: identity where
  "example_identity = \<lparr>Certificate = Ok example_certificate, CertificateChain = Ok [example_certificate],
     Signer = Ok example_signer, Delete = Err ErrWrongType\<rparr>"

definition example_options' :: options where
  "example_options' = \<lparr>helpFlag = False, versionFlag = False, signFlag = True, verifyFlag = False,
     listKeysFlag = False, localUserOpt = ''A <a@b.c>'', detachSignFlag = True, armorFlag = True,
     statusFdOpt = 1, tsaOpt = [], includeCertsOpt = - 1, includeCertsSeen = False, fileArgs = []\<rparr>"

lemma example_email: "user_email ''A <a@b.c>'' = ''a@b.c''"
  by code_simp

definition example_sha :: crypto where
  "example_sha = example_pki\<lparr>hash_sum := (\<lambda>h d. replicate (if h = SHA1 then 20 else 32) (if d = [] then 0 else 7))\<rparr>"

theorem findUserIdentity_first_witness:
  "findUserIdentity example_pki example_options' [example_identity] = Ok (Some example_identity) \<and>
   findUserIdentity example_sha (example_options'\<lparr>localUserOpt := ''0x'' @ certHexFingerprint example_sha example_certificate\<rparr>)
     [example_identity] = Ok (Some example_identity)"
proof -
  let ?user = "''0x'' @ certHexFingerprint example_sha example_certificate"
  have fpr: "normalizeFingerprint ?user = certFingerprint example_sha example_certificate" "CHR ''@'' \<notin> set ?user"
    using normalizeFingerprint_hex hex_no_at by (auto simp: certHexFingerprint_def)
  have "selects example_sha ?user example_certificate" "certFingerprint example_sha example_certificate \<noteq> []"
    using fpr by (simp_all add: selects_def HasSuffix_def certFingerprint_def example_sha_def example_certificate_def)
  moreover have "[] \<notin> set (certEmails example_certificate)"
    by (simp add: certEmails_def example_certificate_def)
  ultimately show ?thesis
    using findUserIdentity_first [of "[example_identity]" example_options' example_pki] example_email fpr
      findUserIdentity_first [of "[example_identity]" "example_options'\<lparr>localUserOpt := ?user\<rparr>" example_sha]
    by (simp add: example_identity_def example_options'_def selects_def certEmails_def example_certificate_def)
qed

text \<open>
  The fingerprint that \<open>--list-keys\<close> prints, with or without \<open>0x\<close>, selects an identity with that
  fingerprint when SHA-1 digests have one length, unless a certificate with an empty email address
  comes first.
\<close>

theorem fingerprint_selects:
  assumes "localUserOpt opts \<in> {certHexFingerprint c cert, ''0x'' @ certHexFingerprint c cert}"
    and "ident \<in> set idents" "Certificate ident = Ok cert" "\<forall>i \<in> set idents. \<not> panics (Certificate i)"
    and "Raw cert \<noteq> []" "\<forall>d. length (hash_sum c SHA1 d) = 20"
  shows "\<exists>i cert'. findUserIdentity c opts idents = Ok (Some i) \<and> i \<in> set idents \<and> Certificate i = Ok cert' \<and>
    (certFingerprint c cert' = certFingerprint c cert \<or> [] \<in> set (certEmails cert'))"
proof -
  let ?user = "localUserOpt opts" and ?fpr = "certFingerprint c cert"
  have len: "length ?fpr = 20" using assms(5,6) by (simp add: certFingerprint_def)
  have at: "CHR ''@'' \<notin> set ?user" using assms(1) hex_no_at by (auto simp: certHexFingerprint_def)
  have fpr: "normalizeFingerprint ?user = ?fpr"
    using assms(1) normalizeFingerprint_hex by (auto simp: certHexFingerprint_def)
  let ?ok = "\<lambda>i. case Certificate i of
    Ok cert \<Rightarrow> CHR ''@'' \<notin> set ?user \<and> [] \<in> set (certEmails cert) \<or> selects c ?user cert | _ \<Rightarrow> False"
  have sel: "selects c ?user x \<longleftrightarrow> HasSuffix (certFingerprint c x) ?fpr" for x
    using at fpr by (simp add: selects_def)
  have "?ok ident" using assms(3) sel by (simp add: HasSuffix_def)
  then have "List.find ?ok idents \<noteq> None" using assms(2) by (auto simp: find_None_iff)
  then obtain i where i: "List.find ?ok idents = Some i" by blast
  then have "i \<in> set idents" "?ok i" by (auto simp: find_Some_iff dest: nth_mem)
  then obtain x where x: "i \<in> set idents" "Certificate i = Ok x" "[] \<in> set (certEmails x) \<or> selects c ?user x"
    by (auto split: outcome.splits)
  have "certFingerprint c x = ?fpr" if "HasSuffix (certFingerprint c x) ?fpr"
    using that len assms(6) by (auto simp: HasSuffix_def certFingerprint_def split: if_splits)
  then have "certFingerprint c x = ?fpr \<or> [] \<in> set (certEmails x)" using x(3) sel by blast
  moreover have "findUserIdentity c opts idents = Ok (Some i)"
    using findUserIdentity_find [OF assms(4), of c opts] at fpr len i by auto
  ultimately show ?thesis using x(1,2) by blast
qed

theorem fingerprint_selects_witness:
  "\<exists>i cert'. findUserIdentity example_sha
      (example_options'\<lparr>localUserOpt := ''0x'' @ certHexFingerprint example_sha example_certificate\<rparr>) [example_identity]
      = Ok (Some i) \<and> Certificate i = Ok cert' \<and>
    (certFingerprint example_sha cert' = certFingerprint example_sha example_certificate \<or>
     [] \<in> set (certEmails cert'))"
  using fingerprint_selects [of "example_options'\<lparr>localUserOpt := ''0x'' @ certHexFingerprint example_sha example_certificate\<rparr>"
      example_sha example_certificate example_identity "[example_identity]"]
  by (auto simp: example_identity_def example_certificate_def example_sha_def)

text \<open>
  A certificate with an empty email address is selected by every user id that is a fingerprint,
  because the address that was not given is compared all the same.
\<close>

theorem empty_email_selected:
  assumes "[] \<in> set (certEmails cert)" "Certificate ident = Ok cert"
    and "CHR ''@'' \<notin> set (localUserOpt opts)" "normalizeFingerprint (localUserOpt opts) \<noteq> []"
  shows "findUserIdentity c opts (ident # idents) = Ok (Some ident)"
  using assms by (auto simp: findUserIdentity_def certHasEmail_def list_ex_iff)

theorem empty_email_selected_witness:
  "findUserIdentity example_sha (example_options'\<lparr>localUserOpt := ''00''\<rparr>)
     [example_identity\<lparr>Certificate := Ok (example_certificate\<lparr>EmailAddresses := [[]]\<rparr>)\<rparr>]
   = Ok (Some (example_identity\<lparr>Certificate := Ok (example_certificate\<lparr>EmailAddresses := [[]]\<rparr>)\<rparr>))"
proof -
  have "normalizeFingerprint ''00'' \<noteq> []" by code_simp
  then show ?thesis by (intro empty_email_selected) (simp_all add: certEmails_def)
qed

subsection \<open>The certificates of a signature\<close>

text \<open>How many certificates remain when the issuer of one with AIA, and all above it, are left out.\<close>

fun below_aia :: "certificate list \<Rightarrow> nat" where
  "below_aia [] = 0"
| "below_aia [cert] = 1"
| "below_aia (cert # issuer # chain) =
     (if RawSubject issuer = RawIssuer cert \<and> IssuingCertificateURL cert \<noteq> [] then 1
      else Suc (below_aia (issuer # chain)))"

definition without_root :: "certificate list \<Rightarrow> nat \<Rightarrow> nat" where
  "without_root chain k =
     (if 0 < k \<and> RawIssuer (chain ! (k - 1)) = RawSubject (chain ! (k - 1)) then k - 1 else k)"

lemma below_aia_snoc:
  "below_aia (xs @ [cert, issuer]) =
     (if below_aia (xs @ [cert]) \<le> length xs then below_aia (xs @ [cert])
      else if RawSubject issuer = RawIssuer cert \<and> IssuingCertificateURL cert \<noteq> [] then Suc (length xs)
      else Suc (Suc (length xs)))"
proof (induction xs)
  case (Cons x xs)
  then show ?case by (cases xs) auto
qed simp

lemma below_aia_le: "below_aia chain \<le> length chain"
  by (induction chain rule: below_aia.induct) auto

lemma aia_loop_below:
  assumes "i < length chain"
  shows "aia_loop i chain = Ok (if below_aia (take (Suc i) chain) \<le> i then take (below_aia (take (Suc i) chain)) chain
    else chain)"
  using assms
proof (induction i arbitrary: chain)
  case 0
  then show ?case by (cases chain) auto
next
  case (Suc i)
  let ?cert = "chain ! i" and ?issuer = "chain ! Suc i"
  have t: "take (Suc i) chain = take i chain @ [?cert]"
    "take (Suc (Suc i)) chain = take i chain @ [?cert, ?issuer]"
    using Suc.prems by (simp_all add: take_Suc_conv_app_nth)
  have b: "below_aia (take (Suc (Suc i)) chain) =
      (if below_aia (take (Suc i) chain) \<le> i then below_aia (take (Suc i) chain)
       else if RawSubject ?issuer = RawIssuer ?cert \<and> IssuingCertificateURL ?cert \<noteq> [] then Suc i else Suc (Suc i))"
    unfolding t using Suc.prems by (simp add: below_aia_snoc)
  show ?case
    using Suc.prems Suc.IH [of chain] Suc.IH [of "take (Suc i) chain"] b
    by (simp add: byte_at_def subslice_def min_def)
qed

lemma aia_loop_all: "aia_loop (length chain - 1) chain = Ok (take (below_aia chain) chain)"
proof (cases chain)
  case (Cons x xs)
  then show ?thesis
    using aia_loop_below [of "length chain - 1" chain] below_aia_le [of chain] by auto
qed simp

lemma chainWithoutRoot_take:
  "k \<le> length chain \<Longrightarrow> chainWithoutRoot (take k chain) = take (without_root chain k) chain"
  by (auto simp: chainWithoutRoot_def without_root_def subslice_def min_def)

text \<open>
  C16: The certificates that go into a signature are always a prefix of the chain, so they are never
  out of order and never a panic. How long the prefix is depends on the policy: all, a number, or what
  is below the root and, for -3, below the first issuer that can be fetched.
\<close>

theorem certsForSignature_prefix:
  "certsForSignature opts chain = Ok (take
     (let include = includeCertsOpt opts; n = length chain in
      if include = - 1 then n
      else if 0 \<le> include then min (nat include) n
      else if include = - 3 then without_root chain (below_aia chain)
      else without_root chain n) chain)"
proof -
  let ?n = "length chain"
  consider "includeCertsOpt opts < - 3" | "includeCertsOpt opts = - 3" | "includeCertsOpt opts = - 2"
    | "includeCertsOpt opts = - 1" | "0 \<le> includeCertsOpt opts" by linarith
  then show ?thesis
  proof cases
    case 2
    then show ?thesis
      by (simp add: certsForSignature_def aia_loop_all chainWithoutRoot_take [OF below_aia_le] del: One_nat_def)
  next
    case 5
    then show ?thesis by (auto simp: certsForSignature_def subslice_def min_def Let_def)
  qed (use chainWithoutRoot_take [of ?n chain] in \<open>simp_all add: certsForSignature_def\<close>)
qed


subsection \<open>What is written\<close>

text \<open>The text that has reached a file descriptor.\<close>

definition text_on :: "nat \<Rightarrow> world \<Rightarrow> string" where
  "text_on fd w = concat (map snd (filter (\<lambda>(n, _). n = fd) (written w)))"

lemma text_on_write [simp]: "text_on fd (write_fd n s w) = (if n = fd then text_on fd w @ s else text_on fd w)"
  by (simp add: text_on_def write_fd_def)

lemma text_on_init [simp]: "text_on fd init_world = []"
  by (simp add: text_on_def init_world_def)

text \<open>A world whose status file is open on \<open>fd\<close>, or will be at the first status line.\<close>

definition status_on :: "options \<Rightarrow> nat \<Rightarrow> world \<Rightarrow> bool" where
  "status_on opts fd w \<longleftrightarrow>
     (if setup_done w then statusFile w = Some fd else 0 < fd \<and> statusFdOpt opts = int fd)"

lemma status_on_init: "0 < fd \<Longrightarrow> statusFdOpt opts = int fd \<Longrightarrow> status_on opts fd init_world"
  by (simp add: status_on_def init_world_def)

lemma status_on_write [simp]: "status_on opts fd (write_fd n s w) = status_on opts fd w"
  by (simp add: status_on_def write_fd_def)

lemma status_on_setup: "status_on opts fd w \<Longrightarrow> statusFile (setupStatus opts w) = Some fd \<and>
    status_on opts fd (setupStatus opts w) \<and> text_on n (setupStatus opts w) = text_on n w"
  by (auto simp: status_on_def setupStatus_def text_on_def split: if_splits)

definition status_line :: "status \<Rightarrow> string \<Rightarrow> string" where
  "status_line s args = status_prefix @ status_text s @ args @ newline"

lemma emit_line:
  assumes "status_on opts fd w"
  shows "text_on n (emit opts s w) = text_on n w @ (if n = fd then status_line s [] else [])"
    and "status_on opts fd (emit opts s w)"
  using status_on_setup [OF assms] by (auto simp: emit_def status_line_def Let_def)

lemma emitf_line:
  assumes "status_on opts fd w"
  shows "text_on n (emitf opts s args w) = text_on n w @ (if n = fd then status_line s ('' '' @ args) else [])"
    and "status_on opts fd (emitf opts s args w)"
  using status_on_setup [OF assms] by (auto simp: emitf_def status_line_def Let_def)

lemmas status_lines = emit_line emitf_line

text \<open>The lines for a good signature by a certificate.\<close>

definition good_lines :: "environment \<Rightarrow> certificate \<Rightarrow> string" where
  "good_lines env cert =
     status_line GOODSIG ('' '' @ certHexFingerprint (env_crypto env) cert @ '' '' @ Subject_String env cert) @
     status_line TRUST_FULLY '' 0 shell''"

lemma report_text:
  assumes "status_on opts fd w" "fd \<noteq> 2" "report addr env opts verified w = (w', r)"
  shows "(\<exists>chs cert. verified = Ok chs \<and> first_cert chs = Ok cert \<and> r = Ok () \<and>
      text_on fd w' = text_on fd w @ good_lines env cert) \<or>
    (\<exists>e. verified = Err e \<and> r = Err (Wrapped ''failed to verify signature'' e) \<and>
      text_on fd w' = text_on fd w @ status_line ERRSIG []) \<or>
    (panics r \<and> text_on fd w' = text_on fd w)"
proof (cases verified)
  case (Ok chs)
  show ?thesis
  proof (cases "first_cert chs")
    case cert: (Ok cert)
    let ?args = "certHexFingerprint (env_crypto env) cert @ '' '' @ Subject_String env cert"
    obtain t1 t2 where r: "r = Ok ()" and
      w': "w' = emitf opts TRUST_FULLY ''0 shell'' (write_fd 2 t2 (emitf opts GOODSIG ?args (write_fd 2 t1 w)))"
      using assms(3) Ok cert by (auto simp: report_def emitGoodSig_def emitTrustFully_def Let_def)
    have on: "status_on opts fd (write_fd 2 t1 w)" using assms(1) by simp
    note good = emitf_line [OF on, where s = GOODSIG and args = ?args]
    from good(2) have "status_on opts fd (write_fd 2 t2 (emitf opts GOODSIG ?args (write_fd 2 t1 w)))" by simp
    from emitf_line(1) [OF this] have "text_on fd w' = text_on fd w @ good_lines env cert"
      using assms(2) good(1) [of fd] by (simp add: w' good_lines_def)
    then show ?thesis using Ok cert r by blast
  next
    case (Panic p)
    then show ?thesis using assms Ok by (auto simp: report_def)
  next
    case (Err e)
    then show ?thesis by (auto simp: first_cert_def outcome_simps)
  qed
next
  case (Err e)
  then show ?thesis using assms(3) emit_line [OF assms(1)] by (auto simp: report_def chains_of_def)
qed (use assms in \<open>auto simp: report_def\<close>)


text \<open>The verification a run of the command stands for, and its chains.\<close>

definition checked :: "environment \<Rightarrow> options \<Rightarrow> identity list \<Rightarrow> certificate list list list \<Rightarrow> bool" where
  "checked env opts idents chs \<longleftrightarrow>
     (\<exists>buf sd roots vopts. ParseSignedData (dearmor env buf) = Ok sd \<and> verifyOpts env idents = Ok (roots, vopts) \<and>
        (if length (fileArgs opts) < 2
         then read_input env ''failed to open signature file'' ''failed to read signature'' opts = Ok buf \<and>
           snd (Verify (env_crypto env) (env_x509 env roots) vopts None sd) = Ok chs
         else open_file env (fileArgs opts ! 0) = Ok (Ok buf) \<and>
           (\<exists>message. read_message env (fileArgs opts ! 1) = Ok message \<and>
              snd (VerifyDetached (env_crypto env) (env_x509 env roots) message vopts None sd) = Ok chs)))"

lemma verified_text:
  assumes "status_on opts fd w" "fd \<noteq> 2"
    and "(if length (fileArgs opts) < 2 then verifyAttached addr env opts idents w
          else verifyDetached addr env opts idents w) = (w', r)"
  shows "if is_ok r then \<exists>chs cert. checked env opts idents chs \<and> first_cert chs = Ok cert \<and>
        text_on fd w' = text_on fd w @ good_lines env cert
    else text_on fd w' = text_on fd w \<or> text_on fd w' = text_on fd w @ status_line ERRSIG []"
proof -
  let ?goal = "if is_ok r then \<exists>chs cert. checked env opts idents chs \<and> first_cert chs = Ok cert \<and>
        text_on fd w' = text_on fd w @ good_lines env cert
    else text_on fd w' = text_on fd w \<or> text_on fd w' = text_on fd w @ status_line ERRSIG []"
  have reported: ?goal if r: "report addr env opts verified w = (w', r)"
    and c: "\<And>chs. verified = Ok chs \<Longrightarrow> checked env opts idents chs" for verified
    using report_text [OF assms(1,2) r] c by (auto simp: panics_iff)
  show ?thesis
  proof (cases "length (fileArgs opts) < 2")
    case True
    with assms(3) have "verifyAttached addr env opts idents w = (w', r)" by simp
    then show ?thesis unfolding verifyAttached_def
    proof (elim attempt_split)
      fix buf sd vo
      assume run: "read_input env ''failed to open signature file'' ''failed to read signature'' opts = Ok buf"
        "wrap ''failed to parse signature'' (ParseSignedData (dearmor env buf)) = Ok sd" "verifyOpts env idents = Ok vo"
        "(case vo of (roots, vopts) \<Rightarrow> report addr env opts
           (snd (Verify (env_crypto env) (env_x509 env roots) vopts None sd)) w) = (w', r)"
      then show ?goal
        using True by (cases vo; intro reported) (auto simp: outcome_simps checked_def)
    qed auto
  next
    case False
    with assms(3) have "verifyDetached addr env opts idents w = (w', r)" by simp
    then show ?thesis unfolding verifyDetached_def
    proof (elim attempt_split)
      fix f buf' buf sd m message vo
      assume run: "byte_at (fileArgs opts) 0 = Ok f"
        "wrap (''failed to open signature file ('' @ f @ '')'') (open_file env f) = Ok buf'"
        "wrap ''failed to read signature file'' buf' = Ok buf"
        "wrap ''failed to parse signature'' (ParseSignedData (dearmor env buf)) = Ok sd"
        "byte_at (fileArgs opts) 1 = Ok m" "wrap ''failed to read message file'' (read_message env m) = Ok message"
        "verifyOpts env idents = Ok vo"
        "(case vo of (roots, vopts) \<Rightarrow> report addr env opts
           (snd (VerifyDetached (env_crypto env) (env_x509 env roots) message vopts None sd)) w) = (w', r)"
      then show ?goal
        using False by (cases vo; intro reported) (auto simp: outcome_simps checked_def)
    qed auto
  qed
qed

text \<open>What has been verified is reported.\<close>

lemma report_verified:
  assumes "status_on opts fd w" "fd \<noteq> 2" "report addr env opts (Ok chs) w = (w', r)" "first_cert chs = Ok cert"
  shows "r = Ok () \<and> text_on fd w' = text_on fd w @ good_lines env cert"
  using report_text [OF assms(1-3)] assms(3,4) by (auto simp: report_def emitGoodSig_def Let_def panics_iff)

lemma checked_verified:
  assumes "status_on opts fd w" "fd \<noteq> 2" "checked env opts idents chs" "first_cert chs = Ok cert"
    and "(if length (fileArgs opts) < 2 then verifyAttached addr env opts idents w
          else verifyDetached addr env opts idents w) = (w', r)"
  shows "r = Ok () \<and> text_on fd w' = text_on fd w @ good_lines env cert"
proof -
  note reported = report_verified [OF assms(1,2) _ assms(4)]
  obtain buf sd roots vopts where c: "ParseSignedData (dearmor env buf) = Ok sd" "verifyOpts env idents = Ok (roots, vopts)"
    "if length (fileArgs opts) < 2
     then read_input env ''failed to open signature file'' ''failed to read signature'' opts = Ok buf \<and>
       snd (Verify (env_crypto env) (env_x509 env roots) vopts None sd) = Ok chs
     else open_file env (fileArgs opts ! 0) = Ok (Ok buf) \<and>
       (\<exists>message. read_message env (fileArgs opts ! 1) = Ok message \<and>
          snd (VerifyDetached (env_crypto env) (env_x509 env roots) message vopts None sd) = Ok chs)"
    using assms(3) unfolding checked_def by blast
  show ?thesis
  proof (cases "length (fileArgs opts) < 2")
    case True
    then have "report addr env opts (Ok chs) w = (w', r)"
      using assms(5) c by (simp add: verifyAttached_def)
    then show ?thesis by (rule reported)
  next
    case False
    then have "byte_at (fileArgs opts) 0 = Ok (fileArgs opts ! 0)" "byte_at (fileArgs opts) 1 = Ok (fileArgs opts ! 1)"
      by (auto simp: byte_at_def)
    with False have "report addr env opts (Ok chs) w = (w', r)"
      using assms(5) c by (auto simp: verifyDetached_def)
    then show ?thesis by (rule reported)
  qed
qed

text \<open>
  C6: What git reads. A run of the verification command succeeds exactly when the message, its input, has been
  verified and there is a certificate to name. Then GOODSIG, with the first certificate of the chains, and
  TRUST_FULLY follow NEWSIG, and that is all that is written to the status descriptor; otherwise it is
  NEWSIG and at most ERRSIG. BADSIG is never written.
\<close>

theorem commandVerify_status:
  assumes "commandVerify addr env opts idents init_world = (w, r)"
    and "statusFdOpt opts = int fd" "0 < fd" "fd \<noteq> 2"
  shows "(is_ok r \<longleftrightarrow> (\<exists>chs cert. checked env opts idents chs \<and> first_cert chs = Ok cert)) \<and>
    (\<forall>chs cert. checked env opts idents chs \<and> first_cert chs = Ok cert \<longrightarrow>
      text_on fd w = status_line NEWSIG [] @ good_lines env cert) \<and>
    (\<not> is_ok r \<longrightarrow> text_on fd w \<in> {status_line NEWSIG [], status_line NEWSIG [] @ status_line ERRSIG []})"
proof -
  note on = emit_line [OF status_on_init [OF assms(3,2)], where s = NEWSIG]
  have run: "(if length (fileArgs opts) < 2 then verifyAttached addr env opts idents (emit opts NEWSIG init_world)
      else verifyDetached addr env opts idents (emit opts NEWSIG init_world)) = (w, r)"
    using assms(1) by (auto simp: commandVerify_def Let_def)
  have good: "r = Ok () \<and> text_on fd w = status_line NEWSIG [] @ good_lines env cert"
    if "checked env opts idents chs" "first_cert chs = Ok cert" for chs cert
    using checked_verified [OF on(2) assms(4) that run] on(1) [of fd] by simp
  from verified_text [OF on(2) assms(4) run] on(1) [of fd] good show ?thesis by (auto split: if_splits)
qed

end
