(* ===== verification/Git_Round_Trip.thy ===== *)
theory Git_Round_Trip
  imports Commands_Spec
begin

text \<open>
  The program as git uses it: one run signs with a Key Vault identity, another verifies what it has
  written.  The theory composes the commands, the store, the package cms and the protocol.
\<close>

subsection \<open>From one run to another\<close>

text \<open>PEM text decodes to the block it was made from.\<close>

definition pem_law :: "environment \<Rightarrow> bool" where
  "pem_law env \<longleftrightarrow> (\<forall>bs. map_option fst (pem_decode env (bytes_of_string
     (pem_encode env \<lparr>pem_Type = ''SIGNED MESSAGE'', pem_Bytes = bs\<rparr>)))
     = Some \<lparr>pem_Type = ''SIGNED MESSAGE'', pem_Bytes = bs\<rparr>)"

text \<open>How git signs: to standard output, armored and detached, with the data on standard input.\<close>

definition git_signs :: "environment \<Rightarrow> options \<Rightarrow> identity list \<Rightarrow> identity \<Rightarrow> bytes \<Rightarrow> bool" where
  "git_signs env opts idents ident data \<longleftrightarrow>
     findUserIdentity (env_crypto env) opts idents = Ok (Some ident) \<and> stdin env = Ok data \<and>
     fileArgs opts = [] \<and> detachSignFlag opts \<and> armorFlag opts \<and> tsaOpt opts = [] \<and>
     (\<forall>text. stdout_write env text = (text, Ok ()))"

text \<open>How git verifies: a signature in a file, the message on standard input, the status on \<open>stdout\<close>.\<close>

definition verifying :: "string \<Rightarrow> string \<Rightarrow> bytes \<Rightarrow> environment \<Rightarrow> environment" where
  "verifying file text message env =
     env\<lparr>open_file := (open_file env)(file := Ok (Ok (bytes_of_string text))), stdin := Ok message\<rparr>"

lemma verifying_simps [simp]:
  "env_crypto (verifying file text message env) = env_crypto env"
  "env_x509 (verifying file text message env) = env_x509 env"
  "pem_decode (verifying file text message env) = pem_decode env"
  "stdin (verifying file text message env) = Ok message"
  "open_file (verifying file text message env) file = Ok (Ok (bytes_of_string text))"
  "verifyOpts (verifying file text message env) = verifyOpts env"
  "good_lines (verifying file text message env) = good_lines env"
  by (simp_all add: verifying_def verifyOpts_def good_lines_def fun_eq_iff cong: outcome.case_cong)

lemma commandSign_armored:
  assumes "git_signs env opts idents ident data" "Certificate ident = Ok cert" "Signer ident = Ok signer"
    and "CertificateChain ident = Ok chain" "certsForSignature opts chain = Ok certs"
    and "SignedData_Sign (env_crypto env) (now env) [cert] signer (cms_NewSignedData data) = (sd', Ok ())"
    and "SetCertificates certs (Detached sd') = (sd, Ok ())" "ToDER sd = Ok bs"
  defines "sig \<equiv> pem_encode env \<lparr>pem_Type = ''SIGNED MESSAGE'', pem_Bytes = bs\<rparr>"
  shows "commandSign env opts idents w = (write_fd 1 sig
      (emitSigCreated env opts cert True (emit opts BEGIN_SIGNING w)), Ok ())"
proof -
  have "make_signature env opts ident cert signer data = Ok bs"
    using assms by (simp add: make_signature_def git_signs_def Let_def)
  then show ?thesis
    using assms(1-3) by (simp add: commandSign_def git_signs_def read_input_def write_signature_def sig_def Let_def)
qed

lemma report_single:
  assumes "status_on opts 1 w"
  shows "case report addr env opts (if same then Ok [chain] else Err e) w of (w', r) \<Rightarrow>
    (case first_cert [chain] of
       Ok cert \<Rightarrow> r = (if same then Ok () else Err (Wrapped ''failed to verify signature'' e)) \<and>
         text_on 1 w' = text_on 1 w @ (if same then good_lines env cert else status_line ERRSIG [])
     | _ \<Rightarrow> True)"
proof (cases "report addr env opts (if same then Ok [chain] else Err e) w")
  case (Pair w' r)
  from report_text [OF assms _ this] Pair show ?thesis
    by (auto simp: report_def emitGoodSig_def panics_iff chains_of_def outcome_simps Let_def
        split: outcome.splits if_splits)
qed

text \<open>Verifying a text that was armored, from the message in it.\<close>

lemma commandVerify_parsed:
  assumes pem: "pem_law env" and opts': "fileArgs opts' = [file, ''-'']"
    and x: "verifyOpts env idents' = Ok (roots, vopts)"
    and parsed: "ParseSignedData bs = Ok parsed" "EncapContentInfo parsed = detached_eci"
  shows "commandVerify addr (verifying file (pem_encode env \<lparr>pem_Type = ''SIGNED MESSAGE'', pem_Bytes = bs\<rparr>) message env)
      opts' idents' w
    = report addr (verifying file (pem_encode env \<lparr>pem_Type = ''SIGNED MESSAGE'', pem_Bytes = bs\<rparr>) message env) opts'
        (snd (verify (env_crypto env) (env_x509 env roots) message vopts None parsed)) (emit opts' NEWSIG w)"
proof -
  let ?sig = "pem_encode env \<lparr>pem_Type = ''SIGNED MESSAGE'', pem_Bytes = bs\<rparr>"
  let ?env = "verifying file ?sig message env"
  have "map_option fst (pem_decode env (bytes_of_string ?sig)) = Some \<lparr>pem_Type = ''SIGNED MESSAGE'', pem_Bytes = bs\<rparr>"
    using pem unfolding pem_law_def by blast
  then have de: "dearmor ?env (bytes_of_string ?sig) = bs" by (auto simp: dearmor_def)
  have "rv_Bytes (EContent (EncapContentInfo parsed)) = None" by (simp add: parsed(2) detached_eci_def nil_raw_def)
  then have vd: "VerifyDetached (env_crypto env) (env_x509 env roots) message vopts None parsed
      = verify (env_crypto env) (env_x509 env roots) message vopts None parsed"
    by (simp add: VerifyDetached_def)
  have "verifyDetached addr ?env opts' idents' w = report addr ?env opts'
      (snd (verify (env_crypto env) (env_x509 env roots) message vopts None parsed)) w" for w
    using parsed(1) by (simp add: verifyDetached_def opts' byte_at_def de x vd read_message_def del: verifying_def)
  then show ?thesis by (simp add: commandVerify_def opts')
qed

lemma git_round_trip:
  assumes sign: "git_signs env opts idents ident data" "Certificate ident = Ok cert" "Signer ident = Ok signer"
      "CertificateChain ident = Ok chain" "certsForSignature opts chain = Ok certs"
    and m: "signable (env_crypto env) (now env) cert signer data" "small_message (env_crypto env) cert certs signer data"
    and x: "verifyOpts env idents' = Ok (roots, vopts)"
      "verifiable (env_crypto env) (env_x509 env roots) cert certs signer vopts [] ((cert # path) # paths)"
    and pem: "pem_law env"
    and opts': "fileArgs opts' = [file, ''-'']" "statusFdOpt opts' = 1"
  shows "\<exists>w sig. commandSign env opts idents init_world = (write_fd 1 sig w, Ok ()) \<and>
    (case commandVerify addr (verifying file sig message env) opts' idents' init_world of (w, r) \<Rightarrow>
       if hash_sum (env_crypto env) SHA256 message = hash_sum (env_crypto env) SHA256 data
       then r = Ok () \<and> text_on 1 w = status_line NEWSIG [] @ good_lines env cert
       else \<not> is_ok r \<and> text_on 1 w = status_line NEWSIG [] @ status_line ERRSIG [])"
proof -
  let ?c = "env_crypto env" and ?chain = "(cert # path) # paths"
  have "verifiable ?c (env_x509 env roots) cert certs signer vopts (elems None) ?chain" using x(2) by simp
  from detached_message [OF m(1) key_chain_single [OF m(1)] this m(2), of "[]"] obtain sd' sd bs parsed where
    s: "SignedData_Sign ?c (now env) [cert] signer (cms_NewSignedData data) = (sd', Ok ())"
      "SetCertificates certs (Detached sd') = (sd, Ok ())"
      "ToDER sd = Ok bs" "ParseSignedData (bs @ []) = Ok parsed" "EncapContentInfo parsed = detached_eci"
    and v: "\<And>message. verify ?c (env_x509 env roots) message vopts None parsed
      = (foldl AddCert (elems None) (der_order certs),
         if hash_sum ?c SHA256 message = hash_sum ?c SHA256 data then Ok [?chain]
         else Err (ErrorString ''invalid message digest''))" by metis
  let ?sig = "pem_encode env \<lparr>pem_Type = ''SIGNED MESSAGE'', pem_Bytes = bs\<rparr>"
  let ?env = "verifying file ?sig message env"
  have run: "commandVerify addr ?env opts' idents' init_world = report addr ?env opts'
      (if hash_sum ?c SHA256 message = hash_sum ?c SHA256 data then Ok [?chain]
       else Err (ErrorString ''invalid message digest'')) (emit opts' NEWSIG init_world)"
    using commandVerify_parsed [OF pem opts'(1) x(1) _ s(5)] s(4) by (simp add: v)
  have on: "status_on opts' 1 init_world" using opts' by (simp add: status_on_init)
  have first: "first_cert [?chain] = Ok cert" by (simp add: first_cert_def byte_at_def)
  have "commandSign env opts idents init_world = (write_fd 1 ?sig
      (emitSigCreated env opts cert True (emit opts BEGIN_SIGNING init_world)), Ok ())"
    by (rule commandSign_armored [OF sign s(1-3)])
  moreover have "case commandVerify addr ?env opts' idents' init_world of (w, r) \<Rightarrow>
       if hash_sum ?c SHA256 message = hash_sum ?c SHA256 data
       then r = Ok () \<and> text_on 1 w = status_line NEWSIG [] @ good_lines env cert
       else \<not> is_ok r \<and> text_on 1 w = status_line NEWSIG [] @ status_line ERRSIG []"
    using report_single [OF emit_line(2) [OF on, where s = NEWSIG], where addr = addr and env = ?env
        and same = "hash_sum ?c SHA256 message = hash_sum ?c SHA256 data" and chain = ?chain
        and e = "ErrorString ''invalid message digest''"]
      emit_line(1) [OF on, of 1 NEWSIG] run first
    by (auto split: prod.splits if_splits)
  ultimately show ?thesis by (intro exI conjI)
qed

text \<open>
  What the rest of the world has to provide: a SHA-256 of the right length, a vault that signs every
  digest with the private key of the certificate, and a PKI in which the certificate is trusted when the certificates of the message are at hand.
\<close>

definition sound_crypto :: "crypto \<Rightarrow> bool" where
  "sound_crypto c \<longleftrightarrow> Available c SHA256 \<and> (\<forall>d. length (hash_sum c SHA256 d) = 32)"

definition vault_signs :: "crypto \<Rightarrow> x509 \<Rightarrow> key_vault_signer \<Rightarrow> certificate \<Rightarrow> bool" where
  "vault_signs c x s cert \<longleftrightarrow>
     (\<forall>d. length d = 32 \<longrightarrow> (\<exists>sig. kv_client s (kv_keyName s) (kv_keyVersion s) RS256 d = Ok sig \<and>
        sig \<noteq> [] \<and> length sig < 2 ^ 28 \<and>
        (\<forall>m. hash_sum c SHA256 m = d \<longrightarrow> CheckSignature x cert SHA256WithRSA m sig = Ok ())))"

definition trusted :: "crypto \<Rightarrow> x509 \<Rightarrow> verify_options \<Rightarrow> certificate \<Rightarrow> certificate list \<Rightarrow> bool" where
  "trusted c x vopts cert certs \<longleftrightarrow>
     carried c cert certs \<and> PublicKeyAlgorithm cert = RSA \<and> is_ok (MarshalPKIXPublicKey c (PublicKey cert)) \<and>
     (\<exists>path paths. Verify_certificate x cert vopts (foldl AddCert [] (der_order certs)) = Ok ((cert # path) # paths))"

lemma kv_Sign_vault:
  assumes "vault_signs c x s cert"
  shows "length d = 32 \<Longrightarrow> is_ok (Sign_digest (kv_signer s) d SHA256)"
    and "\<lbrakk>Sign_digest (kv_signer s) (hash_sum c SHA256 m) SHA256 = Ok sig; length (hash_sum c SHA256 m) = 32\<rbrakk>
      \<Longrightarrow> length sig < 2 ^ 28 \<and> CheckSignature x cert SHA256WithRSA m sig = Ok ()"
  using assms unfolding vault_signs_def
  by (fastforce simp: kv_signer_def kv_Sign_def outcome_simps split: if_splits)+

lemma kms_ready:
  assumes "NewIdentity az cfg = Some (Ok i)" "az_Certs i = cert # rest" "sound_crypto c"
    and "vault_signs c x (az_Signer i) cert" "trusted c x vopts cert certs" "utc_now t"
    and "length (serial_id cert) + length (concat (map Raw certs)) + length data < 2 ^ 29"
  shows "signable c t cert (kv_signer (az_Signer i)) data"
    and "small_message c cert certs (kv_signer (az_Signer i)) data"
    and "\<exists>path paths. verifiable c x cert certs (kv_signer (az_Signer i)) vopts [] ((cert # path) # paths)"
proof -
  have key: "Public (kv_signer (az_Signer i)) = PublicKey cert"
    using assms(1,2) by (auto elim!: NewIdentity_Ok simp: kv_signer_def kv_Public_def)
  note vault = kv_Sign_vault [OF assms(4)]
  have len: "length (hash_sum c SHA256 m) = 32" for m using assms(3) by (simp add: sound_crypto_def)
  have cert: "wf_certificate cert" "der_certificate cert" "PublicKeyAlgorithm cert = RSA"
    using assms(5) carried_der(1) [of c cert certs] by (simp_all add: trusted_def der_certificate_def)
  show "signable c t cert (kv_signer (az_Signer i)) data"
    using assms(3,5-7) key vault(1) cert by (simp add: signable_def sound_crypto_def trusted_def)
  show "small_message c cert certs (kv_signer (az_Signer i)) data"
    using assms(7) vault(2) [OF _ len] by (simp add: small_message_def)
  show "\<exists>path paths. verifiable c x cert certs (kv_signer (az_Signer i)) vopts [] ((cert # path) # paths)"
    using assms(5) vault(2) [OF _ len] cert(3)
    by (auto simp: verifiable_def trusted_def signature_algorithm_of_def)
qed

text \<open>
  C1: The program does its job. A commit signed with a Key Vault identity, as git calls the program, with
  whatever certificates the options ask for as long as the signer's is among them, is written as one
  armored text after the status lines, and the program, called to verify that text
  with the same data, succeeds and reports a good signature by the certificate of the vault's key;
  with data of another digest it fails and reports ERRSIG.
\<close>

theorem kms_sign_then_verify:
  assumes "NewIdentity az cfg = Some (Ok i)" "az_Certs i = cert # rest"
    and "git_signs env opts [kmsIdentity i] (kmsIdentity i) data" "certsForSignature opts (cert # rest) = Ok certs"
    and "sound_crypto (env_crypto env)" "utc_now (now env)" "pem_law env"
    and "length (serial_id cert) + length (concat (map Raw certs)) + length data < 2 ^ 29"
    and "verifyOpts env idents' = Ok (roots, vopts)"
    and "vault_signs (env_crypto env) (env_x509 env roots) (az_Signer i) cert"
    and "trusted (env_crypto env) (env_x509 env roots) vopts cert certs"
    and "fileArgs opts' = [file, ''-'']" "statusFdOpt opts' = 1"
  shows "\<exists>w sig. commandSign env opts [kmsIdentity i] init_world = (write_fd 1 sig w, Ok ()) \<and>
    (case commandVerify addr (verifying file sig message env) opts' idents' init_world of (w, r) \<Rightarrow>
       if hash_sum (env_crypto env) SHA256 message = hash_sum (env_crypto env) SHA256 data
       then r = Ok () \<and> text_on 1 w = status_line NEWSIG [] @ good_lines env cert
       else \<not> is_ok r \<and> text_on 1 w = status_line NEWSIG [] @ status_line ERRSIG [])"
proof -
  note ready = kms_ready [OF assms(1,2,5,10,11,6,8)]
  obtain path paths where v: "verifiable (env_crypto env) (env_x509 env roots) cert certs (kv_signer (az_Signer i)) vopts []
      ((cert # path) # paths)" using ready(3) by blast
  have ident: "Certificate (kmsIdentity i) = Ok cert" "Signer (kmsIdentity i) = Ok (kv_signer (az_Signer i))"
    "CertificateChain (kmsIdentity i) = Ok (cert # rest)"
    using assms(2) by (simp_all add: kmsIdentity_def az_Leaf_def az_Chain_def byte_at_def)
  from git_round_trip [OF assms(3) ident assms(4) ready(1,2) assms(9) v assms(7,12,13)] show ?thesis .
qed

text \<open>
  C17: A self-signed certificate needs the policy -1, as docs/kmssign.md says: under the default policy, -2,
  the signature is written all the same, but it holds no certificate, and verifying it fails with
  ERRSIG, for the signed data as for any other and even though the certificate is trusted.
\<close>

theorem kms_self_signed_default:
  assumes "NewIdentity az cfg = Some (Ok i)" "az_Certs i = [cert]" "RawIssuer cert = RawSubject cert"
    and "git_signs env opts [kmsIdentity i] (kmsIdentity i) data" "includeCertsOpt opts = - 2"
    and "sound_crypto (env_crypto env)" "utc_now (now env)" "pem_law env"
    and "length (serial_id cert) + length (concat (map Raw [cert])) + length data < 2 ^ 29"
    and "verifyOpts env idents' = Ok (roots, vopts)"
    and "vault_signs (env_crypto env) (env_x509 env roots) (az_Signer i) cert"
    and "trusted (env_crypto env) (env_x509 env roots) vopts cert [cert]"
    and "fileArgs opts' = [file, ''-'']" "statusFdOpt opts' = 1"
  shows "\<exists>w sig. commandSign env opts [kmsIdentity i] init_world = (write_fd 1 sig w, Ok ()) \<and>
    (case commandVerify addr (verifying file sig message env) opts' idents' init_world of (w, r) \<Rightarrow>
       \<not> is_ok r \<and> text_on 1 w = status_line NEWSIG [] @ status_line ERRSIG [])"
proof -
  let ?c = "env_crypto env" and ?signer = "kv_signer (az_Signer i)"
  note ready = kms_ready [OF assms(1,2,6,11,12,7,9)]
  have small: "small_message ?c cert [] ?signer data" using ready(2) by (simp add: small_message_def)
  have cert: "der_certificate cert" using assms(12) by (simp add: trusted_def carried_def)
  have ident: "Certificate (kmsIdentity i) = Ok cert" "Signer (kmsIdentity i) = Ok ?signer"
    "CertificateChain (kmsIdentity i) = Ok [cert]"
    using assms(2) by (simp_all add: kmsIdentity_def az_Leaf_def az_Chain_def byte_at_def)
  have certs: "certsForSignature opts [cert] = Ok []"
    using assms(3,5) by (simp add: certsForSignature_def chainWithoutRoot_def subslice_def)
  have none: "\<forall>x \<in> set []. der_certificate x" "addable [] None" by (simp_all add: addable_def)
  obtain time sm sig sd' sd bs where
    s: "SignedData_Sign ?c (now env) [cert] ?signer (cms_NewSignedData data) = (sd', Ok ())"
      "SetCertificates [] (Detached sd') = (sd, Ok ())" "ToDER sd = Ok bs"
      "ParseSignedData (bs @ []) = Ok (signed_data (der_order []) detached_eci
         (signer_info cert time (hash_sum ?c SHA256 data) (signature_oid cert) sig))"
      "MarshaledForVerification (Some (signed_attributes time (hash_sum ?c SHA256 data))) = Ok sm"
      "Available ?c SHA256" "length (hash_sum ?c SHA256 data) = 32"
    by (rule detached_written [OF ready(1) key_chain_single [OF ready(1)] small cert none, of "[]"])
  let ?text = "pem_encode env \<lparr>pem_Type = ''SIGNED MESSAGE'', pem_Bytes = bs\<rparr>"
  let ?env = "verifying file ?text message env"
  have "wf_certificate cert" using cert by (simp add: der_certificate_def)
  from verify_no_certificates [OF this s(6,7,5)] obtain e where
    e: "snd (verify ?c (env_x509 env roots) message vopts None (signed_data [] detached_eci
         (signer_info cert time (hash_sum ?c SHA256 data) (signature_oid cert) sig))) = Err e" by (metis snd_conv)
  have parse: "ParseSignedData bs = Ok (signed_data [] detached_eci
      (signer_info cert time (hash_sum ?c SHA256 data) (signature_oid cert) sig))"
    using s(4) by (simp add: der_order_def)
  have run: "commandVerify addr ?env opts' idents' init_world = report addr ?env opts' (Err e) (emit opts' NEWSIG init_world)"
    using commandVerify_parsed [OF assms(8,13,10) parse] e by (simp add: signed_data_def)
  have on: "status_on opts' 1 init_world" using assms(14) by (simp add: status_on_init)
  have "commandSign env opts [kmsIdentity i] init_world = (write_fd 1 ?text
      (emitSigCreated env opts cert True (emit opts BEGIN_SIGNING init_world)), Ok ())"
    by (rule commandSign_armored [OF assms(4) ident certs s(1-3)])
  moreover have "case commandVerify addr ?env opts' idents' init_world of (w, r) \<Rightarrow>
      \<not> is_ok r \<and> text_on 1 w = status_line NEWSIG [] @ status_line ERRSIG []"
    using report_text [OF emit_line(2) [OF on, where s = NEWSIG], of addr ?env "Err e"] emit_line(1) [OF on, of 1 NEWSIG] run
    by (cases "report addr ?env opts' (Err e) (emit opts' NEWSIG init_world)") (auto simp: report_def chains_of_def)
  ultimately show ?thesis by (intro exI conjI)
qed

subsection \<open>An example world\<close>

definition example_rsa :: certificate where
  "example_rsa = example_certificate\<lparr>PublicKeyAlgorithm := RSA, PublicKey := RSAPublicKey [3]\<rparr>"

definition example_vault :: crypto where
  "example_vault = example_pki\<lparr>ParseCertificate := (\<lambda>_. Ok example_rsa)\<rparr>"

definition example_verifier :: x509 where
  "example_verifier =
     \<lparr>CheckSignature = (\<lambda>cert algo m s. if s = 9 # hash_sum example_vault SHA256 m then Ok ()
        else Err (ErrorString ''verification failure'')),
      Verify_certificate = (\<lambda>cert opts pool. Ok [[cert]])\<rparr>"

definition example_az :: azure where
  "example_az = \<lparr>ReadFile = (\<lambda>_. Ok [0]), pem_Decode = example_pem, az_crypto = example_vault,
     NewDefaultAzureCredential = Ok 0, NewClient = (\<lambda>_ _. Ok (\<lambda>_ _ _ digest. Ok (9 # digest)))\<rparr>"

definition example_config :: config where
  "example_config = \<lparr>VaultURL = ''https://v/'', KeyName = ''k'', KeyVersion = [], CertPath = ''c.pem''\<rparr>"

definition example_kms :: azure_identity where
  "example_kms = \<lparr>az_Signer = \<lparr>kv_client = (\<lambda>_ _ _ digest. Ok (9 # digest)), kv_keyName = ''k'',
       kv_keyVersion = [], kv_pub = [3]\<rparr>, az_Certs = [example_rsa]\<rparr>"

definition example_environment :: environment where
  "example_environment =
     \<lparr>getenv = (\<lambda>_. []), env_azure = example_az, env_crypto = example_vault, env_x509 = (\<lambda>_. example_verifier),
      open_file = (\<lambda>_. Err (ErrorString ''no such file'')), stdin = Ok [104, 105],
      stdout_write = (\<lambda>s. (s, Ok ())), pem_encode = (\<lambda>b. string_of_bytes (pem_Bytes b)),
      pem_decode = (\<lambda>bs. Some (\<lparr>pem_Type = ''SIGNED MESSAGE'', pem_Bytes = bs\<rparr>, [])),
      now = example_now, unix_now = 1700000000, env_random = (\<lambda>_. Ok []),
      env_http = (\<lambda>_ _ _. Err (ErrorString ''offline'')), SystemCertPool = Ok [], CACerts = Ok [],
      PubKeyAlgoRSA = 1, PubKeyAlgoECDSA = 19, HashToHashId = (\<lambda>_. 8), Subject_String = (\<lambda>_. ''CN=A''),
      Subject_RDNs = (\<lambda>_. ''CN=A''), Issuer_RDNs = (\<lambda>_. ''CN=A''), algorithm_String = (\<lambda>_. ''SHA256-RSA''),
      time_String = (\<lambda>_. ''1970''), error_String = (\<lambda>_. ''error''), versionString = ''undefined'', Usage = []\<rparr>"

definition example_verify_options :: options where
  "example_verify_options = example_options'\<lparr>signFlag := False, verifyFlag := True, detachSignFlag := False,
     armorFlag := False, localUserOpt := [], fileArgs := [''sig'', ''-'']\<rparr>"

lemma bytes_of_string_of_bytes [simp]: "bytes_of_string (string_of_bytes bs) = bs"
proof (induction bs)
  case (Cons b bs)
  have "of_char (char_of (unat b)) = unat b" using unat_byte_less [of b] by simp
  then have "octet (of_char (char_of (unat b))) = b" by (simp only: octet_def) simp
  then show ?case using Cons by (simp add: bytes_of_string_def string_of_bytes_def del: of_char_of)
qed (simp add: bytes_of_string_def string_of_bytes_def)

lemma example_world:
  "NewIdentity example_az example_config = Some (Ok example_kms)"
  "git_signs example_environment example_options' [kmsIdentity example_kms] (kmsIdentity example_kms) [104, 105]"
  "certsForSignature example_options' [example_rsa] = Ok [example_rsa]"
  "sound_crypto example_vault" "utc_now example_now" "pem_law example_environment"
  "length (serial_id example_rsa) + length (concat (map Raw [example_rsa])) + length [104, 105 :: byte] < 2 ^ 29"
  "verifyOpts example_environment [] = Ok ([], \<lparr>CurrentTime = 0, KeyUsages = [ExtKeyUsageAny]\<rparr>)"
  "vault_signs example_vault example_verifier (az_Signer example_kms) example_rsa"
  "trusted example_vault example_verifier vopts example_rsa [example_rsa]"
proof -
  have "load_loop example_pem (\<lambda>_. Ok example_rsa) [] [0] = Some (Ok [example_rsa])"
    by (simp add: load_loop.simps example_pem_def)
  then show "NewIdentity example_az example_config = Some (Ok example_kms)"
    by (simp add: NewIdentity_def LoadCertificates_def example_az_def example_config_def example_kms_def
        example_vault_def example_rsa_def NewSigner_def byte_at_def)
  have "find_identity ok [kmsIdentity example_kms] = Ok (if ok example_rsa then Some (kmsIdentity example_kms) else None)" for ok
    by (simp add: kmsIdentity_def az_Leaf_def example_kms_def byte_at_def)
  then show "git_signs example_environment example_options' [kmsIdentity example_kms] (kmsIdentity example_kms) [104, 105]"
    using example_email by (simp add: git_signs_def findUserIdentity_def example_options'_def example_environment_def
        normalizeEmail_user certHasEmail_def certEmails_def example_rsa_def example_certificate_def)
  show "certsForSignature example_options' [example_rsa] = Ok [example_rsa]"
    by (simp add: certsForSignature_def example_options'_def)
  show "sound_crypto example_vault" "utc_now example_now"
    using example_signing(1) by (simp_all add: sound_crypto_def signable_def example_vault_def example_pki_def example_crypto_def)
  show "pem_law example_environment" by (simp add: pem_law_def example_environment_def)
  show "length (serial_id example_rsa) + length (concat (map Raw [example_rsa])) + length [104, 105 :: byte] < 2 ^ 29"
    using example_signing(3) by (simp add: small_message_def serial_id_def example_rsa_def)
  show "verifyOpts example_environment [] = Ok ([], \<lparr>CurrentTime = 0, KeyUsages = [ExtKeyUsageAny]\<rparr>)"
    by (simp add: verifyOpts_def example_environment_def)
  show "vault_signs example_vault example_verifier (az_Signer example_kms) example_rsa"
    by (auto simp: vault_signs_def example_kms_def example_verifier_def)
  have "der_certificate example_certificate"
    using example_signing(2) carried_der(1) by (auto simp: verifiable_def)
  then have "der_certificate example_rsa"
    by (simp add: example_rsa_def der_certificate_def wf_certificate_def)
  then have "carried example_vault example_rsa [example_rsa]"
    by (intro carried_single) (simp_all add: example_vault_def)
  then show "trusted example_vault example_verifier vopts example_rsa [example_rsa]"
    by (simp add: trusted_def example_rsa_def example_vault_def example_pki_def example_crypto_def example_verifier_def)
qed

lemma example_world_parts:
  shows "env_crypto example_environment = example_vault" "now example_environment = example_now"
    "env_x509 example_environment [] = example_verifier" "az_Certs example_kms = [example_rsa]"
    "fileArgs example_verify_options = [''sig'', ''-'']" "statusFdOpt example_verify_options = 1"
  by (simp_all add: example_environment_def example_kms_def example_verify_options_def example_options'_def)

lemma findUserIdentity_policy:
  "findUserIdentity c (opts\<lparr>includeCertsOpt := n\<rparr>) idents = findUserIdentity c opts idents"
  by (cases opts) (simp only: findUserIdentity_def options.simps)

theorem kms_sign_then_verify_witness:
  "\<exists>w sig. commandSign example_environment example_options' [kmsIdentity example_kms] init_world
      = (write_fd 1 sig w, Ok ()) \<and>
    snd (commandVerify [] (verifying ''sig'' sig [104, 105] example_environment) example_verify_options [] init_world)
      = Ok ()"
proof -
  note e = example_world_parts
  show ?thesis
    using kms_sign_then_verify [where addr = "[]" and message = "[104, 105]", OF example_world(1) e(4) example_world(2,3), unfolded e(1-3), OF example_world(4-8),
        unfolded e(3), OF example_world(9,10) e(5,6)]
    unfolding case_prod_beta by (simp only: refl if_True) blast
qed

theorem kms_self_signed_default_witness:
  "\<exists>w sig. commandSign example_environment (example_options'\<lparr>includeCertsOpt := - 2\<rparr>) [kmsIdentity example_kms] init_world
      = (write_fd 1 sig w, Ok ()) \<and>
    \<not> is_ok (snd (commandVerify [] (verifying ''sig'' sig [104, 105] example_environment) example_verify_options [] init_world))"
proof -
  note e = example_world_parts
  have signs: "git_signs example_environment (example_options'\<lparr>includeCertsOpt := - 2\<rparr>) [kmsIdentity example_kms]
      (kmsIdentity example_kms) [104, 105]"
    using example_world(2) by (simp add: git_signs_def findUserIdentity_policy)
  have self: "RawIssuer example_rsa = RawSubject example_rsa" by (simp add: example_rsa_def example_certificate_def)
  have policy: "includeCertsOpt (example_options'\<lparr>includeCertsOpt := - 2\<rparr>) = - 2" by simp
  show ?thesis
    using kms_self_signed_default [where addr = "[]" and message = "[104, 105]", OF example_world(1) e(4) self signs policy,
        unfolded e(1-3), OF example_world(4-8), unfolded e(3), OF example_world(9,10) e(5,6)]
    unfolding case_prod_beta by blast
qed

text \<open>A signature that the example world accepts.\<close>

lemma example_run_verified:
  "\<exists>sig. snd (commandVerify [] (verifying ''sig'' sig [104, 105] example_environment) example_verify_options [] init_world)
     = Ok ()"
proof -
  note e = example_world_parts
  let ?E = example_environment and ?signer = "kv_signer (az_Signer example_kms)"
  let ?opts = "\<lparr>CurrentTime = 0, KeyUsages = [ExtKeyUsageAny]\<rparr>"
  note ready = kms_ready [OF example_world(1) e(4) example_world(4,9,10,5,7)]
  have m: "signable (env_crypto ?E) (now ?E) example_rsa ?signer [104, 105]"
    "small_message (env_crypto ?E) example_rsa [example_rsa] ?signer [104, 105]"
    unfolding e(1,2) by (rule ready(1), rule ready(2))
  obtain path paths where v: "verifiable (env_crypto ?E) (env_x509 ?E []) example_rsa [example_rsa] ?signer ?opts []
      ((example_rsa # path) # paths)" using ready(3) unfolding e(1,3) by blast
  have ident: "Certificate (kmsIdentity example_kms) = Ok example_rsa" "Signer (kmsIdentity example_kms) = Ok ?signer"
    "CertificateChain (kmsIdentity example_kms) = Ok [example_rsa]"
    using e(4) by (simp_all add: kmsIdentity_def az_Leaf_def az_Chain_def byte_at_def)
  from git_round_trip [where addr = "[]" and message = "[104, 105]",
      OF example_world(2) ident example_world(3) m example_world(8) v example_world(6) e(5,6)]
  show ?thesis unfolding case_prod_beta by (simp only: refl if_True) blast
qed

theorem commandVerify_status_witness:
  "(\<exists>sig chs cert. let env = verifying ''sig'' sig [104, 105] example_environment;
       (w, r) = commandVerify [] env example_verify_options [] init_world in
     is_ok r \<and> checked env example_verify_options [] chs \<and> first_cert chs = Ok cert \<and>
     text_on 1 w = status_line NEWSIG [] @ good_lines env cert) \<and>
   (let (w, r) = commandVerify [] example_environment example_verify_options [] init_world in
     \<not> is_ok r \<and> text_on 1 w \<in> {status_line NEWSIG [], status_line NEWSIG [] @ status_line ERRSIG []})"
proof -
  have fd: "statusFdOpt example_verify_options = int 1"
    by (simp add: example_verify_options_def example_options'_def)
  note status = commandVerify_status [OF prod.collapse [symmetric] fd]
  obtain sig where ok: "snd (commandVerify [] (verifying ''sig'' sig [104, 105] example_environment)
      example_verify_options [] init_world) = Ok ()" using example_run_verified by blast
  let ?env = "verifying ''sig'' sig [104, 105] example_environment"
  have "is_ok (snd (commandVerify [] ?env example_verify_options [] init_world))" unfolding ok by simp
  moreover from this status [of "[]" ?env "[]"] obtain chs cert where
    "checked ?env example_verify_options [] chs" "first_cert chs = Ok cert"
    "text_on 1 (fst (commandVerify [] ?env example_verify_options [] init_world)) = status_line NEWSIG [] @ good_lines ?env cert"
    by auto
  moreover have "\<not> is_ok (snd (commandVerify [] example_environment example_verify_options [] init_world))"
    by (auto simp: commandVerify_def verifyDetached_def example_verify_options_def byte_at_def
        example_environment_def Let_def)
  moreover from this status [of "[]" example_environment "[]"]
  have "text_on 1 (fst (commandVerify [] example_environment example_verify_options [] init_world))
      \<in> {status_line NEWSIG [], status_line NEWSIG [] @ status_line ERRSIG []}" by simp
  ultimately show ?thesis unfolding Let_def case_prod_beta by blast
qed

subsection \<open>Runs that cannot succeed\<close>

text \<open>
  C38: Without the three variables that configure the vault no command runs, verification and the listing
  of keys included: the error comes from the store, before the command line is looked at.
\<close>

theorem runCommand_needs_configuration:
  assumes "\<not> helpFlag opts" "\<not> versionFlag opts" "include_certs env opts = Ok opts'"
    and "getenv env EnvVaultURL = [] \<or> getenv env EnvKeyName = [] \<or> getenv env EnvCertPath = []"
  shows "\<exists>e. runCommand addr env opts w =
    Some (w, Err (Wrapped ''failed to get identities from certificate store'' e))"
proof -
  obtain e where "LoadConfig (getenv env) = Err e" using assms(4) by (auto simp: LoadConfig_def)
  then show ?thesis using assms(1-3) by (simp add: runCommand_def openStore_def kmsStore_Identities_def)
qed

theorem runCommand_needs_configuration_witness:
  "\<exists>e. runCommand [] example_environment example_verify_options init_world =
    Some (init_world, Err (Wrapped ''failed to get identities from certificate store'' e))"
  using runCommand_needs_configuration [of example_verify_options example_environment example_verify_options "[]" init_world]
  by (simp add: example_verify_options_def example_options'_def example_environment_def include_certs_def)

subsection \<open>Trusted roots\<close>

lemma AddCert_Raw: "Raw ` set (AddCert pool cert) = insert (Raw cert) (Raw ` set pool)"
  by (auto simp: AddCert_def list_ex_iff) (metis imageI)

lemma add_identities_Raw:
  assumes "add_identities roots idents = Ok roots'"
  shows "Raw ` set roots' = Raw ` set roots \<union> {Raw cert | cert ident. ident \<in> set idents \<and> Certificate ident = Ok cert}"
  using assms
proof (induction idents arbitrary: roots)
  case (Cons ident idents)
  then show ?case by (cases "Certificate ident") (auto simp: AddCert_Raw)
qed auto

text \<open>
  Verification trusts the certificates of the configured identities as roots, beside those of the
  system: a signature made with the program's own certificate is trusted even when nobody issued it.
\<close>

theorem verifyOpts_trusts_identities:
  assumes "verifyOpts env idents = Ok (roots, vopts)" "SystemCertPool env = Ok system"
  shows "Raw ` set roots = Raw ` set system \<union> {Raw cert | cert ident. ident \<in> set idents \<and> Certificate ident = Ok cert}"
  using assms add_identities_Raw by (fastforce simp: verifyOpts_def outcome_simps)

theorem verifyOpts_trusts_identities_witness:
  "\<exists>roots. verifyOpts example_environment [kmsIdentity example_kms]
      = Ok (roots, \<lparr>CurrentTime = 0, KeyUsages = [ExtKeyUsageAny]\<rparr>) \<and> Raw ` set roots = {Raw example_rsa}"
proof -
  have i: "Certificate (kmsIdentity example_kms) = Ok example_rsa"
    by (simp add: kmsIdentity_def az_Leaf_def example_kms_def byte_at_def)
  have v: "verifyOpts example_environment [kmsIdentity example_kms]
      = Ok ([example_rsa], \<lparr>CurrentTime = 0, KeyUsages = [ExtKeyUsageAny]\<rparr>)"
    by (simp add: verifyOpts_def example_environment_def i AddCert_def)
  have "SystemCertPool example_environment = Ok []" by (simp add: example_environment_def)
  from verifyOpts_trusts_identities [OF v this] show ?thesis using v i by auto
qed

end
