(* ===== verification/Parsed_Message.thy ===== *)
theory Parsed_Message
  imports Sign_Verify
begin

text \<open>
  What every message that the parser accepts has in common: its object identifiers can be written, its
  raw values are the elements they were read from, and all of it is DER.  So a parsed message, as
  \<open>AddTimestamps\<close> and \<open>SetCertificates\<close> get it, can be serialized, and comes back the same.
\<close>

subsection \<open>DER as an invariant of the input\<close>

definition der_input :: "bytes \<Rightarrow> bool" where
  "der_input bs \<longleftrightarrow> ders bs \<and> length bs < 2 ^ 31"

definition der_raw :: "raw_value \<Rightarrow> bool" where
  "der_raw rv \<longleftrightarrow> is_der (marshal_raw rv) \<and> (rv_IsCompound rv \<longrightarrow> der_input (elems (rv_Bytes rv)))"

lemma der_of_tree:
  assumes "wf_object obj" "length (der obj) < 2 ^ 63" "wf_tlv c t body" "der obj @ post = tlv c t k body @ rest"
  shows "der_raw (raw_of c t k body)"
proof -
  have "is_der (tlv c t k body)"
    using assms(1) subtree_tlv(1) [OF assms] unfolding is_der_def by metis
  moreover have "ders body" if k
    using subtree_tlv(3) [OF assms] that
  proof (elim disjE exE conjE)
    fix tag content
    assume "obj = asn1Structured tag content" "body = concat (map der content)"
    then show "ders body" using assms(1) unfolding ders_def by (intro exI [of _ content]) simp
  qed simp
  ultimately show ?thesis using assms(3) by (simp add: der_raw_def der_input_def wf_tlv_def)
qed

interpretation canonical: input_invariant der_input der_raw
proof unfold_locales
  fix c t k body rest
  assume bs: "der_input (tlv c t k body @ rest)" and wf: "wf_tlv c t body"
  then obtain objs where objs: "\<forall>obj \<in> set objs. wf_object obj" "tlv c t k body @ rest = concat (map der objs)"
    by (auto simp: der_input_def ders_def)
  then obtain obj post where o: "objs = obj # post" by (cases objs) auto
  have eq: "der obj @ concat (map der post) = tlv c t k body @ rest" using objs(2) o by simp
  have len: "length (tlv c t k body @ rest) < 2 ^ 31" using bs by (simp add: der_input_def)
  then have "length (der obj @ concat (map der post)) < 2 ^ 31" unfolding eq .
  then have short: "length (der obj) < 2 ^ 63" by simp
  have obj: "wf_object obj" using objs(1) o by simp
  have "concat (map der post) = rest" by (rule subtree_tlv(2) [OF obj short wf eq])
  then have "ders rest" using objs(1) o unfolding ders_def by (intro exI [of _ post]) simp
  then show "der_raw (raw_of c t k body) \<and> der_input rest"
    using der_of_tree [OF obj short wf eq] len by (simp add: der_input_def)
next
  fix c t body
  assume "der_raw (raw_of c t True body)"
  then show "der_input body" by (simp add: der_raw_def)
qed

subsection \<open>What is read\<close>

definition read_raw :: "raw_value \<Rightarrow> bool" where
  "read_raw rv \<longleftrightarrow> decoded_raw rv \<and> is_der (marshal_raw rv)"

definition read_opt :: "raw_value \<Rightarrow> bool" where
  "read_opt rv \<longleftrightarrow> rv = nil_raw \<or> read_raw rv"

definition read_algorithm :: "AlgorithmIdentifier \<Rightarrow> bool" where
  "read_algorithm a \<longleftrightarrow> wf_oid (Algorithm a) \<and> read_opt (Parameters a)"

definition read_attribute :: "Attribute \<Rightarrow> bool" where
  "read_attribute a \<longleftrightarrow> wf_oid (attr_Type a) \<and> read_raw (attr_RawValue a)"

definition read_signer :: "SignerInfo \<Rightarrow> bool" where
  "read_signer si \<longleftrightarrow> length (int_octets (Version si)) \<le> 8 \<and> read_raw (SID si) \<and>
     read_algorithm (DigestAlgorithm si) \<and> (\<forall>a \<in> set (elems (SignedAttrs si)). read_attribute a) \<and>
     read_algorithm (SignatureAlgorithm si) \<and> (\<forall>a \<in> set (elems (UnsignedAttrs si)). read_attribute a)"

text \<open>The content is wrapped in an explicit \<open>[0]\<close>, which \<open>encoding/asn1\<close> does not ask to be constructed when it is empty.\<close>

definition explicit_wrapper :: "raw_value \<Rightarrow> bool" where
  "explicit_wrapper rv \<longleftrightarrow> (\<exists>k body. rv = raw_of 2 0 k body \<and> (k \<or> body = []) \<and> length body < 2 ^ 31)"

definition read_content :: "EncapsulatedContentInfo \<Rightarrow> bool" where
  "read_content e \<longleftrightarrow> wf_oid (EContentType e) \<and> read_opt (EContent e) \<and>
     (EContent e = nil_raw \<or> explicit_wrapper (EContent e))"

definition read_signed_data :: "SignedData \<Rightarrow> bool" where
  "read_signed_data sd \<longleftrightarrow> length (int_octets (sd_Version sd)) \<le> 8 \<and>
     (\<forall>a \<in> set (DigestAlgorithms sd). read_algorithm a) \<and> read_content (EncapContentInfo sd) \<and>
     (\<forall>rv \<in> set (elems (Certificates sd)). read_raw rv) \<and> (\<forall>rv \<in> set (elems (CRLs sd)). read_raw rv) \<and>
     (\<forall>si \<in> set (SignerInfos sd). read_signer si)"

lemmas read_defs = read_algorithm_def read_attribute_def read_signer_def read_content_def read_signed_data_def

subsection \<open>The parsers\<close>

text \<open>An integer is written in as many octets as it was read from.\<close>

lemma length_int_octets_value: "bs \<noteq> [] \<Longrightarrow> length (int_octets (int_value bs)) \<le> length bs"
proof (induction bs rule: rev_induct)
  case (snoc b bs)
  show ?case
  proof (cases "bs = []")
    case True
    have "-128 \<le> uint b" by (rule order_trans [of _ 0]) simp_all
    moreover have "uint b < 256" using uint_bounded [of b] by simp
    ultimately have "-128 \<le> int_value [b]" "int_value [b] \<le> 127" by (auto simp: int_value_def)
    then show ?thesis using True by (simp add: int_octets_small)
  next
    case False
    let ?i = "int_value (bs @ [b])"
    have "uint b < 256" using uint_bounded [of b] by simp
    then have "?i div 256 = int_value bs" using False by (simp add: int_value_snoc)
    then show ?thesis
      using snoc.IH False int_octets_small [of ?i] int_octets_large [of ?i]
      by (cases "-128 \<le> ?i \<and> ?i \<le> 127") auto
  qed
qed simp

lemma reads_oid: "reads der_input wf_oid (oid_field plain)"
  by (rule canonical.reads_field) (auto simp: contents_def dest: parseObjectIdentifier_canonical(2))

lemma reads_int: "reads der_input (\<lambda>i. length (int_octets i) \<le> 8) (int_field plain)"
proof (rule canonical.reads_field)
  fix c t cpd body i
  assume "contents parseInt64 (raw_of c t cpd body) = Ok i"
  then have "body \<noteq> []" "length body \<le> 8" "i = int_value body"
    by (auto simp: contents_def parseInt64_def checkInteger_def outcome_simps split: if_splits)
  then show "length (int_octets i) \<le> 8" using length_int_octets_value [of body] by simp
qed simp_all

lemma reads_plain_raw: "reads der_input read_raw (raw_field plain)"
  by (rule canonical.reads_raw) (auto simp: read_raw_def der_raw_def decoded_raw_raw_of)

lemma reads_opt_raw: "reads der_input read_opt (raw_field p)"
  by (rule canonical.reads_raw) (auto simp: read_opt_def read_raw_def der_raw_def decoded_raw_raw_of)

lemma decodes_AlgorithmIdentifier: "decodes der_input read_algorithm parse_AlgorithmIdentifier"
  unfolding parse_AlgorithmIdentifier_def
  by (intro decodes_bind [OF reads_oid] decodes_bind [OF reads_opt_raw] decodes_return) (simp add: read_defs)

lemma decodes_read_Attribute: "decodes der_input read_attribute parse_Attribute"
  unfolding parse_Attribute_def
  by (intro decodes_bind [OF reads_oid] decodes_bind [OF reads_plain_raw] decodes_return) (simp add: read_defs)

lemma reads_read_attributes:
  "\<not> fp_explicit p \<Longrightarrow> reads der_input (\<lambda>as. \<forall>a \<in> set (elems as). read_attribute a) (attributes_field p)"
  unfolding attributes_field_def by (intro canonical.reads_slice canonical.reads_struct decodes_read_Attribute) simp_all

lemma reads_algorithm: "reads der_input read_algorithm (struct_field plain parse_AlgorithmIdentifier z)"
  by (intro canonical.reads_struct decodes_AlgorithmIdentifier) simp_all

lemma decodes_read_SignerInfo: "decodes der_input read_signer parse_SignerInfo"
  unfolding parse_SignerInfo_def
  by (intro decodes_bind [OF reads_int] decodes_bind [OF reads_plain_raw] decodes_bind [OF reads_algorithm]
      decodes_bind [OF reads_read_attributes] decodes_bind [OF canonical.reads_octets] decodes_return)
    (simp_all add: read_defs tag_defs)

lemma explicit_present:
  assumes "parseField p RawKind bs = Ok (Some rv, rest)" "fp_explicit p" "fp_tag p = Some 0"
  shows "explicit_wrapper rv"
proof -
  obtain c t cpd body where el: "bs = tlv c t cpd body @ rest" "rv = raw_of c t cpd body" "wf_tlv c t body"
    by (rule parseField_present [OF assms(1)]) simp
  have "c = 2 \<and> t = 0 \<and> (body = [] \<or> cpd)"
    using assms unfolding el(1)
    by (auto simp: parseField_def parseTagAndLength_tlv [OF el(3)] strip_explicit_def absent_def outcome_simps
        split: if_splits)
  then show ?thesis using el by (auto simp: explicit_wrapper_def wf_tlv_def)
qed

lemma reads_explicit_content:
  "reads der_input (\<lambda>rv. read_opt rv \<and> (rv = nil_raw \<or> explicit_wrapper rv)) (raw_field opt_explicit0)"
  unfolding reads_def
proof (intro allI impI)
  fix bs rv rest
  assume I: "der_input bs" and parse: "raw_field opt_explicit0 bs = Ok (rv, rest)"
  have "rv = nil_raw \<or> explicit_wrapper rv"
    using parse explicit_present [of opt_explicit0 bs]
    by (auto simp: field_def outcome_simps opt_explicit0_def split: option.splits)
  then show "(read_opt rv \<and> (rv = nil_raw \<or> explicit_wrapper rv)) \<and> der_input rest"
    using readsD [OF reads_opt_raw parse I] by blast
qed

lemma decodes_EncapsulatedContentInfo: "decodes der_input read_content parse_EncapsulatedContentInfo"
  unfolding parse_EncapsulatedContentInfo_def
  by (intro decodes_bind [OF reads_oid] decodes_bind [OF reads_explicit_content] decodes_return) (simp add: read_defs)

lemma decodes_read_SignedData: "decodes der_input read_signed_data parse_SignedData"
  unfolding parse_SignedData_def
  by (intro decodes_bind [OF reads_int] decodes_bind [OF canonical.reads_slice [OF _ reads_algorithm]]
      decodes_bind [OF canonical.reads_struct [OF _ _ decodes_EncapsulatedContentInfo]]
      decodes_bind [OF canonical.reads_slice [OF _ reads_plain_raw]]
      decodes_bind [OF canonical.reads_slice [OF _ canonical.reads_struct [OF _ _ decodes_read_SignerInfo]]] decodes_return)
    (simp_all add: read_signed_data_def tag_defs)

lemma reads_wrapper: "reads der_input (\<lambda>rv. der_input (elems (rv_Bytes rv))) (raw_field explicit0)"
  unfolding reads_def
proof (intro allI impI)
  fix bs rv rest
  assume I: "der_input bs" and parse: "raw_field explicit0 bs = Ok (rv, rest)"
  have "reads der_input der_raw (raw_field explicit0)"
    by (rule canonical.reads_raw) (simp_all add: explicit0_def)
  from readsD [OF this parse I] have rv: "der_raw rv" "der_input rest" by simp_all
  obtain r where r: "parseField explicit0 RawKind bs = Ok (r, rest)"
    and "r = None \<or> r = Some rv"
    using parse by (fastforce simp: field_def outcome_simps split: option.splits)
  then have "parseField explicit0 RawKind bs = Ok (Some rv, rest)"
    using parseField_missing(2) [of explicit0 RawKind bs rest] by (auto simp: explicit0_def)
  then have "explicit_wrapper rv" by (rule explicit_present) (simp_all add: explicit0_def)
  then show "der_input (elems (rv_Bytes rv)) \<and> der_input rest"
    using rv by (auto simp: explicit_wrapper_def der_raw_def der_input_def)
qed

lemma decodes_read_ContentInfo: "decodes der_input (\<lambda>ci. der_input (elems (rv_Bytes (Content ci)))) parse_ContentInfo_body"
  unfolding parse_ContentInfo_body_def
  by (intro decodes_bind [OF reads_oid] decodes_bind [OF reads_wrapper] decodes_return) simp

lemma ParseSignedData_read:
  assumes "ParseSignedData bs = Ok sd"
  shows "read_signed_data sd"
proof -
  from assms obtain ci out where out: "BER2DER bs = Ok out"
    and ci: "struct_field plain parse_ContentInfo_body nil_ContentInfo out = Ok (ci, [])"
    and sd: "struct_field plain parse_SignedData nil_SignedData (elems (rv_Bytes (Content ci))) = Ok (sd, [])"
    by (auto simp: ParseSignedData_def ParseContentInfo_def SignedDataContent_def outcome_simps no_trailing_Ok
        split: if_splits)
  from out obtain obj offset where obj: "wf_object obj" "out = der obj" and len: "length out < 2 ^ 63"
    by (rule BER2DER_Ok_der)
  obtain body where body: "out = tlv 0 16 True body" "length body < 2 ^ 31" "parse_ContentInfo_body body = Ok ci"
    using struct_field_plain_tag [OF ci] unfolding seq_tlv_def by (metis append_Nil2)
  have "der_raw (raw_of 0 16 True body)"
    by (rule der_of_tree [OF obj(1), of _ _ _ "[]" _ "[]"]) (use len obj(2) body in \<open>simp_all add: wf_tlv_def\<close>)
  then have "der_input body" by (simp add: der_raw_def)
  then have I: "der_input (elems (rv_Bytes (Content ci)))"
    using decodesD [OF decodes_read_ContentInfo body(3)] by blast
  have "reads der_input read_signed_data (struct_field plain parse_SignedData nil_SignedData)"
    by (intro canonical.reads_struct decodes_read_SignedData) simp_all
  from readsD [OF this sd I] show ?thesis by simp
qed

subsection \<open>Writing what was read\<close>

lemma read_raw_wf: "read_raw rv \<Longrightarrow> wf_raw rv \<and> norm_raw rv = rv \<and> is_der (marshal_raw rv)"
  by (simp add: read_raw_def wf_raw_decoded norm_raw_decoded)

lemma read_opt_wf: "read_opt rv \<Longrightarrow> wf_opt rv \<and> norm_opt rv = rv \<and> der_opt rv"
  using read_raw_wf by (auto simp: read_opt_def wf_opt_def norm_opt_def der_opt_def)

lemma read_algorithm_wf:
  "read_algorithm a \<Longrightarrow> wf_AlgorithmIdentifier a \<and> norm_AlgorithmIdentifier a = a \<and> der_opt (Parameters a)"
  using read_opt_wf by (simp add: read_algorithm_def wf_AlgorithmIdentifier_def norm_AlgorithmIdentifier_def)

lemma read_attribute_wf:
  "read_attribute a \<Longrightarrow> wf_Attribute a \<and> norm_Attribute a = a \<and> is_der (marshal_raw (attr_RawValue a))"
  using read_raw_wf by (simp add: read_attribute_def wf_Attribute_def norm_Attribute_def)

text \<open>What a signature says: everything but the order of the unsigned attributes.\<close>

definition signer_contents :: "SignerInfo \<Rightarrow> SignerInfo \<times> Attribute multiset option" where
  "signer_contents si = (si\<lparr>UnsignedAttrs := None\<rparr>, map_option mset (UnsignedAttrs si))"

lemma read_signer_wf:
  assumes "read_signer si"
  shows "wf_SignerInfo si" "der_SignerInfo si" "signer_contents (norm_SignerInfo si) = signer_contents si"
proof -
  have si: "length (int_octets (Version si)) \<le> 8" "read_raw (SID si)" "read_algorithm (DigestAlgorithm si)"
    "read_algorithm (SignatureAlgorithm si)" "\<forall>a \<in> set (elems (SignedAttrs si)). read_attribute a"
    "\<forall>a \<in> set (elems (UnsignedAttrs si)). read_attribute a"
    using assms by (simp_all add: read_signer_def)
  note wf = read_raw_wf [OF si(2)] read_algorithm_wf [OF si(3)] read_algorithm_wf [OF si(4)]
  show "wf_SignerInfo si" using si(1,5,6) wf read_attribute_wf by (simp add: wf_SignerInfo_def wf_Attributes_def)
  show "der_SignerInfo si" using si(5,6) wf read_attribute_wf by (simp add: der_SignerInfo_def der_Attributes_def)
  have "norm_signed (SignedAttrs si) = SignedAttrs si"
    using si(5) read_attribute_wf by (cases "SignedAttrs si") (simp_all add: norm_signed_def map_idI)
  moreover have "map_option mset (norm_unsigned (UnsignedAttrs si)) = map_option mset (UnsignedAttrs si)"
  proof (cases "UnsignedAttrs si")
    case (Some as)
    then have "map norm_Attribute (sort_key attribute_key as) = sort_key attribute_key as"
      using si(6) read_attribute_wf by (intro map_idI) simp
    then show ?thesis using Some by (simp add: norm_unsigned_def)
  qed (simp add: norm_unsigned_def)
  ultimately show "signer_contents (norm_SignerInfo si) = signer_contents si"
    using wf by (simp add: signer_contents_def norm_SignerInfo_def)
qed

text \<open>Two messages that differ in the order of their sets only.\<close>

definition same_message :: "SignedData \<Rightarrow> SignedData \<Rightarrow> bool" where
  "same_message a b \<longleftrightarrow> sd_Version a = sd_Version b \<and> EncapContentInfo a = EncapContentInfo b \<and>
     mset (DigestAlgorithms a) = mset (DigestAlgorithms b) \<and>
     map_option mset (Certificates a) = map_option mset (Certificates b) \<and>
     map_option mset (CRLs a) = map_option mset (CRLs b) \<and>
     mset (map signer_contents (SignerInfos a)) = mset (map signer_contents (SignerInfos b))"

lemma mset_norm_raws:
  assumes "\<forall>rv \<in> set (elems rvs). read_raw rv"
  shows "map_option mset (norm_raws rvs) = map_option mset rvs"
proof (cases rvs)
  case (Some xs)
  then have "map norm_raw (sort_key marshal_raw xs) = sort_key marshal_raw xs"
    using assms read_raw_wf by (intro map_idI) simp
  then show ?thesis using Some by (simp add: norm_raws_def)
qed (simp add: norm_raws_def)

lemma same_message_norm:
  assumes "read_signed_data sd"
  shows "same_message (norm_SignedData sd) sd"
proof -
  have sd: "\<forall>a \<in> set (DigestAlgorithms sd). read_algorithm a" "read_opt (EContent (EncapContentInfo sd))"
    "\<forall>rv \<in> set (elems (Certificates sd)). read_raw rv" "\<forall>rv \<in> set (elems (CRLs sd)). read_raw rv"
    "\<forall>si \<in> set (SignerInfos sd). read_signer si"
    using assms by (simp_all add: read_signed_data_def read_content_def)
  have "map norm_AlgorithmIdentifier (sort_key f (DigestAlgorithms sd)) = sort_key f (DigestAlgorithms sd)" for f :: "_ \<Rightarrow> bytes"
    using sd(1) read_algorithm_wf by (intro map_idI) simp
  moreover have "map (signer_contents \<circ> norm_SignerInfo) (sort_key f (SignerInfos sd))
      = map signer_contents (sort_key f (SignerInfos sd))" for f :: "_ \<Rightarrow> bytes"
    using sd(5) read_signer_wf(3) by (intro map_cong refl) simp
  then have "mset (map (signer_contents \<circ> norm_SignerInfo) (sort_key f (SignerInfos sd)))
      = mset (map signer_contents (SignerInfos sd))" for f :: "_ \<Rightarrow> bytes"
    by (simp only: mset_map mset_sort)
  ultimately show ?thesis
    using mset_norm_raws [OF sd(3)] mset_norm_raws [OF sd(4)] read_opt_wf [OF sd(2)]
    by (simp add: same_message_def norm_SignedData_def norm_EncapsulatedContentInfo_def del: mset_map)
qed

lemma read_signed_data_wf:
  assumes "read_signed_data sd" "rv_Bytes (EContent (EncapContentInfo sd)) \<noteq> Some []"
  shows "wf_SignedData sd" "der_SignedData sd"
proof -
  have e: "read_content (EncapContentInfo sd)" using assms(1) by (simp add: read_signed_data_def)
  then have "EContent (EncapContentInfo sd) = nil_raw \<or> wf_explicit (EContent (EncapContentInfo sd))"
    using assms(2) read_opt_wf [of "EContent (EncapContentInfo sd)"]
    by (auto simp: read_content_def explicit_wrapper_def wf_explicit_def norm_opt_def)
  then have "wf_EncapsulatedContentInfo (EncapContentInfo sd)" "der_opt (EContent (EncapContentInfo sd))"
    using e read_opt_wf by (simp_all add: read_content_def wf_EncapsulatedContentInfo_def)
  then show "wf_SignedData sd" "der_SignedData sd"
    using assms(1) read_algorithm_wf read_raw_wf read_signer_wf(1,2)
    by (simp_all add: read_signed_data_def wf_SignedData_def der_SignedData_def)
qed

lemma is_ok_ToDER:
  assumes "read_signed_data sd"
  shows "is_ok (ToDER sd)"
proof -
  have "is_ok (traverse marshal_AlgorithmIdentifier (DigestAlgorithms sd))"
    "is_ok (traverse marshal_SignerInfo (SignerInfos sd))"
    using assms read_algorithm_wf read_signer_wf(1)
    by (auto simp: read_signed_data_def intro!: is_ok_traverse is_ok_marshal is_ok_marshal_SignerInfo)
  moreover have "is_ok (marshal_EncapsulatedContentInfo (EncapContentInfo sd))"
    using assms is_ok_oid_tlv [of "EContentType (EncapContentInfo sd)"]
    by (auto simp: read_signed_data_def read_content_def marshal_EncapsulatedContentInfo_def is_ok_iff)
  ultimately have "is_ok (marshal_SignedData sd)" by (auto simp: marshal_SignedData_def is_ok_iff)
  then show ?thesis
    using is_ok_oid_tlv [OF wf_oid_ContentTypeSignedData(1)]
    by (auto simp: ToDER_def ContentInfoDER_def SignedData_ContentInfo_def marshal_ContentInfo_def is_ok_iff)
qed

text \<open>The operations on a message keep that.\<close>

lemma read_signed_data_Detached: "read_signed_data sd \<Longrightarrow> read_signed_data (Detached sd)"
  by (simp add: read_signed_data_def read_content_def read_opt_def Detached_def)

lemma read_signed_data_SetCertificates:
  assumes "read_signed_data sd" "addable certs None" "\<forall>cert \<in> set certs. der_certificate cert"
  shows "read_signed_data (fst (SetCertificates certs sd))"
  using assms(1,3) SetCertificates_Ok [OF assms(2), of sd] der_certificate_raw(1,3)
  by (simp add: read_signed_data_def read_raw_def)

text \<open>
  C15: Every message that parses is well formed: its object identifiers are valid, its integers fit, its raw
  values are the elements they were read from, all of it DER. So it can always be serialized again, also
  after its content was detached or its certificates were replaced.
\<close>

theorem parsed_message_wf:
  assumes "ParseSignedData bs = Ok sd" and "addable certs None" "\<forall>cert \<in> set certs. der_certificate cert"
  shows "read_signed_data sd \<and> is_ok (ToDER sd) \<and>
    read_signed_data (Detached sd) \<and> is_ok (ToDER (Detached sd)) \<and>
    read_signed_data (fst (SetCertificates certs sd)) \<and> is_ok (ToDER (fst (SetCertificates certs sd)))"
  using ParseSignedData_read [OF assms(1)] read_signed_data_Detached read_signed_data_SetCertificates [OF _ assms(2,3)]
    is_ok_ToDER by blast

text \<open>
  C12: Writing a parsed message and reading it back, whatever follows it, gives the same message up to the
  order of its sets: the content, the signed attributes in their order and the signatures are those that
  were read. The hypothesis leaves out an explicit wrapper without a content, which \<open>encoding/asn1\<close> accepts
  only where other octets follow it in its SEQUENCE.
\<close>

theorem parsed_message_rewritten:
  assumes "ParseSignedData bs = Ok sd" and "rv_Bytes (EContent (EncapContentInfo sd)) \<noteq> Some []"
    and "ToDER sd = Ok out" and "length out < 2 ^ 31"
  shows "\<exists>sd'. ParseSignedData (out @ junk) = Ok sd' \<and> same_message sd' sd"
proof -
  have read: "read_signed_data sd" using assms(1) by (rule ParseSignedData_read)
  note wf = read_signed_data_wf [OF read assms(2)]
  have "ParseSignedData (out @ junk) = Ok (norm_SignedData sd)"
    using ContentInfoDER_parse [OF assms(3) [unfolded ToDER_def] wf assms(4), of junk] by (auto simp: ParseSignedData_def)
  then show ?thesis using same_message_norm [OF read] by blast
qed

lemma example_parsed:
  obtains bs sd where "ParseSignedData bs = Ok sd" "rv_Bytes (EContent (EncapContentInfo sd)) \<noteq> Some []"
    "ToDER sd = Ok bs" "length bs < 2 ^ 31"
proof -
  have carried: "carried example_pki example_certificate [example_certificate]"
    using example_signing(2) by (simp add: verifiable_def)
  obtain time :: bytes and sm sig where time: "length time = 13" and c: "length (hash_sum example_pki SHA256 [104, 105]) = 32"
    and "Sign_digest example_signer (hash_sum example_pki SHA256 sm) SHA256 = Ok sig"
    by (rule signed_message_cases [OF example_signing(1) key_chain_single [OF example_signing(1)]])
  then have sig: "length sig < 2 ^ 28" using example_signing(3) unfolding small_message_def by blast
  have norm: "norm_EncapsulatedContentInfo detached_eci = detached_eci"
    by (simp add: norm_EncapsulatedContentInfo_def detached_eci_def norm_opt_def)
  obtain bs where "ToDER (signed_data [example_certificate] detached_eci (signer_info example_certificate time
      (hash_sum example_pki SHA256 [104, 105]) (signature_oid example_certificate) sig)) = Ok bs"
    "ParseSignedData (bs @ []) = Ok (signed_data (der_order [example_certificate]) detached_eci
      (signer_info example_certificate time (hash_sum example_pki SHA256 [104, 105]) (signature_oid example_certificate) sig))"
    "length bs < 2 ^ 31"
    by (rule signed_data_read_back [OF carried_der [OF carried] time c good_eci_detached, of sig "[]", unfolded norm])
      (use example_signing(3) sig in \<open>simp add: small_message_def detached_eci_def optional_raw_def\<close>)
  then show ?thesis by (intro that) (simp_all add: signed_data_def detached_eci_def nil_raw_def)
qed

theorem parsed_message_wf_witness:
  "\<exists>bs sd. ParseSignedData bs = Ok sd \<and> read_signed_data sd \<and>
    is_ok (ToDER (fst (SetCertificates [example_certificate] sd)))"
proof -
  obtain bs sd where parse: "ParseSignedData bs = Ok sd" by (rule example_parsed)
  have "carried example_pki example_certificate [example_certificate]"
    using example_signing(2) by (simp add: verifiable_def)
  then have "addable [example_certificate] None" "\<forall>cert \<in> set [example_certificate]. der_certificate cert"
    by (simp_all add: carried_def)
  from parsed_message_wf [OF parse this] parse show ?thesis by blast
qed

theorem parsed_message_rewritten_witness:
  "\<exists>bs sd out sd'. ParseSignedData bs = Ok sd \<and> ToDER sd = Ok out \<and> ParseSignedData (out @ [0]) = Ok sd' \<and>
    same_message sd' sd"
  using example_parsed parsed_message_rewritten by metis

end
