(* ===== verification/Fake_Ca.thy ===== *)
theory Fake_Ca
  imports Key_Vault
begin

text \<open>
  The package fakeca: a certificate authority made for tests.  Identities refer to their issuer by
  pointer, and issuing a certificate changes the issuer, so the state holds a heap of identities; an
  address is an index into it and nothing is ever freed.  Key generation, randomness and the making
  of certificates are arguments; a failure of theirs is a panic, as in the code.
\<close>

subsection \<open>The state\<close>

text \<open>A \<open>crypto.Signer\<close> by the types that \<open>toDER\<close> tells apart, with its encoding.\<close>

datatype private_key = RSAPrivateKey signer bytes | ECDSAPrivateKey signer "bytes outcome" | OtherPrivateKey signer

fun key_signer :: "private_key \<Rightarrow> signer" where
  "key_signer (RSAPrivateKey s _) = s"
| "key_signer (ECDSAPrivateKey s _) = s"
| "key_signer (OtherPrivateKey s) = s"

type_synonym ref = nat

record fake_identity =
  fi_Issuer :: "ref option"
  fi_PrivateKey :: private_key
  fi_Certificate :: certificate
  fi_NextSN :: "64 word"

text \<open>\<open>draws\<close> counts the reads of the source of randomness.\<close>

record ca_state =
  heap :: "fake_identity list"
  cnCounter :: "64 word"
  draws :: nat

definition init_ca :: ca_state where
  "init_ca = \<lparr>heap = [], cnCounter = 0, draws = 0\<rparr>"

record pkix_name =
  Country :: "string list"
  Province :: "string list"
  Locality :: "string list"
  StreetAddress :: "string list"
  PostalCode :: "string list"
  CommonName :: string

record configuration =
  cfg_subject :: "pkix_name option"
  cfg_issuer :: "ref option"
  cfg_nextSN :: "64 word option"
  cfg_priv :: "private_key option"
  cfg_isCA :: bool
  cfg_notBefore :: "int option"
  cfg_notAfter :: "int option"
  cfg_issuingCertificateURL :: "string list"
  cfg_ocspServer :: "string list"
  cfg_keyUsage :: int

definition empty_configuration :: configuration where
  "empty_configuration =
     \<lparr>cfg_subject = None, cfg_issuer = None, cfg_nextSN = None, cfg_priv = None, cfg_isCA = False,
      cfg_notBefore = None, cfg_notAfter = None, cfg_issuingCertificateURL = [], cfg_ocspServer = [],
      cfg_keyUsage = 0\<rparr>"

subsection \<open>Options\<close>

type_synonym ca_option = "configuration \<Rightarrow> configuration"

definition Subject :: "pkix_name \<Rightarrow> ca_option" where
  "Subject value c = c\<lparr>cfg_subject := Some value\<rparr>"

definition NextSerialNumber :: "64 word \<Rightarrow> ca_option" where
  "NextSerialNumber value c = c\<lparr>cfg_nextSN := Some value\<rparr>"

definition PrivateKey :: "private_key \<Rightarrow> ca_option" where
  "PrivateKey value c = c\<lparr>cfg_priv := Some value\<rparr>"

definition ca_Issuer :: "ref option \<Rightarrow> ca_option" where
  "ca_Issuer value c = c\<lparr>cfg_issuer := value\<rparr>"

definition ca_NotBefore :: "int \<Rightarrow> ca_option" where
  "ca_NotBefore value c = c\<lparr>cfg_notBefore := Some value\<rparr>"

definition ca_NotAfter :: "int \<Rightarrow> ca_option" where
  "ca_NotAfter value c = c\<lparr>cfg_notAfter := Some value\<rparr>"

definition ca_IssuingCertificateURL :: "string list \<Rightarrow> ca_option" where
  "ca_IssuingCertificateURL value c = c\<lparr>cfg_issuingCertificateURL := cfg_issuingCertificateURL c @ value\<rparr>"

definition OCSPServer :: "string list \<Rightarrow> ca_option" where
  "OCSPServer value c = c\<lparr>cfg_ocspServer := cfg_ocspServer c @ value\<rparr>"

definition KeyUsage :: "int \<Rightarrow> ca_option" where
  "KeyUsage ku c = c\<lparr>cfg_keyUsage := ku\<rparr>"

definition IsCA :: ca_option where
  "IsCA c = c\<lparr>cfg_isCA := True\<rparr>"

subsection \<open>What the package calls\<close>

record template =
  t_Subject :: pkix_name
  t_IsCA :: bool
  t_BasicConstraintsValid :: bool
  t_NotAfter :: int
  t_NotBefore :: int
  t_IssuingCertificateURL :: "string list"
  t_OCSPServer :: "string list"
  t_KeyUsage :: int
  t_SerialNumber :: int

text \<open>The parent of a certificate: its own template, or the certificate of the issuer.\<close>

datatype parent = SelfSigned template | IssuedBy certificate

text \<open>
  \<open>rand_Int n\<close> is the \<open>n\<close>-th random integer below \<open>MaxInt64\<close>, \<open>GenerateKey n\<close> the RSA key made from the
  \<open>n\<close>-th draw; \<open>ca_now\<close> is the clock.
\<close>

record ca_library =
  rand_Int :: "nat \<Rightarrow> int outcome"
  GenerateKey :: "nat \<Rightarrow> private_key outcome"
  CreateCertificate :: "template \<Rightarrow> parent \<Rightarrow> public_key \<Rightarrow> signer \<Rightarrow> bytes outcome"
  ca_ParseCertificate :: "bytes \<Rightarrow> certificate outcome"
  ca_now :: int
  ca_pem :: "pem_block \<Rightarrow> string outcome"
  openssl :: "string list \<Rightarrow> bytes \<Rightarrow> bytes outcome"

text \<open>\<open>if err != nil { panic(err) }\<close>.\<close>

fun must :: "'a outcome \<Rightarrow> 'a outcome" where
  "must (Err e) = Panic (PanicMsg ''error'')"
| "must r = r"

subsection \<open>Generating an identity\<close>

definition DefaultCommonName :: string where
  "DefaultCommonName = ''fakeca''"

definition getSubject :: "configuration \<Rightarrow> ca_state \<Rightarrow> ca_state \<times> pkix_name" where
  "getSubject c st =
     (case cfg_subject c of
        Some subject \<Rightarrow> (st, subject)
      | None \<Rightarrow>
          (st\<lparr>cnCounter := cnCounter st + 1\<rparr>,
           \<lparr>Country = [''US''], Province = [''CA''], Locality = [''San Francisco''], StreetAddress = [],
            PostalCode = [], CommonName = (if cnCounter st = 0 then DefaultCommonName
              else DefaultCommonName @ '' #'' @ show_int (sint (cnCounter st)))\<rparr>))"

definition randSN :: "ca_library \<Rightarrow> ca_state \<Rightarrow> ca_state \<times> int outcome" where
  "randSN lib st = (st\<lparr>draws := draws st + 1\<rparr>, must (rand_Int lib (draws st)))"

definition getNextSN :: "ca_library \<Rightarrow> configuration \<Rightarrow> ca_state \<Rightarrow> ca_state \<times> (64 word) outcome" where
  "getNextSN lib c st =
     (case cfg_nextSN c of
        Some sn \<Rightarrow> (st, Ok sn)
      | None \<Rightarrow> (case randSN lib st of (st, sn) \<Rightarrow> (st, obind sn (\<lambda>sn. Ok (word_of_int sn)))))"

definition getPrivateKey :: "ca_library \<Rightarrow> configuration \<Rightarrow> ca_state \<Rightarrow> ca_state \<times> private_key outcome" where
  "getPrivateKey lib c st =
     (case cfg_priv c of
        Some priv \<Rightarrow> (st, Ok priv)
      | None \<Rightarrow> (st\<lparr>draws := draws st + 1\<rparr>, must (GenerateKey lib (draws st))))"

definition getNotBefore :: "configuration \<Rightarrow> int" where
  "getNotBefore c = (case cfg_notBefore c of None \<Rightarrow> 0 | Some t \<Rightarrow> t)"

text \<open>Ten years of 365 days, in seconds.\<close>

definition getNotAfter :: "ca_library \<Rightarrow> configuration \<Rightarrow> int" where
  "getNotAfter lib c = (case cfg_notAfter c of None \<Rightarrow> ca_now lib + 60 * 60 * 24 * 365 * 10 | Some t \<Rightarrow> t)"

text \<open>A pointer that is not in the heap would be nil.\<close>

definition deref :: "ca_state \<Rightarrow> ref \<Rightarrow> fake_identity outcome" where
  "deref st a = (if a < length (heap st) then Ok (heap st ! a) else Panic NilDereference)"

definition IncrementSN :: "ref \<Rightarrow> ca_state \<Rightarrow> ca_state \<times> (64 word) outcome" where
  "IncrementSN a st =
     attempt st (deref st a) (\<lambda>i.
       (st\<lparr>heap := (heap st)[a := i\<lparr>fi_NextSN := fi_NextSN i + 1\<rparr>]\<rparr>, Ok (fi_NextSN i)))"

definition alloc :: "fake_identity \<Rightarrow> ca_state \<Rightarrow> ca_state \<times> ref outcome" where
  "alloc i st = (st\<lparr>heap := heap st @ [i]\<rparr>, Ok (length (heap st)))"

text \<open>The parent, the serial number and the signing key: the issuer's, or the identity's own.\<close>

definition signing_parent :: "ca_library \<Rightarrow> configuration \<Rightarrow> template \<Rightarrow> private_key \<Rightarrow> ca_state
    \<Rightarrow> ca_state \<times> (parent \<times> template \<times> signer) outcome" where
  "signing_parent lib c templ thisPriv st =
     (case cfg_issuer c of
        Some a \<Rightarrow>
          attempt st (deref st a) (\<lambda>issuer.
          case IncrementSN a st of (st, sn) \<Rightarrow>
          attempt st sn (\<lambda>sn.
            (st, Ok (IssuedBy (fi_Certificate issuer), templ\<lparr>t_SerialNumber := sint sn\<rparr>,
               key_signer (fi_PrivateKey issuer)))))
      | None \<Rightarrow>
          (case randSN lib st of (st, sn) \<Rightarrow>
           attempt st sn (\<lambda>sn.
             let templ = templ\<lparr>t_SerialNumber := sn\<rparr> in (st, Ok (SelfSigned templ, templ, key_signer thisPriv)))))"

definition generate :: "ca_library \<Rightarrow> configuration \<Rightarrow> ca_state \<Rightarrow> ca_state \<times> ref outcome" where
  "generate lib c st =
     (case getSubject c st of (st, subject) \<Rightarrow>
      let templ = \<lparr>t_Subject = subject, t_IsCA = cfg_isCA c, t_BasicConstraintsValid = True,
        t_NotAfter = getNotAfter lib c, t_NotBefore = getNotBefore c,
        t_IssuingCertificateURL = cfg_issuingCertificateURL c, t_OCSPServer = cfg_ocspServer c,
        t_KeyUsage = cfg_keyUsage c, t_SerialNumber = 0\<rparr> in
      case getPrivateKey lib c st of (st, thisPriv) \<Rightarrow>
      attempt st thisPriv (\<lambda>thisPriv.
      case signing_parent lib c templ thisPriv st of (st, signing) \<Rightarrow>
      attempt st signing (\<lambda>(parent, templ, priv).
      attempt st (must (CreateCertificate lib templ parent (Public (key_signer thisPriv)) priv)) (\<lambda>der.
      attempt st (must (ca_ParseCertificate lib der)) (\<lambda>cert.
      case getNextSN lib c st of (st, nextSN) \<Rightarrow>
      attempt st nextSN (\<lambda>nextSN.
        alloc \<lparr>fi_Issuer = cfg_issuer c, fi_PrivateKey = thisPriv, fi_Certificate = cert, fi_NextSN = nextSN\<rparr> st))))))"

definition New :: "ca_library \<Rightarrow> ca_option list \<Rightarrow> ca_state \<Rightarrow> ca_state \<times> ref outcome" where
  "New lib opts st = generate lib (fold (\<lambda>opt c. opt c) opts empty_configuration) st"

definition Issue :: "ca_library \<Rightarrow> ref \<Rightarrow> ca_option list \<Rightarrow> ca_state \<Rightarrow> ca_state \<times> ref outcome" where
  "Issue lib a opts st = New lib (opts @ [ca_Issuer (Some a)]) st"

subsection \<open>Chains\<close>

text \<open>The loops follow the issuers; \<open>None\<close> is one that does not end.\<close>

partial_function (option) chain_loop :: "ca_state \<Rightarrow> ref option \<Rightarrow> certificate list \<Rightarrow> certificate list outcome option" where
  "chain_loop st this chain =
     (case this of
        None \<Rightarrow> Some (Ok chain)
      | Some a \<Rightarrow>
          (case deref st a of
             Ok i \<Rightarrow> chain_loop st (fi_Issuer i) (chain @ [fi_Certificate i])
           | Err e \<Rightarrow> Some (Err e)
           | Panic p \<Rightarrow> Some (Panic p)))"

definition ca_Chain :: "ca_state \<Rightarrow> ref \<Rightarrow> certificate list outcome option" where
  "ca_Chain st a = chain_loop st (Some a) []"

partial_function (option) pool_loop :: "ca_state \<Rightarrow> ref option \<Rightarrow> certificate list \<Rightarrow> certificate list outcome option" where
  "pool_loop st this pool =
     (case this of
        None \<Rightarrow> Some (Ok pool)
      | Some a \<Rightarrow>
          (case deref st a of
             Ok i \<Rightarrow> pool_loop st (fi_Issuer i) (AddCert pool (fi_Certificate i))
           | Err e \<Rightarrow> Some (Err e)
           | Panic p \<Rightarrow> Some (Panic p)))"

definition ChainPool :: "ca_state \<Rightarrow> ref \<Rightarrow> certificate list outcome option" where
  "ChainPool st a = pool_loop st (Some a) []"

subsection \<open>PKCS#12\<close>

definition toDER :: "private_key \<Rightarrow> bytes outcome" where
  "toDER priv = must (case priv of
     RSAPrivateKey _ pkcs1 \<Rightarrow> Ok pkcs1
   | ECDSAPrivateKey _ ec \<Rightarrow> ec
   | OtherPrivateKey _ \<Rightarrow> Err (ErrorString ''unknown key type''))"

definition toPEM :: "ca_library \<Rightarrow> certificate \<Rightarrow> bytes outcome" where
  "toPEM lib cert =
     must (obind (ca_pem lib \<lparr>pem_Type = ''CERTIFICATE'', pem_Bytes = Raw cert\<rparr>) (\<lambda>s. Ok (bytes_of_string s)))"

definition toPKCS8 :: "ca_library \<Rightarrow> private_key \<Rightarrow> bytes outcome" where
  "toPKCS8 lib priv =
     obind (toDER priv) (\<lambda>der. must (openssl lib [''pkcs8'', ''-topk8'', ''-nocrypt'', ''-inform'', ''DER''] der))"

definition toPFX :: "ca_library \<Rightarrow> certificate \<Rightarrow> private_key \<Rightarrow> string \<Rightarrow> bytes outcome" where
  "toPFX lib cert priv password =
     (if list_ex (\<lambda>ch. \<not> alphanumeric ch) password then Panic (PanicMsg ''password must be alphanumeric'')
      else obind (toPKCS8 lib priv) (\<lambda>key. obind (toPEM lib cert) (\<lambda>pem.
        must (openssl lib [''pkcs12'', ''-export'', ''-passout'', ''pass:'' @ password] (key @ [10] @ pem)))))"

definition PFX :: "ca_library \<Rightarrow> ca_state \<Rightarrow> ref \<Rightarrow> string \<Rightarrow> bytes outcome" where
  "PFX lib st a password =
     obind (deref st a) (\<lambda>i. toPFX lib (fi_Certificate i) (fi_PrivateKey i) password)"

end
