(* ===== verification/Fake_Ca_Spec.thy ===== *)
theory Fake_Ca_Spec
  imports Fake_Ca Key_Vault_Spec
begin

text \<open>
  The certificate authority as a state machine: an abstract view of its operations, the serial numbers
  it issues, and its chains.  An identity of it satisfies the contract the commands rely on.
\<close>

subsection \<open>The library and the reachable states\<close>

text \<open>A certificate that is made and parsed has the serial number and the key that went into it.\<close>

definition lawful :: "ca_library \<Rightarrow> bool" where
  "lawful lib \<longleftrightarrow> (\<forall>templ parent pub priv bs cert.
     CreateCertificate lib templ parent pub priv = Ok bs \<longrightarrow> ca_ParseCertificate lib bs = Ok cert \<longrightarrow>
     cert_SerialNumber cert = t_SerialNumber templ \<and> certificate.PublicKey cert = pub)"

definition configured :: "ca_option list \<Rightarrow> configuration" where
  "configured opts = fold (\<lambda>opt c. opt c) opts empty_configuration"

text \<open>A pointer to an issuer can only be one the package has returned.\<close>

definition known :: "ca_state \<Rightarrow> ref option \<Rightarrow> bool" where
  "known st issuer \<longleftrightarrow> (case issuer of None \<Rightarrow> True | Some a \<Rightarrow> a < length (heap st))"

text \<open>The states after \<open>n\<close> calls; a call that panics may still have changed the state.\<close>

inductive reachable :: "ca_library \<Rightarrow> nat \<Rightarrow> ca_state \<Rightarrow> bool" for lib where
  Init: "reachable lib 0 init_ca"
| New: "reachable lib n st \<Longrightarrow> known st (cfg_issuer (configured opts)) \<Longrightarrow> New lib opts st = (st', r) \<Longrightarrow>
    reachable lib (Suc n) st'"
| Increment: "reachable lib n st \<Longrightarrow> IncrementSN a st = (st', r) \<Longrightarrow> reachable lib (Suc n) st'"

subsection \<open>One operation\<close>

definition bump :: "ref \<Rightarrow> fake_identity list \<Rightarrow> fake_identity list" where
  "bump a h = h[a := (h ! a)\<lparr>fi_NextSN := fi_NextSN (h ! a) + 1\<rparr>]"

definition bump_issuer :: "ref option \<Rightarrow> fake_identity list \<Rightarrow> fake_identity list" where
  "bump_issuer issuer h = (case issuer of None \<Rightarrow> h | Some a \<Rightarrow> bump a h)"

lemma length_bump [simp]: "length (bump a h) = length h"
  by (simp add: bump_def)

lemma length_bump_issuer [simp]: "length (bump_issuer issuer h) = length h"
  by (simp add: bump_issuer_def split: option.splits)

definition serial :: "fake_identity \<Rightarrow> int" where
  "serial i = cert_SerialNumber (fi_Certificate i)"

lemma nth_bump: "b < length h \<Longrightarrow> bump a h ! b = (if a = b then (h ! b)\<lparr>fi_NextSN := fi_NextSN (h ! b) + 1\<rparr> else h ! b)"
  by (simp add: bump_def nth_list_update)

lemma nth_bump_issuer:
  assumes "b < length h"
  shows "fi_Issuer (bump_issuer issuer h ! b) = fi_Issuer (h ! b)"
    and "fi_Certificate (bump_issuer issuer h ! b) = fi_Certificate (h ! b)"
    and "fi_PrivateKey (bump_issuer issuer h ! b) = fi_PrivateKey (h ! b)"
    and "fi_NextSN (bump_issuer issuer h ! b) = (if issuer = Some b then fi_NextSN (h ! b) + 1 else fi_NextSN (h ! b))"
  using assms by (auto simp: bump_issuer_def nth_bump split: option.splits)

lemma IncrementSN_heap:
  assumes "IncrementSN a st = (st', r)"
  shows "heap st' = (if a < length (heap st) then bump a (heap st) else heap st)"
    and "a < length (heap st) \<Longrightarrow> r = Ok (fi_NextSN (heap st ! a))"
  using assms by (auto simp: IncrementSN_def deref_def bump_def split: if_splits)

text \<open>The identity that a call adds.\<close>

definition new_identity :: "ca_library \<Rightarrow> ref option \<Rightarrow> fake_identity list \<Rightarrow> fake_identity \<Rightarrow> bool" where
  "new_identity lib issuer h i \<longleftrightarrow>
     fi_Issuer i = issuer \<and> certificate.PublicKey (fi_Certificate i) = Public (key_signer (fi_PrivateKey i)) \<and>
     (case issuer of None \<Rightarrow> True | Some a \<Rightarrow> serial i = sint (fi_NextSN (h ! a)))"

lemma heap_getSubject: "getSubject c st = (st', s) \<Longrightarrow> heap st' = heap st"
  by (auto simp: getSubject_def split: option.splits)

lemma heap_getPrivateKey: "getPrivateKey lib c st = (st', r) \<Longrightarrow> heap st' = heap st"
  by (auto simp: getPrivateKey_def split: option.splits)

lemma heap_getNextSN: "getNextSN lib c st = (st', r) \<Longrightarrow> heap st' = heap st"
  by (auto simp: getNextSN_def randSN_def split: option.splits)

lemma heap_signing_parent:
  assumes "signing_parent lib c templ priv st = (st', r)" "known st (cfg_issuer c)"
  shows "heap st' = bump_issuer (cfg_issuer c) (heap st) \<or> heap st' = heap st \<and> \<not> is_ok r"
    and "r = Ok (parent, templ', key) \<Longrightarrow>
      (case cfg_issuer c of None \<Rightarrow> True | Some a \<Rightarrow> t_SerialNumber templ' = sint (fi_NextSN (heap st ! a)))"
  using assms
  by (auto simp: signing_parent_def known_def deref_def IncrementSN_def randSN_def bump_issuer_def bump_def Let_def
      outcome_simps split: option.splits) (cases "rand_Int lib (draws st)", auto)+

lemma generate_heap:
  assumes run: "generate lib c st = (st', r)" and known: "known st (cfg_issuer c)" and lib: "lawful lib"
  shows "(\<exists>i. r = Ok (length (heap st)) \<and> heap st' = bump_issuer (cfg_issuer c) (heap st) @ [i] \<and>
      new_identity lib (cfg_issuer c) (heap st) i) \<or>
    (\<not> is_ok r \<and> (heap st' = heap st \<or> heap st' = bump_issuer (cfg_issuer c) (heap st)))"
proof -
  let ?goal = "(\<exists>i. r = Ok (length (heap st)) \<and> heap st' = bump_issuer (cfg_issuer c) (heap st) @ [i] \<and>
      new_identity lib (cfg_issuer c) (heap st) i) \<or>
    (\<not> is_ok r \<and> (heap st' = heap st \<or> heap st' = bump_issuer (cfg_issuer c) (heap st)))"
  obtain s1 subject where s1: "getSubject c st = (s1, subject)" by (cases "getSubject c st")
  obtain s2 priv where s2: "getPrivateKey lib c s1 = (s2, priv)" by (cases "getPrivateKey lib c s1")
  define templ where "templ = \<lparr>t_Subject = subject, t_IsCA = cfg_isCA c, t_BasicConstraintsValid = True,
        t_NotAfter = getNotAfter lib c, t_NotBefore = getNotBefore c,
        t_IssuingCertificateURL = cfg_issuingCertificateURL c, t_OCSPServer = cfg_ocspServer c,
        t_KeyUsage = cfg_keyUsage c, t_SerialNumber = 0\<rparr>"
  note run' = run [unfolded generate_def s1 prod.case Let_def s2 templ_def [symmetric]]
  have h2: "heap s2 = heap st" using heap_getSubject [OF s1] heap_getPrivateKey [OF s2] by simp
  then have known2: "known s2 (cfg_issuer c)" using known by (simp add: known_def split: option.splits)
  from run' show ?goal
  proof (rule attempt_split)
    fix key
    let ?gen = "\<lambda>st (parent, templ, pk). attempt st (must (CreateCertificate lib templ parent (Public (key_signer key)) pk))
      (\<lambda>bs. attempt st (must (ca_ParseCertificate lib bs)) (\<lambda>cert.
        case getNextSN lib c st of (st, nextSN) \<Rightarrow> attempt st nextSN (\<lambda>nextSN.
          alloc \<lparr>fi_Issuer = cfg_issuer c, fi_PrivateKey = key, fi_Certificate = cert, fi_NextSN = nextSN\<rparr> st)))"
    assume key: "priv = Ok key"
      and r: "(case signing_parent lib c templ key s2 of (st, signing) \<Rightarrow> attempt st signing (?gen st)) = (st', r)"
    obtain s3 signing where s3: "signing_parent lib c templ key s2 = (s3, signing)"
      by (cases "signing_parent lib c templ key s2")
    note h3 = heap_signing_parent [OF s3 known2, unfolded h2]
    from r have "attempt s3 signing (?gen s3) = (st', r)" unfolding s3 prod.case .
    then show ?goal
    proof (rule attempt_split)
      fix signed
      assume ok: "signing = Ok signed" and r: "?gen s3 signed = (st', r)"
      obtain parent templ' pk where sg: "signed = (parent, templ', pk)" by (cases signed)
      have heap3: "heap s3 = bump_issuer (cfg_issuer c) (heap st)" using h3(1) ok by auto
      from r show ?goal unfolding sg prod.case
      proof (elim attempt_split)
        fix bs cert
        assume cc: "must (CreateCertificate lib templ' parent (Public (key_signer key)) pk) = Ok bs"
          and pc: "must (ca_ParseCertificate lib bs) = Ok cert"
          and r: "(case getNextSN lib c s3 of (st, nextSN) \<Rightarrow> attempt st nextSN (\<lambda>nextSN.
            alloc \<lparr>fi_Issuer = cfg_issuer c, fi_PrivateKey = key, fi_Certificate = cert, fi_NextSN = nextSN\<rparr> st))
            = (st', r)"
        have must_Ok: "must m = Ok x \<Longrightarrow> m = Ok x" for m :: "'z outcome" and x by (cases m) auto
        have cert: "cert_SerialNumber cert = t_SerialNumber templ'" "certificate.PublicKey cert = Public (key_signer key)"
          using lib must_Ok [OF cc] must_Ok [OF pc] unfolding lawful_def by blast+
        obtain s4 sn where s4: "getNextSN lib c s3 = (s4, sn)" by (cases "getNextSN lib c s3")
        note h4 = heap_getNextSN [OF s4, unfolded heap3]
        have sn: "case cfg_issuer c of None \<Rightarrow> True | Some a \<Rightarrow> t_SerialNumber templ' = sint (fi_NextSN (heap st ! a))"
          using h3(2) ok sg by blast
        show ?goal
          using r h4 cert sn unfolding s4 prod.case
          by (cases sn) (auto simp: alloc_def new_identity_def serial_def split: option.splits)
      qed (use heap3 in auto)
    qed (use h3 in auto)
  qed (use h2 in auto)
qed

lemma New_heap:
  assumes "New lib opts st = (st', r)" "known st (cfg_issuer (configured opts))" "lawful lib"
  defines "issuer \<equiv> cfg_issuer (configured opts)"
  shows "(\<exists>i. r = Ok (length (heap st)) \<and> heap st' = bump_issuer issuer (heap st) @ [i] \<and>
      new_identity lib issuer (heap st) i) \<or>
    (\<not> is_ok r \<and> (heap st' = heap st \<or> heap st' = bump_issuer issuer (heap st)))"
  using generate_heap [OF _ assms(2,3)] assms(1) by (simp add: New_def configured_def issuer_def)

subsection \<open>The abstract authority\<close>

text \<open>
  A certificate authority is the list of what it has issued, by issuer and serial number, and a counter
  for each of its identities.
\<close>

record authority =
  issued :: "(ref option \<times> int) list"
  counters :: "64 word list"

definition abs_ca :: "ca_state \<Rightarrow> authority" where
  "abs_ca st = \<lparr>issued = map (\<lambda>i. (fi_Issuer i, serial i)) (heap st), counters = map fi_NextSN (heap st)\<rparr>"

text \<open>Issuing takes the issuer's counter as the serial number and advances it; a root chooses its own.\<close>

definition issue_from :: "ref option \<Rightarrow> int \<Rightarrow> 64 word \<Rightarrow> authority \<Rightarrow> authority" where
  "issue_from issuer own next_sn au =
     (case issuer of
        None \<Rightarrow> \<lparr>issued = issued au @ [(None, own)], counters = counters au @ [next_sn]\<rparr>
      | Some a \<Rightarrow> \<lparr>issued = issued au @ [(Some a, sint (counters au ! a))],
          counters = (counters au)[a := counters au ! a + 1] @ [next_sn]\<rparr>)"

lemma map_bump:
  assumes "a < length h"
  shows "map (\<lambda>i. (fi_Issuer i, serial i)) (bump a h) = map (\<lambda>i. (fi_Issuer i, serial i)) h"
    and "map fi_NextSN (bump a h) = (map fi_NextSN h)[a := fi_NextSN (h ! a) + 1]"
  using assms by (auto simp: bump_def serial_def intro!: nth_equalityI simp: nth_list_update)

text \<open>
  C28: \<open>New\<close> refines the abstract operation: when it returns, it has issued exactly one certificate, from
  the counter of the configured issuer, which alone has moved on, and the address is the next one.
\<close>

theorem New_refines:
  assumes "New lib opts st = (st', Ok a)" "known st (cfg_issuer (configured opts))" "lawful lib"
  shows "\<exists>own next_sn. abs_ca st' = issue_from (cfg_issuer (configured opts)) own next_sn (abs_ca st) \<and>
    a = length (issued (abs_ca st))"
proof -
  let ?issuer = "cfg_issuer (configured opts)"
  obtain i where i: "a = length (heap st)" "heap st' = bump_issuer ?issuer (heap st) @ [i]"
    "new_identity lib ?issuer (heap st) i"
    using New_heap [OF assms] by auto
  have "abs_ca st' = issue_from ?issuer (serial i) (fi_NextSN i) (abs_ca st)"
    using i(2,3) assms(2)
    by (cases ?issuer)
      (auto simp: abs_ca_def issue_from_def bump_issuer_def new_identity_def known_def map_bump)
  then show ?thesis using i(1) by (auto simp: abs_ca_def)
qed

subsection \<open>Serial numbers\<close>

definition serials :: "fake_identity list \<Rightarrow> ref \<Rightarrow> int list" where
  "serials h a = map serial (filter (\<lambda>i. fi_Issuer i = Some a) h)"

text \<open>
  The serial numbers issued from \<open>a\<close> are those its counter had at increasing moments; at most \<open>n\<close>
  moments have passed.
\<close>

definition counted :: "nat \<Rightarrow> fake_identity list \<Rightarrow> ref \<Rightarrow> bool" where
  "counted n h a \<longleftrightarrow> (\<exists>base k ks. fi_NextSN (h ! a) = base + of_nat k \<and> k \<le> n \<and> sorted_wrt (<) ks \<and>
     (\<forall>j \<in> set ks. j < k) \<and> serials h a = map (\<lambda>j. sint (base + of_nat j :: 64 word)) ks)"

text \<open>The invariant: issuers are older than what they issue, keys fit, and serial numbers are counted.\<close>

definition ca_inv :: "nat \<Rightarrow> fake_identity list \<Rightarrow> bool" where
  "ca_inv n h \<longleftrightarrow> (\<forall>a < length h.
     (case fi_Issuer (h ! a) of None \<Rightarrow> True | Some b \<Rightarrow> b < a) \<and>
     certificate.PublicKey (fi_Certificate (h ! a)) = Public (key_signer (fi_PrivateKey (h ! a))) \<and>
     counted n h a)"

lemma serials_bump_issuer: "serials (bump_issuer issuer h) a = serials h a"
proof -
  have "map (\<lambda>i. (fi_Issuer i, serial i)) (bump_issuer issuer h) = map (\<lambda>i. (fi_Issuer i, serial i)) h"
    by (rule nth_equalityI) (simp_all add: nth_bump_issuer serial_def)
  moreover have "serials h' a = map snd (filter (\<lambda>p. fst p = Some a) (map (\<lambda>i. (fi_Issuer i, serial i)) h'))" for h'
    by (simp add: serials_def filter_map o_def)
  ultimately show ?thesis by simp
qed

lemma counted_bump:
  assumes "counted n h a" "a < length h"
  shows "counted (Suc n) (bump_issuer issuer h) a"
proof -
  obtain base k ks where c: "fi_NextSN (h ! a) = base + of_nat k" "k \<le> n" "sorted_wrt (<) ks" "\<forall>j \<in> set ks. j < k"
    "serials h a = map (\<lambda>j. sint (base + of_nat j :: 64 word)) ks"
    using assms(1) by (auto simp: counted_def)
  let ?k = "if issuer = Some a then Suc k else k"
  have "fi_NextSN (bump_issuer issuer h ! a) = base + of_nat ?k"
    using c(1) assms(2) by (simp add: nth_bump_issuer add.assoc)
  moreover have "\<forall>j \<in> set ks. j < ?k" "?k \<le> Suc n" using c(2,4) by auto
  ultimately show ?thesis using c(3,5) unfolding counted_def serials_bump_issuer by blast
qed

lemma ca_inv_bump: "ca_inv n h \<Longrightarrow> ca_inv (Suc n) (bump_issuer issuer h)"
  by (auto simp: ca_inv_def nth_bump_issuer counted_bump)

lemma counted_Suc: "counted n h a \<Longrightarrow> counted (Suc n) h a"
  unfolding counted_def by (meson le_SucI)

lemma ca_inv_Suc: "ca_inv n h \<Longrightarrow> ca_inv (Suc n) h"
  by (auto simp: ca_inv_def counted_Suc)

lemma counted_snoc:
  assumes inv: "counted n h a" "a < length h" and i: "new_identity lib issuer h i"
  shows "counted (Suc n) (bump_issuer issuer h @ [i]) a"
proof (cases "issuer = Some a")
  case False
  then have "serials (bump_issuer issuer h @ [i]) a = serials (bump_issuer issuer h) a"
    using i by (simp add: serials_def new_identity_def)
  moreover have "fi_NextSN ((bump_issuer issuer h @ [i]) ! a) = fi_NextSN (bump_issuer issuer h ! a)"
    using inv(2) by (simp add: nth_append)
  ultimately show ?thesis using counted_bump [OF inv, of issuer] by (simp add: counted_def)
next
  case True
  obtain base k ks where c: "fi_NextSN (h ! a) = base + of_nat k" "k \<le> n" "sorted_wrt (<) ks" "\<forall>j \<in> set ks. j < k"
    "serials h a = map (\<lambda>j. sint (base + of_nat j :: 64 word)) ks"
    using inv(1) by (auto simp: counted_def)
  have "serials (bump_issuer issuer h @ [i]) a = serials h a @ [serial i]"
    using i True by (simp add: serials_bump_issuer [unfolded serials_def] serials_def new_identity_def)
  also have "\<dots> = map (\<lambda>j. sint (base + of_nat j :: 64 word)) (ks @ [k])"
    using i True c(1,5) by (simp add: new_identity_def)
  finally have "serials (bump_issuer issuer h @ [i]) a = map (\<lambda>j. sint (base + of_nat j :: 64 word)) (ks @ [k])" .
  moreover have "fi_NextSN ((bump_issuer issuer h @ [i]) ! a) = base + of_nat (Suc k)"
    using inv(2) True c(1) by (simp add: nth_append nth_bump_issuer add.assoc)
  moreover have "sorted_wrt (<) (ks @ [k])" "\<forall>j \<in> set (ks @ [k]). j < Suc k" "Suc k \<le> Suc n"
    using c(2,3,4) by (auto simp: sorted_wrt_append)
  ultimately show ?thesis unfolding counted_def by blast
qed

lemma ca_inv_snoc:
  assumes inv: "ca_inv n h" and i: "new_identity lib issuer h i"
    and known: "case issuer of None \<Rightarrow> True | Some a \<Rightarrow> a < length h"
  shows "ca_inv (Suc n) (bump_issuer issuer h @ [i])"
proof -
  let ?h = "bump_issuer issuer h @ [i]"
  have "\<not> (fi_Issuer x = Some (length h))" if "x \<in> set ?h" for x
  proof (cases "x = i")
    case True
    then show ?thesis using i known by (auto simp: new_identity_def)
  next
    case False
    then obtain b where b: "b < length h" "x = bump_issuer issuer h ! b"
      using \<open>x \<in> set ?h\<close> by (auto simp: in_set_conv_nth)
    then show ?thesis using inv by (auto simp: nth_bump_issuer ca_inv_def split: option.splits)
  qed
  then have "serials ?h (length h) = []" unfolding serials_def by (simp add: filter_empty_conv)
  then have own: "counted (Suc n) ?h (length h)"
    unfolding counted_def by (intro exI [of _ "fi_NextSN i"] exI [of _ 0] exI [of _ "[]"]) (simp add: nth_append)
  show ?thesis
    unfolding ca_inv_def
  proof (intro allI impI)
    fix a assume a: "a < length ?h"
    show "(case fi_Issuer (?h ! a) of None \<Rightarrow> True | Some b \<Rightarrow> b < a) \<and>
        certificate.PublicKey (fi_Certificate (?h ! a)) = Public (key_signer (fi_PrivateKey (?h ! a))) \<and> counted (Suc n) ?h a"
    proof (cases "a < length h")
      case True
      then have "counted n h a" using inv by (simp add: ca_inv_def)
      then show ?thesis
        using inv True counted_snoc [OF _ True i] by (simp add: nth_append nth_bump_issuer ca_inv_def)
    next
      case False
      then have "a = length h" using a by simp
      then show ?thesis using i known own by (simp add: nth_append new_identity_def split: option.splits)
    qed
  qed
qed

lemma reachable_inv:
  assumes "reachable lib n st" "lawful lib"
  shows "ca_inv n (heap st)"
  using assms
proof (induction rule: reachable.induct)
  case Init
  then show ?case by (simp add: ca_inv_def init_ca_def)
next
  case (New n st opts st' r)
  from New_heap [OF New.hyps(3,2) New.prems] show ?case
    using New.IH [OF New.prems] ca_inv_snoc ca_inv_Suc ca_inv_bump New.hyps(2) unfolding known_def by metis
next
  case (Increment n st a st' r)
  have "bump a (heap st) = bump_issuer (Some a) (heap st)" by (simp add: bump_issuer_def)
  then show ?case
    using Increment IncrementSN_heap(1) [OF Increment.hyps(2)] ca_inv_Suc ca_inv_bump by metis
qed

text \<open>
  C19: No two certificates of one issuer have the same serial number, as long as the package has been
  called fewer than 2^64 times, failed calls and direct calls of \<open>IncrementSN\<close> included. The certificates
  of an issuer are those of the identities that point to it as their issuer; the certificate of a root,
  whose number is drawn at random, is not among its own.
\<close>

theorem serials_distinct:
  assumes "reachable lib n st" "lawful lib" "n < 2 ^ 64" "a < length (heap st)"
  shows "distinct (serials (heap st) a)"
proof -
  obtain base k ks where c: "k \<le> n" "sorted_wrt (<) ks" "\<forall>j \<in> set ks. j < k"
    "serials (heap st) a = map (\<lambda>j. sint (base + of_nat j :: 64 word)) ks"
    using reachable_inv [OF assms(1,2)] assms(4) unfolding ca_inv_def counted_def by blast
  have small: "unat (of_nat j :: 64 word) = j" if "j \<in> set ks" for j
  proof -
    have "j < 2 ^ LENGTH(64)" using that c(1,3) assms(3) by auto
    then show ?thesis by (simp add: unat_of_nat take_bit_nat_eq_self)
  qed
  have "inj_on (\<lambda>j. sint (base + of_nat j :: 64 word)) (set ks)"
  proof (rule inj_onI)
    fix i j assume ij: "i \<in> set ks" "j \<in> set ks" "sint (base + of_nat i) = sint (base + of_nat j)"
    then have "(of_nat i :: 64 word) = of_nat j" using signed_word_eqI by fastforce
    then show "i = j" using small ij(1,2) by metis
  qed
  then show ?thesis using c(2,4) by (simp add: distinct_map strict_sorted_iff)
qed

subsection \<open>Chains\<close>

text \<open>The path of issuers from an identity to a root.\<close>

fun issuer_path :: "fake_identity list \<Rightarrow> ref list \<Rightarrow> bool" where
  "issuer_path h [] = False"
| "issuer_path h [a] = (a < length h \<and> fi_Issuer (h ! a) = None)"
| "issuer_path h (a # b # refs) = (a < length h \<and> fi_Issuer (h ! a) = Some b \<and> issuer_path h (b # refs))"

lemma issuer_path_exists:
  assumes "ca_inv n h" "a < length h"
  obtains refs where "issuer_path h (a # refs)"
proof -
  have "\<exists>refs. issuer_path h (a # refs)"
    using assms(2)
  proof (induction a rule: less_induct)
    case (less a)
    show ?case
    proof (cases "fi_Issuer (h ! a)")
      case None
      then show ?thesis using less.prems by (intro exI [of _ "[]"]) simp
    next
      case (Some b)
      then have b: "b < a" using assms(1) less.prems by (auto simp: ca_inv_def)
      then obtain refs where "issuer_path h (b # refs)" using less.IH [OF b] less.prems by auto
      then show ?thesis using Some less.prems by (intro exI [of _ "b # refs"]) simp
    qed
  qed
  then show thesis using that by blast
qed

lemma chain_loop_path:
  assumes "issuer_path (heap st) (a # refs)"
  shows "chain_loop st (Some a) chain = Some (Ok (chain @ map (\<lambda>r. fi_Certificate (heap st ! r)) (a # refs)))"
  using assms
proof (induction refs arbitrary: a chain)
  case Nil
  then show ?case by (simp add: chain_loop.simps [of _ "Some _"] chain_loop.simps [of _ None] deref_def)
next
  case (Cons b refs)
  then show ?case by (simp add: chain_loop.simps [of _ "Some a"] deref_def)
qed

lemma pool_loop_path:
  assumes "issuer_path (heap st) (a # refs)"
  shows "pool_loop st (Some a) pool = Some (Ok (foldl AddCert pool (map (\<lambda>r. fi_Certificate (heap st ! r)) (a # refs))))"
  using assms
proof (induction refs arbitrary: a pool)
  case Nil
  then show ?case by (simp add: pool_loop.simps [of _ "Some _"] pool_loop.simps [of _ None] deref_def)
next
  case (Cons b refs)
  then show ?case by (simp add: pool_loop.simps [of _ "Some a"] deref_def)
qed

text \<open>
  C29: In every state the package can get into, following the issuers of an identity ends at a root, and
  \<open>Chain\<close> and \<open>ChainPool\<close> collect the certificates on the way, the identity's own first.
\<close>

theorem Chain_path:
  assumes "reachable lib n st" "lawful lib" "a < length (heap st)"
  shows "\<exists>refs. issuer_path (heap st) (a # refs) \<and>
    ca_Chain st a = Some (Ok (map (\<lambda>r. fi_Certificate (heap st ! r)) (a # refs))) \<and>
    ChainPool st a = Some (Ok (foldl AddCert [] (map (\<lambda>r. fi_Certificate (heap st ! r)) (a # refs))))"
proof -
  obtain refs where p: "issuer_path (heap st) (a # refs)"
    by (rule issuer_path_exists [OF reachable_inv [OF assms(1,2)] assms(3)])
  then show ?thesis
    using chain_loop_path [OF p, of "[]"] pool_loop_path [OF p, of "[]"]
    by (intro exI [of _ refs]) (simp add: ca_Chain_def ChainPool_def)
qed

subsection \<open>An identity for the commands\<close>

text \<open>The wrapper of main_test.go, which makes an identity of the package a \<open>certstore.Identity\<close>.\<close>

definition fake_ident :: "ca_state \<times> ref \<Rightarrow> identity" where
  "fake_ident = (\<lambda>(st, a).
     \<lparr>Certificate = obind (deref st a) (\<lambda>i. Ok (fi_Certificate i)),
      CertificateChain = (case ca_Chain st a of Some r \<Rightarrow> r | None \<Rightarrow> Panic (PanicMsg ''timeout'')),
      Signer = obind (deref st a) (\<lambda>i. Ok (key_signer (fi_PrivateKey i))),
      Delete = Err (ErrorString ''not implemented'')\<rparr>)"

interpretation fake: identity_provider
  "\<lambda>(st, a). \<exists>lib n. lawful lib \<and> reachable lib n st \<and> a < length (heap st)" fake_ident
proof unfold_locales
  fix i :: "ca_state \<times> ref"
  assume "case i of (st, a) \<Rightarrow> \<exists>lib n. lawful lib \<and> reachable lib n st \<and> a < length (heap st)"
  then obtain st a lib n where i: "i = (st, a)" "lawful lib" "reachable lib n st" "a < length (heap st)" by auto
  note inv = reachable_inv [OF i(3,2)]
  obtain refs where p: "issuer_path (heap st) (a # refs)" by (rule issuer_path_exists [OF inv i(4)])
  then show "\<exists>cert rest signer. Certificate (fake_ident i) = Ok cert \<and>
    CertificateChain (fake_ident i) = Ok (cert # rest) \<and> Signer (fake_ident i) = Ok signer \<and>
    Public signer = certificate.PublicKey cert"
    using inv i(1,4) chain_loop_path [OF p, of "[]"]
    by (simp add: fake_ident_def deref_def ca_Chain_def ca_inv_def)
qed

subsection \<open>Examples\<close>

definition example_library :: ca_library where
  "example_library =
     \<lparr>rand_Int = (\<lambda>n. Ok 7), GenerateKey = (\<lambda>n. Ok (RSAPrivateKey \<lparr>Public = RSAPublicKey [3],
        Sign_digest = (\<lambda>d _. Ok d)\<rparr> [])),
      CreateCertificate = (\<lambda>templ _ pub _. case pub of
        RSAPublicKey k \<Rightarrow> if 0 \<le> t_SerialNumber templ \<and> t_SerialNumber templ < 256
          then Ok (octet (nat (t_SerialNumber templ)) # k) else Err (ErrorString ''serial number'')
      | _ \<Rightarrow> Err (ErrorString ''key type'')),
      ca_ParseCertificate = (\<lambda>bs. case bs of
        b # k \<Rightarrow> Ok (example_certificate\<lparr>cert_SerialNumber := int (unat b), PublicKey := RSAPublicKey k\<rparr>)
      | [] \<Rightarrow> Err (ErrorString ''malformed'')), ca_now = 0,
      ca_pem = (\<lambda>b. Ok (string_of_bytes (pem_Bytes b))), openssl = (\<lambda>_ b. Ok b)\<rparr>"

lemma uint_octet: "n < 256 \<Longrightarrow> uint (octet n) = int n"
  by (metis of_nat_unat unat_octet_small)

lemma lawful_example: "lawful example_library"
  by (auto simp: lawful_def example_library_def uint_octet nat_less_iff split: public_key.splits if_splits)

text \<open>A root and two certificates it has issued.\<close>

definition example_ca :: ca_state where
  "example_ca = fst (Issue example_library 0 [] (fst (Issue example_library 0 [] (fst (New example_library [] init_ca)))))"

lemma reachable_New:
  assumes "reachable lib n st" "known st (cfg_issuer (configured opts))"
  shows "reachable lib (Suc n) (fst (New lib opts st))"
  by (rule reachable.New [OF assms surjective_pairing])

lemma example_ca:
  "reachable example_library 3 example_ca" "serials (heap example_ca) 0 = [7, 8]" "length (heap example_ca) = 3"
proof -
  let ?s1 = "fst (New example_library [] init_ca)" and ?s2 = "fst (Issue example_library 0 [] (fst (New example_library [] init_ca)))"
  have r1: "reachable example_library (Suc 0) ?s1"
    by (rule reachable_New [OF reachable.Init]) (simp add: configured_def empty_configuration_def known_def)
  have "0 < length (heap ?s1)" "0 < length (heap ?s2)" by code_simp+
  moreover have c: "cfg_issuer (configured ([] @ [ca_Issuer (Some 0)])) = Some 0"
    by (simp add: configured_def empty_configuration_def ca_Issuer_def)
  ultimately have "reachable example_library (Suc (Suc (Suc 0))) example_ca"
    unfolding example_ca_def Issue_def by (intro reachable_New r1 [unfolded Issue_def]) (simp_all add: c known_def Issue_def)
  then show "reachable example_library 3 example_ca" by (simp add: numeral_3_eq_3)
  show "serials (heap example_ca) 0 = [7, 8]" "length (heap example_ca) = 3" by code_simp+
qed

theorem serials_distinct_witness:
  "distinct (serials (heap example_ca) 0) \<and> serials (heap example_ca) 0 = [7, 8]"
  using serials_distinct [OF example_ca(1) lawful_example, of 0] example_ca(2,3) by simp

theorem Chain_path_witness:
  "\<exists>refs. issuer_path (heap example_ca) (2 # refs) \<and>
    ca_Chain example_ca 2 = Some (Ok (map (\<lambda>r. fi_Certificate (heap example_ca ! r)) (2 # refs)))"
  using Chain_path [OF example_ca(1) lawful_example, of 2] example_ca(3) by auto

theorem New_refines_witness:
  "\<exists>own next_sn. abs_ca (fst (New example_library [] init_ca)) = issue_from None own next_sn (abs_ca init_ca)"
proof -
  have "snd (New example_library [] init_ca) = Ok 0" by code_simp
  then have run: "New example_library [] init_ca = (fst (New example_library [] init_ca), Ok 0)"
    by (simp add: prod_eq_iff)
  have "cfg_issuer (configured []) = None" by (simp add: configured_def empty_configuration_def)
  then show ?thesis using New_refines [OF run _ lawful_example] by (auto simp: known_def)
qed

end
