(* ===== verification/Resources.thy ===== *)
theory Resources
  imports Key_Vault
begin

text \<open>
  Operations on a process that calls the operating system.  The state of the system is opaque; what the
  model adds is a ledger of the references (handles, retained objects) that the process has to give
  back: what it owns, and whether it ever gave back what it did not own, which the systems leave
  undefined.  The rules of \<open>owns\<close> follow an operation and say what it adds to the ledger; the locale
  \<open>closable\<close> is the contract of an object that holds references and is closed in the end.
\<close>

subsection \<open>Operations\<close>

type_synonym ('s, 'a) op = "'s \<Rightarrow> 's \<times> 'a outcome"

definition done_op :: "'a outcome \<Rightarrow> ('s, 'a) op" where
  "done_op r s = (s, r)"

definition bind_op :: "('s, 'a) op \<Rightarrow> ('a \<Rightarrow> ('s, 'b) op) \<Rightarrow> ('s, 'b) op" where
  "bind_op m f s = (case m s of (s', r) \<Rightarrow> attempt s' r (\<lambda>x. f x s'))"

text \<open>\<open>defer d\<close>: the deferred call runs when the rest of the function has returned or panicked.\<close>

definition defer_op :: "('s \<Rightarrow> 's) \<Rightarrow> ('s, 'a) op \<Rightarrow> ('s, 'a) op" where
  "defer_op d m s = (case m s of (s', r) \<Rightarrow> (d s', r))"

definition get_op :: "('s \<Rightarrow> ('s, 'a) op) \<Rightarrow> ('s, 'a) op" where
  "get_op f s = f s s"

definition do_op :: "('s \<Rightarrow> 's) \<Rightarrow> ('s, 'a) op \<Rightarrow> ('s, 'a) op" where
  "do_op d m s = m (d s)"

text \<open>\<open>if err != nil { return errors.Wrap(err, msg) }\<close> after a call.\<close>

definition wrap_op :: "string \<Rightarrow> ('s, 'a) op \<Rightarrow> ('s, 'a) op" where
  "wrap_op msg m s = (case m s of (s', r) \<Rightarrow> (s', wrap msg r))"

lemma do_op_id [simp]: "do_op id m = m"
  by (simp add: do_op_def fun_eq_iff)

lemma fst_attempt_same: "(\<And>x. m = Ok x \<Longrightarrow> fst (f x) = s) \<Longrightarrow> fst (attempt s m f) = s"
  by (cases m) auto

fun traverse_op :: "('a \<Rightarrow> ('s, 'b) op) \<Rightarrow> 'a list \<Rightarrow> ('s, 'b list) op" where
  "traverse_op f [] = done_op (Ok [])"
| "traverse_op f (x # xs) = bind_op (f x) (\<lambda>y. bind_op (traverse_op f xs) (\<lambda>ys. done_op (Ok (y # ys))))"

subsection \<open>The process\<close>

record ('w, 'r) process =
  system :: 'w
  owned :: "'r multiset"
  misused :: bool

text \<open>The receiver of a method, an object the method may change.\<close>

record ('w, 'r, 'o) call = "('w, 'r) process" +
  self :: 'o

text \<open>A system call changes the system and returns values; it does not fail in the sense of Go.\<close>

definition sys_op :: "('w \<Rightarrow> 'a \<times> 'w) \<Rightarrow> (('w, 'r, 'z) process_scheme, 'a) op" where
  "sys_op f s = (case f (system s) of (x, w) \<Rightarrow> (s\<lparr>system := w\<rparr>, Ok x))"

definition ask_op :: "('w \<Rightarrow> 'a) \<Rightarrow> (('w, 'r, 'z) process_scheme, 'a) op" where
  "ask_op f s = (s, Ok (f (system s)))"

definition acquire :: "'r \<Rightarrow> ('w, 'r, 'z) process_scheme \<Rightarrow> ('w, 'r, 'z) process_scheme" where
  "acquire r s = s\<lparr>owned := add_mset r (owned s)\<rparr>"

definition release :: "'r \<Rightarrow> ('w, 'r, 'z) process_scheme \<Rightarrow> ('w, 'r, 'z) process_scheme" where
  "release r s = s\<lparr>owned := owned s - {#r#}, misused := misused s \<or> r \<notin># owned s\<rparr>"

definition set_self :: "('o \<Rightarrow> 'o) \<Rightarrow> ('w, 'r, 'o, 'z) call_scheme \<Rightarrow> ('w, 'r, 'o, 'z) call_scheme" where
  "set_self f s = s\<lparr>self := f (self s)\<rparr>"

lemma acquire_simps [simp]:
  "owned (acquire r s) = add_mset r (owned s)" "misused (acquire r s) = misused s"
  "system (acquire r s) = system s"
  by (simp_all add: acquire_def)

lemma release_simps [simp]:
  "owned (release r s) = owned s - {#r#}" "misused (release r s) \<longleftrightarrow> misused s \<or> r \<notin># owned s"
  "system (release r s) = system s"
  by (simp_all add: release_def)

lemma self_simps [simp]:
  "self (acquire r s) = self s" "self (release r s) = self s" "self (set_self f s) = f (self s)"
  "owned (set_self f s) = owned s" "misused (set_self f s) = misused s" "system (set_self f s) = system s"
  by (simp_all add: acquire_def release_def set_self_def)

text \<open>A run that has returned a value, read backwards.\<close>

named_theorems run_simps "inversion of the runs of operations"

lemma bind_op_Ok [run_simps]:
  "bind_op m f s = (s', Ok y) \<longleftrightarrow> (\<exists>t x. m s = (t, Ok x) \<and> f x t = (s', Ok y))"
  by (cases "m s"; cases "snd (m s)") (auto simp: bind_op_def)

lemma defer_op_iff [run_simps]: "defer_op d m s = (s', r) \<longleftrightarrow> (\<exists>t. m s = (t, r) \<and> s' = d t)"
  by (cases "m s") (auto simp: defer_op_def)

lemma done_op_iff [run_simps]: "done_op r s = (s', r') \<longleftrightarrow> s' = s \<and> r = r'"
  by (auto simp: done_op_def)

lemma ask_op_iff [run_simps]: "ask_op f s = (s', r) \<longleftrightarrow> s' = s \<and> Ok (f (system s)) = r"
  by (auto simp: ask_op_def)

lemma wrap_op_Ok [run_simps]: "wrap_op msg m s = (s', Ok y) \<longleftrightarrow> m s = (s', Ok y)"
  by (cases "m s"; cases "snd (m s)") (auto simp: wrap_op_def)

lemmas [run_simps] = get_op_def do_op_def

subsection \<open>What an operation adds to the ledger\<close>

text \<open>
  \<open>owns held a m b c\<close>: started with the references \<open>a\<close> besides those of the part \<open>held\<close> of the state,
  \<open>m\<close> misuses nothing and ends with references that satisfy \<open>b\<close> when it returns a value and \<open>c\<close> when it
  returns an error or panics.  What others own (the frame) is not touched.
\<close>

definition owns :: "(('w, 'r, 'z) process_scheme \<Rightarrow> 'r multiset) \<Rightarrow> 'r multiset \<Rightarrow>
    (('w, 'r, 'z) process_scheme, 'a) op \<Rightarrow> ('a \<Rightarrow> 'r multiset \<Rightarrow> bool) \<Rightarrow> ('r multiset \<Rightarrow> bool) \<Rightarrow> bool" where
  "owns held a m b c \<longleftrightarrow>
     (\<forall>s F. owned s = F + held s + a \<and> \<not> misused s \<longrightarrow>
        (\<exists>x. owned (fst (m s)) = F + held (fst (m s)) + x \<and> \<not> misused (fst (m s)) \<and>
          (case snd (m s) of Ok y \<Rightarrow> b y x | _ \<Rightarrow> c x)))"

abbreviation nothing :: "'r multiset \<Rightarrow> bool" where
  "nothing x \<equiv> x = {#}"

abbreviation tidy :: "(('w, 'r, 'z) process_scheme \<Rightarrow> 'r multiset) \<Rightarrow> (('w, 'r, 'z) process_scheme, 'a) op \<Rightarrow> bool" where
  "tidy held m \<equiv> owns held {#} m (\<lambda>_. nothing) nothing"

text \<open>An operation that may leave references behind, but misuses none.\<close>

abbreviation safe :: "(('w, 'r, 'z) process_scheme \<Rightarrow> 'r multiset) \<Rightarrow> (('w, 'r, 'z) process_scheme, 'a) op \<Rightarrow> bool" where
  "safe held m \<equiv> owns held {#} m (\<lambda>_ _. True) (\<lambda>_. True)"

named_theorems owns_rules "what operations add to the ledger"

lemma ownsI:
  assumes "\<And>s F. \<lbrakk>owned s = F + held s + a; \<not> misused s\<rbrakk> \<Longrightarrow>
    (\<exists>x. owned (fst (m s)) = F + held (fst (m s)) + x \<and> \<not> misused (fst (m s)) \<and>
      (case snd (m s) of Ok y \<Rightarrow> b y x | _ \<Rightarrow> c x))"
  shows "owns held a m b c"
  using assms by (auto simp: owns_def)

lemma ownsD:
  assumes "owns held a m b c" "owned s = F + held s + a" "\<not> misused s" "m s = (s', r)"
  obtains x where "owned s' = F + held s' + x" "\<not> misused s'"
    "case r of Ok y \<Rightarrow> b y x | _ \<Rightarrow> c x"
  using assms unfolding owns_def by (metis fst_conv snd_conv)

lemma owns_weaken:
  assumes "owns held a m b c" "\<And>y x. b y x \<Longrightarrow> b' y x" "\<And>x. c x \<Longrightarrow> c' x"
  shows "owns held a m b' c'"
proof (rule ownsI)
  fix s F assume "owned s = F + held s + a" "\<not> misused s"
  then obtain x where x: "owned (fst (m s)) = F + held (fst (m s)) + x" "\<not> misused (fst (m s))"
    "case snd (m s) of Ok y \<Rightarrow> b y x | _ \<Rightarrow> c x" using assms(1) unfolding owns_def by blast
  then have "case snd (m s) of Ok y \<Rightarrow> b' y x | _ \<Rightarrow> c' x"
    using assms(2,3) by (auto split: outcome.splits)
  then show "\<exists>x. owned (fst (m s)) = F + held (fst (m s)) + x \<and> \<not> misused (fst (m s)) \<and>
    (case snd (m s) of Ok y \<Rightarrow> b' y x | _ \<Rightarrow> c' x)" using x by blast
qed

lemma safe_tidy: "tidy held m \<Longrightarrow> safe held m"
  by (erule owns_weaken) auto

lemma owns_bind:
  assumes "owns held a m b c" "\<And>y x. b y x \<Longrightarrow> owns held x (f y) d e" "\<And>x. c x \<Longrightarrow> e x"
  shows "owns held a (bind_op m f) d e"
proof (rule ownsI)
  fix s F assume s: "owned s = F + held s + a" "\<not> misused s"
  obtain s' r where m: "m s = (s', r)" by (cases "m s")
  obtain x where x: "owned s' = F + held s' + x" "\<not> misused s'" "case r of Ok y \<Rightarrow> b y x | _ \<Rightarrow> c x"
    using assms(1) s m by (rule ownsD)
  show "\<exists>x. owned (fst (bind_op m f s)) = F + held (fst (bind_op m f s)) + x \<and>
    \<not> misused (fst (bind_op m f s)) \<and> (case snd (bind_op m f s) of Ok y \<Rightarrow> d y x | _ \<Rightarrow> e x)"
  proof (cases r)
    case (Ok y)
    then have "owns held x (f y) d e" using x(3) assms(2) by simp
    then show ?thesis using x(1,2) m Ok unfolding owns_def bind_op_def by simp
  qed (use x assms(3) m in \<open>auto simp: bind_op_def\<close>)
qed

lemma owns_if [owns_rules]:
  "\<lbrakk>P \<Longrightarrow> owns held a m b c; \<not> P \<Longrightarrow> owns held a n b c\<rbrakk> \<Longrightarrow> owns held a (if P then m else n) b c"
  by simp

text \<open>References the operation does not know of stay where they are.\<close>

lemma owns_frame:
  assumes "owns held a m b c"
  shows "owns held (d + a) m (\<lambda>y x. \<exists>x'. x = d + x' \<and> b y x') (\<lambda>x. \<exists>x'. x = d + x' \<and> c x')"
proof (rule ownsI)
  fix s F assume s: "owned s = F + held s + (d + a)" "\<not> misused s"
  then have "owned s = (F + d) + held s + a" by (simp add: ac_simps)
  then obtain x where x: "owned (fst (m s)) = (F + d) + held (fst (m s)) + x" "\<not> misused (fst (m s))"
    "case snd (m s) of Ok y \<Rightarrow> b y x | _ \<Rightarrow> c x" using assms s(2) unfolding owns_def by blast
  then show "\<exists>x. owned (fst (m s)) = F + held (fst (m s)) + x \<and> \<not> misused (fst (m s)) \<and>
    (case snd (m s) of Ok y \<Rightarrow> \<exists>x'. x = d + x' \<and> b y x' | _ \<Rightarrow> \<exists>x'. x = d + x' \<and> c x')"
    by (intro exI [of _ "d + x"] conjI) (simp_all add: add.assoc add.left_commute split: outcome.splits)
qed

lemma owns_bind_tidy:
  assumes "tidy held m" "\<And>y. owns held a (f y) d e" "e a"
  shows "owns held a (bind_op m f) d e"
proof (rule owns_bind)
  show "owns held a m (\<lambda>_ x. x = a) (\<lambda>x. x = a)"
    using owns_frame [OF assms(1), of a] by simp
qed (use assms in auto)

lemma owns_bind_done [owns_rules]:
  "\<lbrakk>\<And>y. r = Ok y \<Longrightarrow> owns held a (f y) b c; \<not> is_ok r \<Longrightarrow> c a\<rbrakk> \<Longrightarrow> owns held a (bind_op (done_op r) f) b c"
  by (cases r) (auto simp: owns_def bind_op_def done_op_def)

text \<open>The references held depend on the receiver only.\<close>

definition stable :: "(('w, 'r, 'z) process_scheme \<Rightarrow> 'r multiset) \<Rightarrow> bool" where
  "stable held \<longleftrightarrow> (\<forall>s w r. held (s\<lparr>system := w\<rparr>) = held s \<and> held (acquire r s) = held s \<and>
     held (release r s) = held s)"

lemma stable_simps:
  assumes "stable held"
  shows "held (s\<lparr>system := w\<rparr>) = held s" "held (acquire r s) = held s" "held (release r s) = held s"
  using assms by (simp_all add: stable_def)

lemma owns_bind_ask [owns_rules]:
  "(\<And>x. owns held a (f x) b c) \<Longrightarrow> owns held a (bind_op (ask_op g) f) b c"
  by (auto simp: owns_def bind_op_def ask_op_def)

lemma owns_bind_sys [owns_rules]:
  assumes "stable held" "\<And>x. owns held a (f x) b c"
  shows "owns held a (bind_op (sys_op g) f) b c"
  using assms(2) by (simp add: owns_def bind_op_def sys_op_def stable_simps [OF assms(1)] split: prod.split)

lemma owns_release:
  assumes "owns held a m b c" "stable held"
  shows "owns held (add_mset r a) (do_op (release r) m) b c"
proof (rule ownsI)
  fix s F assume "owned s = F + held s + add_mset r a" "\<not> misused s"
  then have "owned (release r s) = F + held (release r s) + a" "\<not> misused (release r s)"
    by (simp_all add: stable_simps [OF assms(2)])
  then show "\<exists>x. owned (fst (do_op (release r) m s)) = F + held (fst (do_op (release r) m s)) + x \<and>
    \<not> misused (fst (do_op (release r) m s)) \<and>
    (case snd (do_op (release r) m s) of Ok y \<Rightarrow> b y x | _ \<Rightarrow> c x)"
    using assms(1) unfolding owns_def do_op_def by blast
qed

lemma owns_acquire:
  assumes "owns held (add_mset r a) m b c" "stable held"
  shows "owns held a (do_op (acquire r) m) b c"
proof (rule ownsI)
  fix s F assume "owned s = F + held s + a" "\<not> misused s"
  then have "owned (acquire r s) = F + held (acquire r s) + add_mset r a" "\<not> misused (acquire r s)"
    by (simp_all add: stable_simps [OF assms(2)])
  then show "\<exists>x. owned (fst (do_op (acquire r) m s)) = F + held (fst (do_op (acquire r) m s)) + x \<and>
    \<not> misused (fst (do_op (acquire r) m s)) \<and>
    (case snd (do_op (acquire r) m s) of Ok y \<Rightarrow> b y x | _ \<Rightarrow> c x)"
    using assms(1) unfolding owns_def do_op_def by blast
qed

lemma owns_bind_check [owns_rules]:
  "\<lbrakk>\<And>y. r = Ok y \<Longrightarrow> owns held a (f y) b c; \<not> is_ok r \<Longrightarrow> c a\<rbrakk> \<Longrightarrow>
     owns held a (bind_op (wrap_op msg (done_op r)) f) b c"
  by (cases r) (auto simp: owns_def bind_op_def done_op_def wrap_op_def)

lemma owns_prod [owns_rules]: "(\<And>x y. owns held a (f x y) b c) \<Longrightarrow> owns held a (case p of (x, y) \<Rightarrow> f x y) b c"
  by (cases p) simp

text \<open>A reference that is released at the end is part of the frame in between.\<close>

lemma owns_defer_release:
  assumes "owns held a m b c" and "stable held"
  shows "owns held (add_mset r a) (defer_op (release r) m) b c"
proof (rule ownsI)
  fix s F assume s: "owned s = F + held s + add_mset r a" "\<not> misused s"
  then have s': "owned s = add_mset r F + held s + a" by simp
  obtain t q where m: "m s = (t, q)" by (cases "m s")
  obtain x where "owned t = add_mset r F + held t + x" "\<not> misused t" "case q of Ok y \<Rightarrow> b y x | _ \<Rightarrow> c x"
    using assms(1) s' s(2) m by (rule ownsD)
  then show "\<exists>x. owned (fst (defer_op (release r) m s)) = F + held (fst (defer_op (release r) m s)) + x \<and>
    \<not> misused (fst (defer_op (release r) m s)) \<and>
    (case snd (defer_op (release r) m s) of Ok y \<Rightarrow> b y x | _ \<Rightarrow> c x)"
    using m by (auto simp: defer_op_def stable_simps [OF assms(2)])
qed

lemma owns_done [owns_rules]:
  "(case r of Ok y \<Rightarrow> b y a | _ \<Rightarrow> c a) \<Longrightarrow> owns held a (done_op r) b c"
  by (rule ownsI) (auto simp: done_op_def)

lemma owns_get: "(\<And>s. owns held a (f s) b c) \<Longrightarrow> owns held a (get_op f) b c"
  by (simp add: owns_def get_op_def)

lemma owns_wrap [owns_rules]: "owns held a m b c \<Longrightarrow> owns held a (wrap_op msg m) b c"
proof (rule ownsI)
  fix s F assume m: "owns held a m b c" and s: "owned s = F + held s + a" "\<not> misused s"
  obtain t q where "m s = (t, q)" by (cases "m s")
  moreover from m s this obtain x where "owned t = F + held t + x" "\<not> misused t"
    "case q of Ok y \<Rightarrow> b y x | _ \<Rightarrow> c x" by (rule ownsD)
  ultimately show "\<exists>x. owned (fst (wrap_op msg m s)) = F + held (fst (wrap_op msg m s)) + x \<and>
    \<not> misused (fst (wrap_op msg m s)) \<and> (case snd (wrap_op msg m s) of Ok y \<Rightarrow> b y x | _ \<Rightarrow> c x)"
    by (cases q) (auto simp: wrap_op_def)
qed

subsection \<open>Go's standard library\<close>

text \<open>
  \<open>crypto.Hash.Size\<close>: the table of the package crypto, indexed by the number of the hash.
\<close>

definition digestSizes :: "nat list" where
  "digestSizes = [0, 16, 16, 20, 28, 32, 48, 64, 36, 20, 28, 32, 48, 64, 28, 32, 32, 32, 48, 64]"

fun hash_number :: "crypto_hash \<Rightarrow> nat" where
  "hash_number NoHash = 0"
| "hash_number MD5 = 2"
| "hash_number SHA1 = 3"
| "hash_number SHA256 = 5"
| "hash_number SHA384 = 6"
| "hash_number SHA512 = 7"
| "hash_number (OtherHash n) = n"

definition Hash_Size :: "crypto_hash \<Rightarrow> nat outcome" where
  "Hash_Size h = (if 0 < hash_number h \<and> hash_number h < length digestSizes
     then Ok (digestSizes ! hash_number h)
     else Panic (PanicMsg ''crypto: Size of unknown hash function''))"

lemma Hash_Size_SHA [simp]:
  "Hash_Size SHA1 = Ok 20" "Hash_Size SHA256 = Ok 32" "Hash_Size SHA384 = Ok 48" "Hash_Size SHA512 = Ok 64"
  by (simp_all add: Hash_Size_def digestSizes_def)

text \<open>
  \<open>C.GoBytes(p, C.int(n))\<close>: the length is cut to 32 bits and read as a signed number.
\<close>

definition C_int :: "nat \<Rightarrow> int" where
  "C_int n = sint (of_nat n :: 32 word)"

definition GoBytes :: "bytes \<Rightarrow> bytes outcome" where
  "GoBytes bs = (let n = C_int (length bs) in
     if n < 0 then Panic (PanicMsg ''gobytes: length out of range'') else Ok (take (nat n) bs))"

text \<open>What a process holds through its receiver; a plain process has no receiver.\<close>

definition self_refs :: "('o \<Rightarrow> 'r multiset) \<Rightarrow> ('w, 'r, 'o) call \<Rightarrow> 'r multiset" where
  "self_refs refs s = refs (self s)"

definition no_refs :: "('w, 'r, 'z) process_scheme \<Rightarrow> 'r multiset" where
  "no_refs s = {#}"

lemma stable_refs [simp]: "stable (self_refs refs)" "stable no_refs"
  by (simp_all add: stable_def self_refs_def no_refs_def)

lemma owns_set_self [owns_rules]:
  fixes m :: "(('w, 'r, 'o) call, 'a) op"
  assumes "owns (self_refs refs) a m b c" "\<And>i. refs (f i) = refs i"
  shows "owns (self_refs refs) a (do_op (set_self f) m) b c"
proof (rule ownsI)
  fix s :: "('w, 'r, 'o) call" and F assume "owned s = F + self_refs refs s + a" "\<not> misused s"
  then have "owned (set_self f s) = F + self_refs refs (set_self f s) + a" "\<not> misused (set_self f s)"
    by (simp_all add: self_refs_def assms(2))
  then show "\<exists>x. owned (fst (do_op (set_self f) m s)) = F + self_refs refs (fst (do_op (set_self f) m s)) + x \<and>
    \<not> misused (fst (do_op (set_self f) m s)) \<and>
    (case snd (do_op (set_self f) m s) of Ok y \<Rightarrow> b y x | _ \<Rightarrow> c x)"
    using assms(1) unfolding owns_def do_op_def by blast
qed

subsection \<open>Objects that hold references\<close>

text \<open>
  \<open>runs calls opens\<close>: a process that makes objects and calls their methods, in any order.
\<close>

definition on_object :: "nat \<Rightarrow> (('w, 'r, 'o) call \<Rightarrow> ('w, 'r, 'o) call) \<Rightarrow>
    ('w, 'r) process \<times> 'o list \<Rightarrow> ('w, 'r) process \<times> 'o list" where
  "on_object k c st = (case st of (p, objs) \<Rightarrow>
     let s = c \<lparr>system = system p, owned = owned p, misused = misused p, self = objs ! k\<rparr> in
     (process.truncate s, objs[k := self s]))"

definition made :: "'o list outcome \<Rightarrow> 'o list" where
  "made r = (case r of Ok objs \<Rightarrow> objs | _ \<Rightarrow> [])"

inductive runs :: "(('w, 'r, 'o) call \<Rightarrow> ('w, 'r, 'o) call) set \<Rightarrow>
    (('w, 'r) process \<Rightarrow> ('w, 'r) process \<Rightarrow> 'o list outcome \<Rightarrow> bool) \<Rightarrow>
    ('w, 'r) process \<times> 'o list \<Rightarrow> ('w, 'r) process \<times> 'o list \<Rightarrow> bool"
  for calls opens st where
  Start: "runs calls opens st st"
| Open: "runs calls opens st (p, objs) \<Longrightarrow> opens p p' r \<Longrightarrow> runs calls opens st (p', objs @ made r)"
| Call: "runs calls opens st st' \<Longrightarrow> c \<in> calls \<Longrightarrow> k < length (snd st') \<Longrightarrow>
    runs calls opens st (on_object k c st')"

definition held_by :: "('o \<Rightarrow> 'r multiset) \<Rightarrow> 'o list \<Rightarrow> 'r multiset" where
  "held_by refs objs = sum_list (map refs objs)"

definition close_all :: "(('w, 'r, 'o) call \<Rightarrow> ('w, 'r, 'o) call) \<Rightarrow>
    ('w, 'r) process \<times> 'o list \<Rightarrow> ('w, 'r) process \<times> 'o list" where
  "close_all close st = fold (\<lambda>k. on_object k close) [0..<length (snd st)] st"

lemma held_by_simps [simp]:
  "held_by refs [] = {#}" "held_by refs (ob # objs) = refs ob + held_by refs objs"
  "held_by refs (objs @ objs') = held_by refs objs + held_by refs objs'"
  by (simp_all add: held_by_def)

lemma held_by_empty: "(\<And>ob. ob \<in> set objs \<Longrightarrow> refs ob = {#}) \<Longrightarrow> held_by refs objs = {#}"
  by (induction objs) auto

lemma length_on_object [simp]: "length (snd (on_object k c st)) = length (snd st)"
  by (simp add: on_object_def Let_def split: prod.split)

definition keeps :: "('o \<Rightarrow> 'r multiset) \<Rightarrow> (('w, 'r, 'o) call \<Rightarrow> ('w, 'r, 'o) call) \<Rightarrow> ('r multiset \<Rightarrow> bool) \<Rightarrow> bool" where
  "keeps refs c leak \<longleftrightarrow> (\<forall>s F. owned s = F + refs (self s) \<and> \<not> misused s \<longrightarrow>
     (\<exists>x. owned (c s) = F + refs (self (c s)) + x \<and> \<not> misused (c s) \<and> leak x))"

lemma keepsD:
  assumes "keeps refs c leak" "owned s = F + refs (self s)" "\<not> misused s"
  obtains x where "owned (c s) = F + refs (self (c s)) + x" "\<not> misused (c s)" "leak x"
  using assms unfolding keeps_def by blast

lemma keeps_owns:
  fixes m :: "(('w, 'r, 'o) call, 'a) op"
  assumes "owns (self_refs refs) {#} m b c" "\<And>y x. b y x \<Longrightarrow> leak x" "\<And>x. c x \<Longrightarrow> leak x"
  shows "keeps refs (\<lambda>s. fst (m s)) leak"
  unfolding keeps_def
proof (intro allI impI)
  fix s :: "('w, 'r, 'o) call" and F assume s: "owned s = F + refs (self s) \<and> \<not> misused s"
  obtain t r where m: "m s = (t, r)" by (cases "m s")
  have "owned s = F + self_refs refs s + {#}" "\<not> misused s" using s by (simp_all add: self_refs_def)
  with assms(1) obtain x where "owned t = F + self_refs refs t + x" "\<not> misused t"
    "case r of Ok y \<Rightarrow> b y x | _ \<Rightarrow> c x" using m by (rule ownsD)
  then show "\<exists>x. owned (fst (m s)) = F + refs (self (fst (m s))) + x \<and> \<not> misused (fst (m s)) \<and> leak x"
    using assms(2,3) m by (cases r) (auto simp: self_refs_def)
qed

text \<open>
  The contract: a method keeps the ledger, up to what it may leave behind; \<open>close\<close> gives back exactly
  what the object holds.
\<close>

locale closable =
  fixes refs :: "'o \<Rightarrow> 'r multiset" and calls :: "(('w, 'r, 'o) call \<Rightarrow> ('w, 'r, 'o) call) set"
    and opens :: "('w, 'r) process \<Rightarrow> ('w, 'r) process \<Rightarrow> 'o list outcome \<Rightarrow> bool"
    and close :: "('w, 'r, 'o) call \<Rightarrow> ('w, 'r, 'o) call"
    and leak :: "'r multiset \<Rightarrow> bool"
  assumes leak_none: "leak {#}" and leak_add: "leak x \<Longrightarrow> leak y \<Longrightarrow> leak (x + y)"
    and calls_keep: "c \<in> calls \<Longrightarrow> keeps refs c leak"
    and opens_hold: "opens p p' r \<Longrightarrow> \<not> misused p \<Longrightarrow>
      \<not> misused p' \<and> (\<exists>x. owned p' = owned p + held_by refs (made r) + x \<and> leak x)"
    and close_keeps: "keeps refs close (\<lambda>x. x = {#})" and close_empty: "refs (self (close s)) = {#}"
begin

lemma on_object_keeps:
  assumes "keeps refs c leak'" "owned p = F + held_by refs objs" "\<not> misused p" "k < length objs"
    and "on_object k c (p, objs) = (p', objs')"
  shows "\<exists>x. owned p' = F + held_by refs objs' + x \<and> \<not> misused p' \<and> leak' x"
proof -
  let ?s = "\<lparr>system = system p, owned = owned p, misused = misused p, self = objs ! k\<rparr>"
  define G where "G = held_by refs (take k objs) + held_by refs (drop (Suc k) objs)"
  have split: "held_by refs (objs[k := ob]) = G + refs ob" for ob
    using assms(4) by (simp add: G_def upd_conv_take_nth_drop ac_simps)
  have "objs[k := objs ! k] = objs" by simp
  then have "owned ?s = (F + G) + refs (self ?s)"
    using split [of "objs ! k"] assms(2) by (simp add: ac_simps)
  moreover have "\<not> misused ?s" using assms(3) by simp
  ultimately obtain x where "owned (c ?s) = (F + G) + refs (self (c ?s)) + x" "\<not> misused (c ?s)" "leak' x"
    using assms(1) by (blast elim: keepsD)
  moreover have "p' = process.truncate (c ?s)" "objs' = objs[k := self (c ?s)]"
    using assms(5) by (simp_all add: on_object_def Let_def)
  ultimately show ?thesis
    by (intro exI [of _ x]) (simp add: split ac_simps process.truncate_def)
qed

theorem ledger:
  assumes "runs calls opens (p, objs) (p', objs')" "owned p = F + held_by refs objs" "\<not> misused p"
  shows "\<exists>x. owned p' = F + held_by refs objs' + x \<and> \<not> misused p' \<and> leak x"
  using assms(1)
proof (induction "(p', objs')" arbitrary: p' objs')
  case Start
  then show ?case using assms(2,3) leak_none by (intro exI [of _ "{#}"]) simp
next
  case (Open p1 objs1 p2 r)
  then obtain x y where "owned p1 = F + held_by refs objs1 + x" "leak x" "\<not> misused p1"
    "\<not> misused p2" "owned p2 = owned p1 + held_by refs (made r) + y" "leak y"
    using opens_hold by metis
  then show ?case by (intro exI [of _ "x + y"]) (simp add: ac_simps leak_add)
next
  case (Call st' c k)
  obtain p1 objs1 where st': "st' = (p1, objs1)" by (cases st')
  obtain x where x: "owned p1 = F + held_by refs objs1 + x" "\<not> misused p1" "leak x"
    using Call(2) st' by blast
  have "owned p1 = (F + x) + held_by refs objs1" using x(1) by (simp add: ac_simps)
  moreover have "k < length objs1" "on_object k c (p1, objs1) = (p', objs')" using Call st' by simp_all
  ultimately obtain y where "owned p' = (F + x) + held_by refs objs' + y" "\<not> misused p'" "leak y"
    using on_object_keeps [OF calls_keep [OF Call(3)], of p1 "F + x"] x(2) by blast
  then show ?case using x(3) by (intro exI [of _ "x + y"]) (simp add: ac_simps leak_add)
qed

lemma close_first:
  assumes "owned p = F + held_by refs objs" "\<not> misused p" "n \<le> length objs"
    and "fold (\<lambda>k. on_object k close) [0..<n] (p, objs) = (p', objs')"
  shows "length objs' = length objs \<and> owned p' = F + held_by refs objs' \<and> \<not> misused p' \<and>
    (\<forall>k<n. refs (objs' ! k) = {#})"
  using assms(3,4)
proof (induction n arbitrary: p' objs')
  case 0
  then show ?case using assms(1,2) by simp
next
  case (Suc n)
  obtain p1 objs1 where f: "fold (\<lambda>k. on_object k close) [0..<n] (p, objs) = (p1, objs1)" by fastforce
  have IH: "length objs1 = length objs" "owned p1 = F + held_by refs objs1" "\<not> misused p1"
    "\<forall>k<n. refs (objs1 ! k) = {#}" using Suc.IH [OF _ f] Suc.prems(1) by auto
  have o': "on_object n close (p1, objs1) = (p', objs')" using Suc.prems(2) f by simp
  have n: "n < length objs1" using IH(1) Suc.prems(1) by simp
  from on_object_keeps [OF close_keeps IH(2,3) n o']
  have "owned p' = F + held_by refs objs'" "\<not> misused p'" by auto
  moreover obtain ob where "objs' = objs1[n := ob]" "refs ob = {#}"
    using o' close_empty by (auto simp: on_object_def Let_def)
  ultimately show ?case using IH(1,4) n by (auto simp: less_Suc_eq nth_list_update)
qed

theorem all_closed:
  assumes "runs calls opens (p, []) st" "\<not> misused p" "close_all close st = (p', objs')"
  shows "\<exists>x. owned p' = owned p + x \<and> \<not> misused p' \<and> leak x"
proof -
  obtain p1 objs1 where st: "st = (p1, objs1)" by (cases st)
  from ledger [of p "[]" p1 objs1 "owned p"] assms(1,2) st
  obtain x where x: "owned p1 = owned p + held_by refs objs1 + x" "\<not> misused p1" "leak x" by auto
  have "owned p1 = (owned p + x) + held_by refs objs1" using x(1) by (simp add: ac_simps)
  moreover have "fold (\<lambda>k. on_object k close) [0..<length objs1] (p1, objs1) = (p', objs')"
    using assms(3) st by (simp add: close_all_def)
  ultimately have c: "length objs' = length objs1 \<and> owned p' = (owned p + x) + held_by refs objs' \<and>
    \<not> misused p' \<and> (\<forall>k<length objs1. refs (objs' ! k) = {#})"
    using x(2) by (intro close_first) simp_all
  have "held_by refs objs' = {#}"
    using c by (intro held_by_empty) (auto simp: in_set_conv_nth)
  then show ?thesis using c x(3) by (intro exI [of _ x]) simp
qed

end

end
