(* ===== verification/Mac_Store.thy ===== *)
theory Mac_Store
  imports Resources
begin

text \<open>
  The certificate store of macOS (certstore/certstore_darwin.go).  The functions of Core Foundation and
  of the Security framework are the fields of \<open>mac_os\<close>; each is given the state of the system and
  returns it.  A reference is a number, 0 the nil reference.  By the naming rule of Core Foundation the
  caller owns what a function with Create or Copy in its name returns, which the ledger records.
\<close>

type_synonym cfref = nat

datatype cf_constant = kSecClass | kSecClassIdentity | kSecReturnRef | kCFBooleanTrue | kSecMatchLimit
  | kSecMatchLimitAll | kSecMatchItemList | kSecImportExportPassphrase

datatype cf_value = Constant cf_constant | Object cfref

datatype sec_key_algorithm =
    kSecKeyAlgorithmNone
  | kSecKeyAlgorithmECDSASignatureDigestX962SHA1
  | kSecKeyAlgorithmECDSASignatureDigestX962SHA256
  | kSecKeyAlgorithmECDSASignatureDigestX962SHA384
  | kSecKeyAlgorithmECDSASignatureDigestX962SHA512
  | kSecKeyAlgorithmRSASignatureDigestPKCS1v15SHA1
  | kSecKeyAlgorithmRSASignatureDigestPKCS1v15SHA256
  | kSecKeyAlgorithmRSASignatureDigestPKCS1v15SHA384
  | kSecKeyAlgorithmRSASignatureDigestPKCS1v15SHA512

text \<open>
  What the code calls.  An \<open>OSStatus\<close> is an \<open>int\<close>; results through pointers are returned beside it.
\<close>

record 'w mac_os =
  CFDictionaryCreate :: "(cf_value \<rightharpoonup> cf_value) \<Rightarrow> 'w \<Rightarrow> cfref \<times> 'w"
  CFArrayCreate :: "cfref list \<Rightarrow> 'w \<Rightarrow> cfref \<times> 'w"
  CFArrayGetCount :: "cfref \<Rightarrow> 'w \<Rightarrow> int"
  CFArrayGetValueAtIndex :: "cfref \<Rightarrow> nat \<Rightarrow> 'w \<Rightarrow> cfref"
  CFDataCreate :: "bytes \<Rightarrow> 'w \<Rightarrow> cfref \<times> 'w"
  CFData_bytes :: "cfref \<Rightarrow> 'w \<Rightarrow> bytes"
  CFStringCreateWithCString :: "string \<Rightarrow> 'w \<Rightarrow> cfref \<times> 'w"
  CFStringGetCStringPtr :: "cfref \<Rightarrow> 'w \<Rightarrow> string option"
  CFErrorGetCode :: "cfref \<Rightarrow> 'w \<Rightarrow> int"
  CFErrorCopyDescription :: "cfref \<Rightarrow> 'w \<Rightarrow> cfref \<times> 'w"
  SecItemCopyMatching :: "cfref \<Rightarrow> 'w \<Rightarrow> (int \<times> cfref) \<times> 'w"
  SecItemDelete :: "cfref \<Rightarrow> 'w \<Rightarrow> int \<times> 'w"
  SecPKCS12Import :: "cfref \<Rightarrow> cfref \<Rightarrow> 'w \<Rightarrow> (int \<times> cfref) \<times> 'w"
  SecIdentityCopyCertificate :: "cfref \<Rightarrow> 'w \<Rightarrow> (int \<times> cfref) \<times> 'w"
  SecIdentityCopyPrivateKey :: "cfref \<Rightarrow> 'w \<Rightarrow> (int \<times> cfref) \<times> 'w"
  SecCertificateCopyData :: "cfref \<Rightarrow> 'w \<Rightarrow> cfref \<times> 'w"
  SecPolicyCreateSSL :: "'w \<Rightarrow> cfref \<times> 'w"
  SecTrustCreateWithCertificates :: "cfref \<Rightarrow> cfref \<Rightarrow> 'w \<Rightarrow> (int \<times> cfref) \<times> 'w"
  SecTrustEvaluateWithError :: "cfref \<Rightarrow> 'w \<Rightarrow> (bool \<times> cfref) \<times> 'w"
  SecTrustGetCertificateCount :: "cfref \<Rightarrow> 'w \<Rightarrow> int"
  SecTrustCopyCertificateChain :: "cfref \<Rightarrow> 'w \<Rightarrow> cfref \<times> 'w"
  SecKeyCreateSignature :: "cfref \<Rightarrow> sec_key_algorithm \<Rightarrow> cfref \<Rightarrow> 'w \<Rightarrow> (cfref \<times> cfref) \<times> 'w"
  mac_ParseCertificate :: "bytes \<Rightarrow> certificate outcome"

type_synonym ('w, 'z, 'a) mac_op = "(('w, cfref, 'z) process_scheme, 'a) op"

definition cf_own :: "cfref \<Rightarrow> ('w, cfref, 'z) process_scheme \<Rightarrow> ('w, cfref, 'z) process_scheme" where
  "cf_own r s = (if r = 0 then s else acquire r s)"

definition cf_create :: "('w \<Rightarrow> cfref \<times> 'w) \<Rightarrow> ('w, 'z, cfref) mac_op" where
  "cf_create f s = (case f (system s) of (r, w) \<Rightarrow> (cf_own r (s\<lparr>system := w\<rparr>), Ok r))"

text \<open>\<open>osStatusError\<close>, and a function that returns a status and, when it is 0, a reference.\<close>

definition errSecItemNotFound :: int where
  "errSecItemNotFound = - 25300"

definition osStatusError :: "int \<Rightarrow> unit outcome" where
  "osStatusError status = (if status = 0 then Ok () else Err (osStatus status))"

definition osStatus_Error :: "int \<Rightarrow> string" where
  "osStatus_Error status = ''OSStatus '' @ show_int status"

definition cf_copy :: "('w \<Rightarrow> (int \<times> cfref) \<times> 'w) \<Rightarrow> ('w, 'z, int \<times> cfref) mac_op" where
  "cf_copy f s = (case f (system s) of ((status, r), w) \<Rightarrow>
     ((if status = 0 then cf_own r else id) (s\<lparr>system := w\<rparr>), Ok (status, r)))"

subsection \<open>Conversions\<close>

text \<open>A C string ends at the first NUL.\<close>

definition stringToCFString :: "'w mac_os \<Rightarrow> string \<Rightarrow> ('w, 'z, cfref) mac_op" where
  "stringToCFString os gostr = cf_create (CFStringCreateWithCString os (takeWhile (\<lambda>ch. ch \<noteq> CHR 0x00) gostr))"

text \<open>The entries of the Go map in the order in which the loop meets them.\<close>

definition mapToCFDictionary :: "'w mac_os \<Rightarrow> (cf_value \<times> cf_value) list \<Rightarrow> ('w, 'z, cfref) mac_op" where
  "mapToCFDictionary os gomap =
     (if length gomap = 0 then done_op (Panic IndexOutOfRange)
      else cf_create (CFDictionaryCreate os (map_of gomap)))"

definition cfDataToBytes :: "'w mac_os \<Rightarrow> cfref \<Rightarrow> ('w, 'z, bytes) mac_op" where
  "cfDataToBytes os cfdata = bind_op (ask_op (CFData_bytes os cfdata)) (\<lambda>bs. done_op (GoBytes bs))"

definition bytesToCFData :: "'w mac_os \<Rightarrow> bytes \<Rightarrow> ('w, 'z, cfref) mac_op" where
  "bytesToCFData os gobytes =
     bind_op (cf_create (CFDataCreate os gobytes)) (\<lambda>cdata.
       if cdata = 0 then done_op (Err (ErrorString ''error creatin cfdata'')) else done_op (Ok cdata))"

definition cfErrorError :: "'w mac_os \<Rightarrow> cfref \<Rightarrow> ('w, 'z, go_error option) mac_op" where
  "cfErrorError os cerr =
     (if cerr = 0 then done_op (Ok None)
      else bind_op (ask_op (CFErrorGetCode os cerr)) (\<lambda>code.
           bind_op (cf_create (CFErrorCopyDescription os cerr)) (\<lambda>cdescription.
           let plain = done_op (Ok (Some (ErrorString (''CFError '' @ show_int code)))) in
           if cdescription = 0 then plain
           else defer_op (release cdescription)
             (bind_op (ask_op (CFStringGetCStringPtr os cdescription)) (\<lambda>cstr.
               case cstr of
                 None \<Rightarrow> plain
               | Some str \<Rightarrow> done_op (Ok (Some (ErrorString
                   (''CFError '' @ show_int code @ '' ('' @ str @ '')'')))))))))"

definition exportCertRef :: "'w mac_os \<Rightarrow> cfref \<Rightarrow> ('w, 'z, certificate) mac_op" where
  "exportCertRef os certRef =
     bind_op (cf_create (SecCertificateCopyData os certRef)) (\<lambda>derRef.
       if derRef = 0 then done_op (Err (ErrorString ''error getting certificate from identity''))
       else defer_op (release derRef)
         (bind_op (cfDataToBytes os derRef) (\<lambda>bs. done_op (mac_ParseCertificate os bs))))"

subsection \<open>The identity\<close>

record macIdentity =
  mac_ref :: cfref
  mac_kref :: cfref
  mac_cref :: cfref
  mac_crt :: "certificate option"
  mac_chain :: "certificate slice"

type_synonym ('w, 'a) mac_method = "(('w, cfref, macIdentity) call, 'a) op"

definition newMacIdentity :: "cfref \<Rightarrow> ('w, 'z, macIdentity) mac_op" where
  "newMacIdentity ref =
     do_op (acquire ref)
       (done_op (Ok \<lparr>mac_ref = ref, mac_kref = 0, mac_cref = 0, mac_crt = None, mac_chain = None\<rparr>))"

definition getCertRef :: "'w mac_os \<Rightarrow> ('w, cfref) mac_method" where
  "getCertRef os = get_op (\<lambda>s.
     if mac_cref (self s) \<noteq> 0 then done_op (Ok (mac_cref (self s)))
     else bind_op (cf_copy (SecIdentityCopyCertificate os (mac_ref (self s)))) (\<lambda>(status, certRef).
          bind_op (done_op (osStatusError status)) (\<lambda>_.
            do_op (set_self (\<lambda>i. i\<lparr>mac_cref := certRef\<rparr>)) (done_op (Ok certRef)))))"

definition getKeyRef :: "'w mac_os \<Rightarrow> ('w, cfref) mac_method" where
  "getKeyRef os = get_op (\<lambda>s.
     if mac_kref (self s) \<noteq> 0 then done_op (Ok (mac_kref (self s)))
     else bind_op (cf_copy (SecIdentityCopyPrivateKey os (mac_ref (self s)))) (\<lambda>(status, keyRef).
          bind_op (done_op (osStatusError status)) (\<lambda>_.
            do_op (set_self (\<lambda>i. i\<lparr>mac_kref := keyRef\<rparr>)) (done_op (Ok keyRef)))))"

definition mac_Certificate :: "'w mac_os \<Rightarrow> ('w, certificate) mac_method" where
  "mac_Certificate os =
     bind_op (getCertRef os) (\<lambda>certRef.
     bind_op (exportCertRef os certRef) (\<lambda>crt.
       do_op (set_self (\<lambda>i. i\<lparr>mac_crt := Some crt\<rparr>)) (done_op (Ok crt))))"

text \<open>The loop over the chain: every round copies the whole chain again.\<close>

fun mac_chain_loop :: "'w mac_os \<Rightarrow> cfref \<Rightarrow> nat \<Rightarrow> nat \<Rightarrow> certificate list \<Rightarrow> ('w, 'z, certificate list) mac_op" where
  "mac_chain_loop os trustRef 0 i chain = done_op (Ok chain)"
| "mac_chain_loop os trustRef (Suc n) i chain =
     bind_op (cf_create (SecTrustCopyCertificateChain os trustRef)) (\<lambda>chainCertCpy.
       if chainCertCpy = 0 then done_op (Err (ErrorString ''nil certificate in the chain''))
       else bind_op (ask_op (CFArrayGetValueAtIndex os chainCertCpy i)) (\<lambda>chainCertRef.
            bind_op (exportCertRef os chainCertRef) (\<lambda>chainCert.
              do_op (release chainCertCpy)
                (mac_chain_loop os trustRef n (Suc i) (chain @ [chainCert])))))"

text \<open>A nil error with a nil chain is a result: \<open>Ok None\<close>.\<close>

definition mac_evaluated :: "'w mac_os \<Rightarrow> cfref \<Rightarrow> bool \<times> cfref \<Rightarrow> ('w, certificate slice) mac_method" where
  "mac_evaluated os trustRef evaluation =
     (case evaluation of (trusted, cfError) \<Rightarrow>
        if trusted
        then bind_op (cfErrorError os cfError) (\<lambda>err.
               done_op (case err of None \<Rightarrow> Ok None | Some e \<Rightarrow> Err e))
        else bind_op (ask_op (SecTrustGetCertificateCount os trustRef)) (\<lambda>nchain.
               if nchain < 0 then done_op (Panic (PanicMsg ''makeslice: cap out of range''))
               else bind_op (mac_chain_loop os trustRef (nat nchain) 0 []) (\<lambda>chain.
                 do_op (set_self (\<lambda>i. i\<lparr>mac_chain := Some chain\<rparr>)) (done_op (Ok (Some chain))))))"

text \<open>The error object of the evaluation is given to the caller.\<close>

definition mac_evaluate :: "'w mac_os \<Rightarrow> cfref \<Rightarrow> ('w, 'z, bool \<times> cfref) mac_op" where
  "mac_evaluate os trustRef s = (case SecTrustEvaluateWithError os trustRef (system s) of ((trusted, cfError), w) \<Rightarrow>
     (cf_own cfError (s\<lparr>system := w\<rparr>), Ok (trusted, cfError)))"

definition mac_CertificateChain :: "'w mac_os \<Rightarrow> ('w, certificate slice) mac_method" where
  "mac_CertificateChain os = get_op (\<lambda>s.
     if mac_chain (self s) \<noteq> None then done_op (Ok (mac_chain (self s)))
     else bind_op (getCertRef os) (\<lambda>certRef.
          bind_op (cf_create (SecPolicyCreateSSL os)) (\<lambda>policy.
          bind_op (cf_copy (SecTrustCreateWithCertificates os certRef policy)) (\<lambda>(status, trustRef).
          bind_op (done_op (osStatusError status)) (\<lambda>_.
            defer_op (release trustRef)
              (bind_op (mac_evaluate os trustRef) (mac_evaluated os trustRef)))))))"

text \<open>The identity is its own signer.\<close>

definition mac_Signer :: "'w mac_os \<Rightarrow> ('w, unit) mac_method" where
  "mac_Signer os = bind_op (mac_Certificate os) (\<lambda>_. done_op (Ok ()))"

definition mac_Delete :: "'w mac_os \<Rightarrow> ('w, unit) mac_method" where
  "mac_Delete os = get_op (\<lambda>s.
     bind_op (cf_create (CFArrayCreate os [mac_ref (self s)])) (\<lambda>citemList.
       if citemList = 0 then done_op (Err (ErrorString ''error creating CFArray''))
       else defer_op (release citemList)
         (bind_op (mapToCFDictionary os [(Constant kSecClass, Constant kSecClassIdentity),
            (Constant kSecMatchItemList, Object citemList)]) (\<lambda>query.
              if query = 0 then done_op (Err (ErrorString ''error creating CFDictionary''))
              else defer_op (release query)
                (bind_op (sys_op (SecItemDelete os query)) (\<lambda>status. done_op (osStatusError status)))))))"

definition mac_release_unless_nil :: "(macIdentity \<Rightarrow> cfref) \<Rightarrow> (macIdentity \<Rightarrow> macIdentity) \<Rightarrow>
    ('w, cfref, macIdentity) call \<Rightarrow> ('w, cfref, macIdentity) call" where
  "mac_release_unless_nil part clear s =
     (if part (self s) \<noteq> 0 then set_self clear (release (part (self s)) s) else s)"

definition mac_Close :: "('w, cfref, macIdentity) call \<Rightarrow> ('w, cfref, macIdentity) call" where
  "mac_Close s =
     mac_release_unless_nil mac_cref (\<lambda>i. i\<lparr>mac_cref := 0\<rparr>)
       (mac_release_unless_nil mac_kref (\<lambda>i. i\<lparr>mac_kref := 0\<rparr>)
         (mac_release_unless_nil mac_ref (\<lambda>i. i\<lparr>mac_ref := 0\<rparr>) s))"

text \<open>The public key; nil after an error.\<close>

definition mac_Public :: "'w mac_os \<Rightarrow> ('w, public_key option) mac_method" where
  "mac_Public os s = (case mac_Certificate os s of
     (s', Ok cert) \<Rightarrow> (s', Ok (Some (PublicKey cert)))
   | (s', Err _) \<Rightarrow> (s', Ok None)
   | (s', Panic p) \<Rightarrow> (s', Panic p))"

definition mac_algorithm :: "public_key \<Rightarrow> crypto_hash \<Rightarrow> sec_key_algorithm outcome" where
  "mac_algorithm pub hash =
     (case pub of
        ECDSAPublicKey _ _ \<Rightarrow>
          (case hash of
             SHA1 \<Rightarrow> Ok kSecKeyAlgorithmECDSASignatureDigestX962SHA1
           | SHA256 \<Rightarrow> Ok kSecKeyAlgorithmECDSASignatureDigestX962SHA256
           | SHA384 \<Rightarrow> Ok kSecKeyAlgorithmECDSASignatureDigestX962SHA384
           | SHA512 \<Rightarrow> Ok kSecKeyAlgorithmECDSASignatureDigestX962SHA512
           | _ \<Rightarrow> Err ErrUnsupportedHash)
      | RSAPublicKey _ \<Rightarrow>
          (case hash of
             SHA1 \<Rightarrow> Ok kSecKeyAlgorithmRSASignatureDigestPKCS1v15SHA1
           | SHA256 \<Rightarrow> Ok kSecKeyAlgorithmRSASignatureDigestPKCS1v15SHA256
           | SHA384 \<Rightarrow> Ok kSecKeyAlgorithmRSASignatureDigestPKCS1v15SHA384
           | SHA512 \<Rightarrow> Ok kSecKeyAlgorithmRSASignatureDigestPKCS1v15SHA512
           | _ \<Rightarrow> Err ErrUnsupportedHash)
      | _ \<Rightarrow> Err (ErrorString ''unsupported key type''))"

definition getAlgo :: "'w mac_os \<Rightarrow> crypto_hash \<Rightarrow> ('w, sec_key_algorithm) mac_method" where
  "getAlgo os hash =
     bind_op (mac_Certificate os) (\<lambda>crt. done_op (mac_algorithm (PublicKey crt) hash))"

text \<open>The signature or the error object, both given to the caller.\<close>

definition mac_create_signature ::
  "'w mac_os \<Rightarrow> cfref \<Rightarrow> sec_key_algorithm \<Rightarrow> cfref \<Rightarrow> ('w, 'z, cfref \<times> cfref) mac_op" where
  "mac_create_signature os kref algo cdigest s =
     (case SecKeyCreateSignature os kref algo cdigest (system s) of ((csig, cerr), w) \<Rightarrow>
        (cf_own cerr (cf_own csig (s\<lparr>system := w\<rparr>)), Ok (csig, cerr)))"

definition mac_signed :: "'w mac_os \<Rightarrow> cfref \<times> cfref \<Rightarrow> ('w, 'z, bytes) mac_op" where
  "mac_signed os result =
     (case result of (csig, cerr) \<Rightarrow>
        bind_op (cfErrorError os cerr) (\<lambda>err.
          case err of
            Some e \<Rightarrow> defer_op (release cerr) (done_op (Err e))
          | None \<Rightarrow>
              if csig = 0 then done_op (Err (ErrorString ''nil signature from SecKeyCreateSignature''))
              else defer_op (release csig) (cfDataToBytes os csig)))"

definition mac_Sign :: "'w mac_os \<Rightarrow> bytes \<Rightarrow> signer_opts option \<Rightarrow> ('w, bytes) mac_method" where
  "mac_Sign os digest opts =
     (case opts of
        None \<Rightarrow> done_op (Panic NilDereference)
      | Some opts \<Rightarrow>
          let hash = HashFunc opts in
          bind_op (done_op (Hash_Size hash)) (\<lambda>size.
          if length digest \<noteq> size then done_op (Err (ErrorString ''bad digest for hash''))
          else bind_op (getKeyRef os) (\<lambda>kref.
               bind_op (bytesToCFData os digest) (\<lambda>cdigest.
               defer_op (release cdigest)
                 (bind_op (getAlgo os hash) (\<lambda>algo.
                  bind_op (mac_create_signature os kref algo cdigest) (mac_signed os)))))))"

subsection \<open>The store\<close>

text \<open>The array is read in one state of the system.\<close>

definition mac_items :: "'w mac_os \<Rightarrow> cfref \<Rightarrow> ('w, 'z, macIdentity list) mac_op" where
  "mac_items os r = bind_op (ask_op (CFArrayGetCount os r)) (\<lambda>n.
     if n < 0 then done_op (Panic (PanicMsg ''makeslice: len out of range''))
     else if n = 0 then done_op (Panic IndexOutOfRange)
     else bind_op (ask_op (\<lambda>w. map (\<lambda>j. CFArrayGetValueAtIndex os r j w) [0..<nat n]))
       (traverse_op newMacIdentity))"

definition mac_Identities :: "'w mac_os \<Rightarrow> ('w, 'z, macIdentity list) mac_op" where
  "mac_Identities os =
     bind_op (mapToCFDictionary os
       [(Constant kSecClass, Constant kSecClassIdentity),
        (Constant kSecReturnRef, Constant kCFBooleanTrue),
        (Constant kSecMatchLimit, Constant kSecMatchLimitAll)]) (\<lambda>query.
       if query = 0 then done_op (Err (ErrorString ''error creating CFDictionary''))
       else defer_op (release query)
         (bind_op (cf_copy (SecItemCopyMatching os query)) (\<lambda>(status, absResult).
            if status = errSecItemNotFound then done_op (Ok [])
            else bind_op (done_op (osStatusError status)) (\<lambda>_.
              defer_op (release absResult) (mac_items os absResult)))))"

definition mac_Import :: "'w mac_os \<Rightarrow> bytes \<Rightarrow> string \<Rightarrow> ('w, 'z, unit) mac_op" where
  "mac_Import os data password =
     bind_op (bytesToCFData os data) (\<lambda>cdata.
     defer_op (release cdata)
       (bind_op (stringToCFString os password) (\<lambda>cpass.
        defer_op (release cpass)
          (bind_op (mapToCFDictionary os [(Constant kSecImportExportPassphrase, Object cpass)]) (\<lambda>cops.
             if cops = 0 then done_op (Err (ErrorString ''error creating CFDictionary''))
             else defer_op (release cops)
               (bind_op (cf_copy (SecPKCS12Import os cdata cops)) (\<lambda>(status, cret).
                bind_op (done_op (osStatusError status)) (\<lambda>_.
                  defer_op (release cret) (done_op (Ok ()))))))))))"

end
