(* ===== verification/Mac_Store_Spec.thy ===== *)
theory Mac_Store_Spec
  imports Mac_Store Commands_Spec
begin

text \<open>
  Properties of the certificate store of macOS: which references its operations own, give back or
  leave behind, which algorithm a signature is asked for, and what the chain of a trusted certificate
  is.
\<close>

subsection \<open>References\<close>

definition cf_refs :: "cfref \<Rightarrow> cfref multiset" where
  "cf_refs r = (if r = 0 then {#} else {#r#})"

definition mac_refs :: "macIdentity \<Rightarrow> cfref multiset" where
  "mac_refs i = cf_refs (mac_ref i) + cf_refs (mac_kref i) + cf_refs (mac_cref i)"

text \<open>
  The documented behaviour the code relies on: a successful call sets the reference it returns, a
  signature and an error are never returned together, and arrays hold no nil references.
\<close>

definition mac_contract :: "'w mac_os \<Rightarrow> bool" where
  "mac_contract os \<longleftrightarrow>
     (\<forall>q w. fst (fst (SecItemCopyMatching os q w)) = 0 \<longrightarrow> snd (fst (SecItemCopyMatching os q w)) \<noteq> 0) \<and>
     (\<forall>d q w. fst (fst (SecPKCS12Import os d q w)) = 0 \<longrightarrow> snd (fst (SecPKCS12Import os d q w)) \<noteq> 0) \<and>
     (\<forall>c p w. fst (fst (SecTrustCreateWithCertificates os c p w)) = 0 \<longrightarrow>
        snd (fst (SecTrustCreateWithCertificates os c p w)) \<noteq> 0) \<and>
     (\<forall>k a d w. fst (fst (SecKeyCreateSignature os k a d w)) = 0 \<or> snd (fst (SecKeyCreateSignature os k a d w)) = 0) \<and>
     (\<forall>a j w. int j < CFArrayGetCount os a w \<longrightarrow> CFArrayGetValueAtIndex os a j w \<noteq> 0)"

lemma cf_refs_simps [simp]: "cf_refs 0 = {#}" "r \<noteq> 0 \<Longrightarrow> cf_refs r = {#r#}"
  by (simp_all add: cf_refs_def)

lemma owned_cf_own [simp]:
  "owned (cf_own r s) = owned s + cf_refs r" "misused (cf_own r s) = misused s"
  "system (cf_own r s) = system s" "self (cf_own r t) = self t"
  by (simp_all add: cf_own_def)

lemma held_cf_own [simp]: "stable held \<Longrightarrow> held (cf_own r s) = held s"
  by (simp add: cf_own_def stable_simps)

lemma owns_bind_create [owns_rules]:
  assumes "stable held" "\<And>r. owns held (cf_refs r + a) (f r) b c"
  shows "owns held a (bind_op (cf_create g) f) b c"
proof (rule owns_bind)
  show "owns held a (cf_create g) (\<lambda>r x. x = cf_refs r + a) (\<lambda>_. False)"
    by (rule ownsI)
      (simp add: cf_create_def assms(1) stable_simps [OF assms(1)] ac_simps split: prod.split)
qed (use assms(2) in auto)

lemma owns_bind_copy:
  assumes "stable held"
    and "\<And>status r w w'. g w = ((status, r), w') \<Longrightarrow>
      owns held ((if status = 0 then cf_refs r else {#}) + a) (f status r) b c"
  shows "owns held a (bind_op (cf_copy g) (\<lambda>(status, r). f status r)) b c"
proof (rule owns_bind)
  show "owns held a (cf_copy g)
      (\<lambda>(status, r) x. (\<exists>w w'. g w = ((status, r), w')) \<and> x = (if status = 0 then cf_refs r else {#}) + a) (\<lambda>_. False)"
    by (rule ownsI)
      (auto simp: cf_copy_def assms(1) stable_simps [OF assms(1)] ac_simps split: prod.split)
qed (use assms(2) in auto)

lemma owns_defer_ref [owns_rules]:
  "\<lbrakk>owns held a m b c; stable held; r \<noteq> 0\<rbrakk> \<Longrightarrow> owns held (cf_refs r + a) (defer_op (release r) m) b c"
  using owns_defer_release by (simp del: add_mset_add_single)

lemma owns_release_ref [owns_rules]:
  "\<lbrakk>owns held a m b c; stable held; r \<noteq> 0\<rbrakk> \<Longrightarrow> owns held (cf_refs r + a) (do_op (release r) m) b c"
  using owns_release by (simp del: add_mset_add_single)

lemma osStatusError_ok [simp]: "is_ok (osStatusError status) \<longleftrightarrow> status = 0"
  by (simp add: osStatusError_def)

lemma osStatusError_Ok [simp]: "osStatusError status = Ok y \<longleftrightarrow> status = 0"
  by (simp add: osStatusError_def)

lemma owns_bind_status [owns_rules]:
  assumes "stable held" "\<And>r w w'. g w = ((0, r), w') \<Longrightarrow> owns held (cf_refs r + a) (f r) b c" "c a"
  shows "owns held a (bind_op (cf_copy g)
    (\<lambda>(status, r). bind_op (done_op (osStatusError status)) (\<lambda>_. f r))) b c"
proof (rule owns_bind_copy [OF assms(1)])
  fix status r w w' assume "g w = ((status, r), w')"
  then show "owns held ((if status = 0 then cf_refs r else {#}) + a)
      (bind_op (done_op (osStatusError status)) (\<lambda>_. f r)) b c"
    using assms(2,3) by (intro owns_bind_done) auto
qed

subsection \<open>Conversions give back what they create\<close>

lemma cfDataToBytes_tidy: "stable held \<Longrightarrow> tidy held (cfDataToBytes os r)"
  unfolding cfDataToBytes_def by (intro owns_rules) (simp split: outcome.split)

lemmas owns_bind_bytes [owns_rules] = owns_bind_tidy [OF cfDataToBytes_tidy]

lemma exportCertRef_tidy: "stable held \<Longrightarrow> tidy held (exportCertRef os r)"
  unfolding exportCertRef_def
  by (intro owns_rules) (simp_all split: outcome.split)

lemmas owns_bind_export [owns_rules] = owns_bind_tidy [OF exportCertRef_tidy]

lemma cfErrorError_owns:
  "stable held \<Longrightarrow> owns held {#} (cfErrorError os r) (\<lambda>y x. x = {#} \<and> (y = None \<longleftrightarrow> r = 0)) (\<lambda>_. False)"
  unfolding cfErrorError_def Let_def
  by (intro owns_rules; (simp split: option.split)?) (intro owns_rules impI conjI allI; simp)+

lemma owns_bind_error [owns_rules]:
  assumes "stable held" "\<And>y. (y = None \<longleftrightarrow> r = 0) \<Longrightarrow> owns held a (f y) b c"
  shows "owns held a (bind_op (cfErrorError os r) f) b c"
proof (rule owns_bind)
  show "owns held a (cfErrorError os r) (\<lambda>y x. x = a \<and> (y = None \<longleftrightarrow> r = 0)) (\<lambda>_. False)"
    using owns_frame [OF cfErrorError_owns [OF assms(1)], of a os r] by simp
qed (use assms(2) in auto)

lemma bytesToCFData_owns:
  "stable held \<Longrightarrow> owns held {#} (bytesToCFData os bs) (\<lambda>r x. x = cf_refs r \<and> r \<noteq> 0) nothing"
  unfolding bytesToCFData_def by (intro owns_rules) simp_all

lemma owns_bind_data [owns_rules]:
  assumes "stable held" "\<And>r. r \<noteq> 0 \<Longrightarrow> owns held (cf_refs r + a) (f r) b c" "c a"
  shows "owns held a (bind_op (bytesToCFData os bs) f) b c"
proof (rule owns_bind)
  have "owns held a (bytesToCFData os bs) (\<lambda>r x. \<exists>x'. x = a + x' \<and> x' = cf_refs r \<and> r \<noteq> 0)
      (\<lambda>x. \<exists>x'. x = a + x' \<and> x' = {#})"
    using owns_frame [OF bytesToCFData_owns [OF assms(1)], of a os bs] by simp
  then show "owns held a (bytesToCFData os bs) (\<lambda>r x. x = cf_refs r + a \<and> r \<noteq> 0) (\<lambda>x. x = a)"
    by (rule owns_weaken) (auto simp: ac_simps)
qed (use assms in auto)

lemma owns_bind_dictionary [owns_rules]:
  assumes "stable held" "\<And>r. owns held (cf_refs r + a) (f r) b c" "gomap \<noteq> []"
  shows "owns held a (bind_op (mapToCFDictionary os gomap) f) b c"
  using assms by (simp add: mapToCFDictionary_def owns_bind_create)

subsection \<open>The methods of an identity\<close>

text \<open>A reference is cached at most once, when none was there.\<close>

lemma getCertRef_tidy: "tidy (self_refs mac_refs) (getCertRef os)"
  by (rule ownsI)
    (auto simp: getCertRef_def get_op_def bind_op_def cf_copy_def done_op_def do_op_def set_self_def
      self_refs_def mac_refs_def osStatusError_def cf_own_def acquire_def split: prod.split)

lemmas owns_bind_getCertRef [owns_rules] = owns_bind_tidy [OF getCertRef_tidy]

lemma getKeyRef_tidy: "tidy (self_refs mac_refs) (getKeyRef os)"
  by (rule ownsI)
    (auto simp: getKeyRef_def get_op_def bind_op_def cf_copy_def done_op_def do_op_def set_self_def
      self_refs_def mac_refs_def osStatusError_def cf_own_def acquire_def split: prod.split)

lemmas owns_bind_getKeyRef [owns_rules] = owns_bind_tidy [OF getKeyRef_tidy]

lemma mac_refs_updates [simp]:
  "mac_refs (i\<lparr>mac_crt := crt\<rparr>) = mac_refs i" "mac_refs (i\<lparr>mac_chain := chain\<rparr>) = mac_refs i"
  by (simp_all add: mac_refs_def)

lemma mac_Certificate_tidy: "tidy (self_refs mac_refs) (mac_Certificate os)"
  unfolding mac_Certificate_def
  by (intro owns_rules) simp_all

lemmas owns_bind_Certificate [owns_rules] = owns_bind_tidy [OF mac_Certificate_tidy]

lemma mac_Signer_tidy: "tidy (self_refs mac_refs) (mac_Signer os)"
  unfolding mac_Signer_def by (intro owns_rules) simp_all

lemma mac_Public_tidy:
  fixes os :: "'w mac_os"
  shows "tidy (self_refs mac_refs) (mac_Public os)"
proof (rule ownsI)
  fix s :: "('w, cfref, macIdentity) call" and F
  assume s: "owned s = F + self_refs mac_refs s + {#}" "\<not> misused s"
  obtain t r where m: "mac_Certificate os s = (t, r)" by fastforce
  from mac_Certificate_tidy s this
  obtain x where "owned t = F + self_refs mac_refs t + x" "\<not> misused t"
    "case r of Ok y \<Rightarrow> x = {#} | _ \<Rightarrow> x = {#}" by (rule ownsD)
  with m show "\<exists>x. owned (fst (mac_Public os s)) = F + self_refs mac_refs (fst (mac_Public os s)) + x \<and>
    \<not> misused (fst (mac_Public os s)) \<and> (case snd (mac_Public os s) of Ok y \<Rightarrow> x = {#} | _ \<Rightarrow> x = {#})"
    by (cases r) (auto simp: mac_Public_def)
qed

lemma mac_Delete_tidy: "tidy (self_refs mac_refs) (mac_Delete os)"
  unfolding mac_Delete_def by (intro owns_get owns_rules) (simp_all split: outcome.split)

lemma mac_Close_keeps: "keeps mac_refs mac_Close (\<lambda>x. x = {#})" "mac_refs (self (mac_Close s)) = {#}"
  by (auto simp: keeps_def mac_Close_def mac_release_unless_nil_def mac_refs_def cf_refs_def)

lemma getAlgo_tidy: "tidy (self_refs mac_refs) (getAlgo os hash)"
  unfolding getAlgo_def by (intro owns_rules) (simp_all split: outcome.split)

lemmas owns_bind_getAlgo [owns_rules] = owns_bind_tidy [OF getAlgo_tidy]

lemma owns_bind_signature:
  assumes "mac_contract os" "stable held"
    and "\<And>csig cerr. csig = 0 \<or> cerr = 0 \<Longrightarrow> owns held (cf_refs csig + cf_refs cerr + a) (f (csig, cerr)) b c"
  shows "owns held a (bind_op (mac_create_signature os k algo d) f) b c"
proof (rule owns_bind)
  show "owns held a (mac_create_signature os k algo d)
      (\<lambda>r x. x = cf_refs (fst r) + cf_refs (snd r) + a \<and> (fst r = 0 \<or> snd r = 0)) (\<lambda>_. False)"
  proof (rule ownsI)
    fix s F assume s: "owned s = F + held s + a" "\<not> misused s"
    obtain csig cerr w where k: "SecKeyCreateSignature os k algo d (system s) = ((csig, cerr), w)"
      by (metis surj_pair)
    moreover from this assms(1) have "csig = 0 \<or> cerr = 0" unfolding mac_contract_def by (metis fst_conv snd_conv)
    ultimately show "\<exists>x. owned (fst (mac_create_signature os k algo d s)) =
        F + held (fst (mac_create_signature os k algo d s)) + x \<and>
        \<not> misused (fst (mac_create_signature os k algo d s)) \<and>
        (case snd (mac_create_signature os k algo d s) of
           Ok r \<Rightarrow> x = cf_refs (fst r) + cf_refs (snd r) + a \<and> (fst r = 0 \<or> snd r = 0)
         | _ \<Rightarrow> False)"
      using s by (simp add: mac_create_signature_def assms(2) stable_simps [OF assms(2)] ac_simps)
  qed
next
  fix r :: "cfref \<times> cfref" and x
  assume "x = cf_refs (fst r) + cf_refs (snd r) + a \<and> (fst r = 0 \<or> snd r = 0)"
  then show "owns held x (f r) b c" using assms(3) [of "fst r" "snd r"] by simp
qed simp

text \<open>Exactly one of the two references is there, and it is given back.\<close>

lemma mac_signed_owns:
  assumes "stable held" "csig = 0 \<or> cerr = 0"
  shows "owns held (cf_refs csig + cf_refs cerr + a) (mac_signed os (csig, cerr)) (\<lambda>_ x. x = a) (\<lambda>x. x = a)"
proof (cases "cerr = 0")
  case True
  have "owns held (cf_refs csig + a) (if csig = 0
      then done_op (Err (ErrorString ''nil signature from SecKeyCreateSignature''))
      else defer_op (release csig) (cfDataToBytes os csig)) (\<lambda>_ x. x = a) (\<lambda>x. x = a)"
    using owns_frame [OF cfDataToBytes_tidy [OF assms(1)], of a os csig]
    by (intro owns_rules assms(1)) simp_all
  then show ?thesis
    using True by (simp add: mac_signed_def cfErrorError_def bind_op_def done_op_def owns_def)
next
  case False
  have "owns held (cf_refs cerr + a) (mac_signed os (0, cerr)) (\<lambda>_ x. x = a) (\<lambda>x. x = a)"
    unfolding mac_signed_def prod.case
  proof (rule owns_bind_error [OF assms(1)])
    fix y :: "go_error option" assume "y = None \<longleftrightarrow> cerr = 0"
    then obtain e where "y = Some e" using False by auto
    moreover have "owns held (cf_refs cerr + a) (defer_op (release cerr) (done_op (Err e)))
        (\<lambda>_ x. x = a) (\<lambda>x. x = a)" for e
      by (intro owns_rules assms(1) False) simp
    ultimately show "owns held (cf_refs cerr + a) (case y of
          None \<Rightarrow> if 0 = 0 then done_op (Err (ErrorString ''nil signature from SecKeyCreateSignature''))
            else defer_op (release 0) (cfDataToBytes os 0)
        | Some e \<Rightarrow> defer_op (release cerr) (done_op (Err e))) (\<lambda>_ x. x = a) (\<lambda>x. x = a)"
      by (simp del: cf_refs_simps)
  qed
  then show ?thesis using False assms(2) by simp
qed

lemma mac_Sign_tidy:
  assumes "mac_contract os"
  shows "tidy (self_refs mac_refs) (mac_Sign os digest opts)"
proof (cases opts)
  case (Some o')
  have sign: "owns (self_refs mac_refs) {#} (bind_op (mac_create_signature os kref algo cdigest) (mac_signed os))
      (\<lambda>_. nothing) nothing" for kref algo cdigest
  proof (rule owns_bind_signature [OF assms])
    fix csig cerr :: cfref assume "csig = 0 \<or> cerr = 0"
    from mac_signed_owns [OF _ this, of "self_refs mac_refs" "{#}" os]
    show "owns (self_refs mac_refs) (cf_refs csig + cf_refs cerr + {#}) (mac_signed os (csig, cerr))
      (\<lambda>_. nothing) nothing" by simp
  qed simp
  then show ?thesis
    unfolding mac_Sign_def Some option.case Let_def
    by (intro owns_rules sign) simp_all
qed (simp add: mac_Sign_def owns_done)

text \<open>Building the chain gives back the copies it makes until something fails.\<close>

lemma mac_chain_loop_safe: "stable held \<Longrightarrow> owns held a (mac_chain_loop os t n i chain) (\<lambda>_ _. True) (\<lambda>_. True)"
proof (induction n arbitrary: i chain)
  case 0
  then show ?case by (auto intro: owns_done)
next
  case (Suc n)
  then show ?case
    unfolding mac_chain_loop.simps
    by (intro owns_rules) simp_all
qed

lemma owns_bind_evaluate [owns_rules]:
  assumes "stable held" "\<And>trusted cerr. owns held (cf_refs cerr + a) (f (trusted, cerr)) b c"
  shows "owns held a (bind_op (mac_evaluate os t) f) b c"
proof (rule owns_bind)
  show "owns held a (mac_evaluate os t) (\<lambda>r x. x = cf_refs (snd r) + a) (\<lambda>_. False)"
    by (rule ownsI)
      (simp add: mac_evaluate_def assms(1) stable_simps [OF assms(1)] ac_simps split: prod.split)
next
  fix r :: "bool \<times> cfref" and x
  assume "x = cf_refs (snd r) + a"
  then show "owns held x (f r) b c" using assms(2) [of "snd r" "fst r"] by simp
qed simp

lemma mac_evaluated_safe:
  "owns (self_refs mac_refs) a (mac_evaluated os t (trusted, cerr)) (\<lambda>_ _. True) (\<lambda>_. True)"
proof -
  have "owns (self_refs mac_refs) x (do_op (set_self (\<lambda>i. i\<lparr>mac_chain := Some chain\<rparr>)) (done_op (Ok (Some chain))))
      (\<lambda>_ _. True) (\<lambda>_. True)" for x chain
    by (intro owns_rules) simp_all
  then have "owns (self_refs mac_refs) a (bind_op (mac_chain_loop os t n i [])
      (\<lambda>chain. do_op (set_self (\<lambda>i. i\<lparr>mac_chain := Some chain\<rparr>)) (done_op (Ok (Some chain)))))
      (\<lambda>_ _. True) (\<lambda>_. True)" for n i
    by (intro owns_bind [OF mac_chain_loop_safe]) simp_all
  then show ?thesis
    unfolding mac_evaluated_def prod.case
    by (intro owns_rules) (simp_all split: option.split outcome.split)
qed

lemma mac_CertificateChain_safe:
  assumes "mac_contract os"
  shows "safe (self_refs mac_refs) (mac_CertificateChain os)"
proof -
  have "r \<noteq> 0" if "SecTrustCreateWithCertificates os c p w = ((0, r), w')" for c p w r w'
    using assms that unfolding mac_contract_def by (metis fst_conv snd_conv)
  then show ?thesis
    unfolding mac_CertificateChain_def
    by (intro owns_get owns_rules mac_evaluated_safe) simp_all
qed

subsection \<open>The store\<close>

lemma newMacIdentity_owns:
  "stable held \<Longrightarrow> r \<noteq> 0 \<Longrightarrow> owns held a (newMacIdentity r) (\<lambda>i x. x = mac_refs i + a) (\<lambda>_. False)"
  by (rule ownsI) (simp add: newMacIdentity_def do_op_def done_op_def stable_simps mac_refs_def ac_simps)

lemma newMacIdentities_owns:
  "stable held \<Longrightarrow> 0 \<notin> set rs \<Longrightarrow>
    owns held a (traverse_op newMacIdentity rs) (\<lambda>is x. x = held_by mac_refs is + a) (\<lambda>_. False)"
proof (induction rs arbitrary: a)
  case Nil
  then show ?case by (auto intro: owns_done)
next
  case (Cons r rs)
  show ?case
    unfolding traverse_op.simps
  proof (rule owns_bind [OF newMacIdentity_owns])
    fix i x assume x: "x = mac_refs i + a"
    show "owns held x (bind_op (traverse_op newMacIdentity rs) (\<lambda>ys. done_op (Ok (i # ys))))
        (\<lambda>is x. x = held_by mac_refs is + a) (\<lambda>_. False)"
      by (rule owns_bind [OF Cons.IH]) (use Cons.prems x in \<open>auto intro!: owns_done simp: ac_simps\<close>)
  qed (use Cons.prems in auto)
qed

lemma mac_items_run:
  "mac_items os r s =
     (let n = CFArrayGetCount os r (system s) in
      if n < 0 then (s, Panic (PanicMsg ''makeslice: len out of range''))
      else if n = 0 then (s, Panic IndexOutOfRange)
      else traverse_op newMacIdentity (map (\<lambda>j. CFArrayGetValueAtIndex os r j (system s)) [0..<nat n]) s)"
  by (simp add: mac_items_def bind_op_def ask_op_def done_op_def Let_def)

lemma mac_items_owns:
  assumes "mac_contract os" "stable held"
  shows "owns held {#} (mac_items os r) (\<lambda>is x. x = held_by mac_refs is) nothing"
proof (rule ownsI)
  fix s F assume s: "owned s = F + held s + {#}" "\<not> misused s"
  let ?refs = "map (\<lambda>j. CFArrayGetValueAtIndex os r j (system s)) [0..<nat (CFArrayGetCount os r (system s))]"
  have "CFArrayGetValueAtIndex os r j w \<noteq> 0" if "int j < CFArrayGetCount os r w" for j w
    using assms(1) that unfolding mac_contract_def by blast
  then have "0 \<notin> set ?refs" by (fastforce simp: zless_nat_eq_int_zless)
  note own = newMacIdentities_owns [OF assms(2) this, of "{#}"]
  obtain t q where run: "traverse_op newMacIdentity ?refs s = (t, q)" by fastforce
  obtain x where "owned t = F + held t + x" "\<not> misused t"
    "case q of Ok is \<Rightarrow> x = held_by mac_refs is + {#} | _ \<Rightarrow> False"
    using own s run by (rule ownsD)
  then show "\<exists>x. owned (fst (mac_items os r s)) = F + held (fst (mac_items os r s)) + x \<and>
    \<not> misused (fst (mac_items os r s)) \<and>
    (case snd (mac_items os r s) of Ok is \<Rightarrow> x = held_by mac_refs is | _ \<Rightarrow> x = {#})"
    using s run by (cases q) (auto simp: mac_items_run Let_def)
qed

lemma mac_Identities_owns:
  assumes "mac_contract os" "stable held"
  shows "owns held {#} (mac_Identities os) (\<lambda>is x. x = held_by mac_refs is) nothing"
proof -
  have set_ref: "absResult \<noteq> 0" if "SecItemCopyMatching os q w = ((0, absResult), w')" for q w absResult w'
    using assms(1) that unfolding mac_contract_def by (metis fst_conv snd_conv)
  have list: "owns held (cf_refs r + {#}) (defer_op (release r) (mac_items os r))
      (\<lambda>is x. x = held_by mac_refs is) nothing" if "r \<noteq> 0" for r
    using owns_defer_ref [OF mac_items_owns [OF assms] assms(2) that] .
  have "owns held {#} (bind_op (cf_copy (SecItemCopyMatching os query)) (\<lambda>(status, absResult).
      if status = errSecItemNotFound then done_op (Ok [])
      else bind_op (done_op (osStatusError status)) (\<lambda>_.
        defer_op (release absResult) (mac_items os absResult)))) (\<lambda>is x. x = held_by mac_refs is) nothing" for query
  proof (rule owns_bind_copy [OF assms(2)])
    fix status absResult w w' assume r: "SecItemCopyMatching os query w = ((status, absResult), w')"
    show "owns held ((if status = 0 then cf_refs absResult else {#}) + {#})
        (if status = errSecItemNotFound then done_op (Ok [])
         else bind_op (done_op (osStatusError status)) (\<lambda>_.
           defer_op (release absResult) (mac_items os absResult))) (\<lambda>is x. x = held_by mac_refs is) nothing"
    proof (cases "status = 0")
      case True
      then show ?thesis using list [of absResult] set_ref r
        by (auto simp: errSecItemNotFound_def intro!: owns_bind_done)
    qed (auto intro!: owns_done owns_bind_done)
  qed
  then show ?thesis
    unfolding mac_Identities_def
    by (intro owns_bind_dictionary owns_if owns_defer_ref assms(2)) (auto intro: owns_done)
qed

text \<open>
  \<open>CFRelease\<close> of a nil reference crashes: a password for which Core Foundation makes no string must not
  occur.
\<close>

definition mac_string :: "'w mac_os \<Rightarrow> string \<Rightarrow> bool" where
  "mac_string os s \<longleftrightarrow> (\<forall>w. fst (CFStringCreateWithCString os (takeWhile (\<lambda>ch. ch \<noteq> CHR 0x00) s) w) \<noteq> 0)"

lemma mac_Import_tidy:
  assumes "mac_contract os" "mac_string os password" "stable held"
  shows "tidy held (mac_Import os data password)"
proof -
  have string: "owns held a (bind_op (stringToCFString os password) f) b c"
    if "\<And>r. r \<noteq> 0 \<Longrightarrow> owns held (cf_refs r + a) (f r) b c" for a f and b :: "'c \<Rightarrow> _" and c
  proof (rule owns_bind)
    show "owns held a (stringToCFString os password) (\<lambda>r x. x = cf_refs r + a \<and> r \<noteq> 0) (\<lambda>_. False)"
    proof (rule ownsI)
      fix s F assume "owned s = F + held s + a" "\<not> misused s"
      then show "\<exists>x. owned (fst (stringToCFString os password s)) = F + held (fst (stringToCFString os password s)) + x \<and>
        \<not> misused (fst (stringToCFString os password s)) \<and>
        (case snd (stringToCFString os password s) of Ok r \<Rightarrow> x = cf_refs r + a \<and> r \<noteq> 0 | _ \<Rightarrow> False)"
        using assms(2) [unfolded mac_string_def, rule_format, of "system s"]
        by (cases "CFStringCreateWithCString os (takeWhile (\<lambda>ch. ch \<noteq> CHR 0x00) password) (system s)")
          (simp add: stringToCFString_def cf_create_def assms(3) stable_simps [OF assms(3)] add.assoc
            del: cf_refs_simps)
    qed
  qed (use that in auto)
  have set_ref: "r \<noteq> 0" if "SecPKCS12Import os d q w = ((0, r), w')" for d q w r w'
    using assms(1) that unfolding mac_contract_def by (metis fst_conv snd_conv)
  show ?thesis
    unfolding mac_Import_def
    by (intro owns_rules string assms(3)) (auto dest: set_ref simp: assms(3))
qed

subsection \<open>No reference is given back twice\<close>

text \<open>The calls that leave nothing behind, and all calls.\<close>

definition mac_tidy_calls ::
  "'w mac_os \<Rightarrow> (('w, cfref, macIdentity) call \<Rightarrow> ('w, cfref, macIdentity) call) set" where
  "mac_tidy_calls os =
     {\<lambda>s. fst (mac_Certificate os s), \<lambda>s. fst (mac_Signer os s), \<lambda>s. fst (mac_Public os s),
      \<lambda>s. fst (mac_Delete os s), mac_Close} \<union> {\<lambda>s. fst (mac_Sign os digest opts s) |digest opts. True}"

definition mac_calls ::
  "'w mac_os \<Rightarrow> (('w, cfref, macIdentity) call \<Rightarrow> ('w, cfref, macIdentity) call) set" where
  "mac_calls os = insert (\<lambda>s. fst (mac_CertificateChain os s)) (mac_tidy_calls os)"

text \<open>
  What a process does with the store: it asks for the identities or imports a file, with a password that
  can be made a string.
\<close>

definition mac_opens ::
  "'w mac_os \<Rightarrow> ('w, cfref) process \<Rightarrow> ('w, cfref) process \<Rightarrow> macIdentity list outcome \<Rightarrow> bool" where
  "mac_opens os p p' r \<longleftrightarrow> mac_Identities os p = (p', r) \<or>
     (\<exists>data password. mac_string os password \<and> fst (mac_Import os data password p) = p' \<and> r = Ok [])"

lemma mac_opens_hold:
  assumes "mac_contract os" "mac_opens os p p' r" "\<not> misused p"
  shows "\<not> misused p' \<and> owned p' = owned p + held_by mac_refs (made r)"
  using assms(2) unfolding mac_opens_def
proof
  assume run: "mac_Identities os p = (p', r)"
  have "owned p = owned p + no_refs p + {#}" by (simp add: no_refs_def)
  with mac_Identities_owns [OF assms(1) stable_refs(2)]
  obtain x where "owned p' = owned p + no_refs p' + x" "\<not> misused p'"
    "case r of Ok is \<Rightarrow> x = held_by mac_refs is | _ \<Rightarrow> x = {#}" using assms(3) run by (rule ownsD)
  then show ?thesis by (cases r) (simp_all add: no_refs_def made_def)
next
  assume "\<exists>data password. mac_string os password \<and> fst (mac_Import os data password p) = p' \<and> r = Ok []"
  then obtain data password where pw: "mac_string os password" and r: "r = Ok []"
    and "fst (mac_Import os data password p) = p'" by auto
  then have run: "mac_Import os data password p = (p', snd (mac_Import os data password p))"
    by (simp add: prod_eq_iff)
  have "owned p = owned p + no_refs p + {#}" by (simp add: no_refs_def)
  with mac_Import_tidy [OF assms(1) pw stable_refs(2)]
  obtain x where "owned p' = owned p + no_refs p' + x" "\<not> misused p'"
    "case snd (mac_Import os data password p) of Ok y \<Rightarrow> x = {#} | _ \<Rightarrow> x = {#}"
    using assms(3) run by (rule ownsD)
  then show ?thesis using r by (simp add: no_refs_def made_def split: outcome.splits)
qed

lemma mac_tidy_calls_keep:
  assumes "mac_contract os" "c \<in> mac_tidy_calls os"
  shows "keeps mac_refs c (\<lambda>x. x = {#})"
  using assms(2) unfolding mac_tidy_calls_def
  by (auto intro: keeps_owns [OF mac_Certificate_tidy] keeps_owns [OF mac_Signer_tidy]
    keeps_owns [OF mac_Public_tidy] keeps_owns [OF mac_Delete_tidy] keeps_owns [OF mac_Sign_tidy [OF assms(1)]]
    mac_Close_keeps(1))

lemma mac_calls_keep:
  assumes "mac_contract os" "c \<in> mac_calls os"
  shows "keeps mac_refs c (\<lambda>_. True)"
proof (cases "c \<in> mac_tidy_calls os")
  case True
  from mac_tidy_calls_keep [OF assms(1) this] show ?thesis unfolding keeps_def by blast
next
  case False
  then show ?thesis
    using assms(2) by (auto simp: mac_calls_def intro: keeps_owns [OF mac_CertificateChain_safe [OF assms(1)]])
qed

interpretation mac_tidy: closable mac_refs "{c \<in> mac_tidy_calls os. mac_contract os}"
  "\<lambda>p p' r. mac_contract os \<and> mac_opens os p p' r" mac_Close "\<lambda>x. x = {#}" for os
  by unfold_locales (auto simp: mac_Close_keeps dest: mac_tidy_calls_keep mac_opens_hold)

interpretation mac: closable mac_refs "{c \<in> mac_calls os. mac_contract os}"
  "\<lambda>p p' r. mac_contract os \<and> mac_opens os p p' r" mac_Close "\<lambda>_. True" for os
  by unfold_locales (auto simp: mac_Close_keeps dest: mac_calls_keep mac_opens_hold)

text \<open>The store with the passwords its imports are given.\<close>

definition mac_uses :: "'w mac_os \<Rightarrow> string set \<Rightarrow> ('w, cfref) process \<Rightarrow> ('w, cfref) process \<Rightarrow>
    macIdentity list outcome \<Rightarrow> bool" where
  "mac_uses os passwords p p' r \<longleftrightarrow> mac_Identities os p = (p', r) \<or>
     (\<exists>data password. password \<in> passwords \<and> fst (mac_Import os data password p) = p' \<and> r = Ok [])"

lemma mac_uses_opens: "mac_uses os passwords p p' r \<Longrightarrow> \<forall>password \<in> passwords. mac_string os password \<Longrightarrow> mac_opens os p p' r"
  unfolding mac_uses_def mac_opens_def by blast

lemma runs_mono:
  assumes "runs calls opens st st'" "calls \<subseteq> calls'" "\<And>p p' r. opens p p' r \<Longrightarrow> opens' p p' r"
  shows "runs calls' opens' st st'"
  using assms(1) by induction (auto intro: runs.intros dest: subsetD [OF assms(2)] assms(3))

text \<open>
  C9: On macOS, whatever a process does with the store and the identities it gets, in any order and also after
  closing them, it never gives back a reference it does not own, as long as Core Foundation makes a string
  of every password it imports with. (For a password that is not UTF-8 it makes none, and the deferred
  release of the nil string is the misuse of \<open>mac_Import_nil_password\<close>.)
\<close>

theorem mac_no_double_release:
  assumes "mac_contract os" "runs (mac_calls os) (mac_uses os passwords) (p, []) (p', identities)" "\<not> misused p"
    and "\<forall>password \<in> passwords. mac_string os password"
  shows "\<not> misused p'"
proof -
  have "runs (mac_calls os) (mac_opens os) (p, []) (p', identities)"
    using assms(2) by (rule runs_mono) (use assms(4) in \<open>auto dest: mac_uses_opens\<close>)
  then show ?thesis using mac.ledger [of os p "[]" p' identities "owned p"] assms(1,3) by simp
qed

text \<open>
  An import with a password of which no string is made gives back the nil reference: with a system that
  makes the data object, the process misuses its references however the import ends.
\<close>

theorem mac_Import_nil_password:
  fixes p :: "('w, cfref) process"
  assumes "CFDataCreate os data (system p) = (cdata, w)" "cdata \<noteq> 0"
    and "CFStringCreateWithCString os (takeWhile (\<lambda>ch. ch \<noteq> CHR 0x00) password) w = (0, w')" "0 \<notin># owned p"
  shows "misused (fst (mac_Import os data password p))"
  using assms by (auto simp: mac_Import_def bytesToCFData_def stringToCFString_def mapToCFDictionary_def cf_create_def
    cf_copy_def cf_own_def bind_op_def defer_op_def done_op_def osStatusError_def
    dest: in_diffD split: prod.splits)

text \<open>
  C20: Unless certificate chains are asked for, closing every identity in the end gives back every
  reference the process has got since it began. Imports are those with a password of which Core
  Foundation makes a string.
\<close>

theorem mac_all_released:
  assumes "mac_contract os" "runs (mac_tidy_calls os) (mac_opens os) (p, []) st" "\<not> misused p"
    and "close_all mac_Close st = (p', identities)"
  shows "owned p' = owned p \<and> \<not> misused p'"
  using mac_tidy.all_closed [of os p st p' identities] assms by simp

subsection \<open>Certificate chains\<close>

text \<open>The rest of \<open>CertificateChain\<close>, once the policy is made.\<close>

definition mac_trust :: "'w mac_os \<Rightarrow> cfref \<Rightarrow> cfref \<Rightarrow> ('w, certificate slice) mac_method" where
  "mac_trust os certRef policy =
     bind_op (cf_copy (SecTrustCreateWithCertificates os certRef policy)) (\<lambda>(status, trustRef).
     bind_op (done_op (osStatusError status)) (\<lambda>_.
       defer_op (release trustRef) (bind_op (mac_evaluate os trustRef) (mac_evaluated os trustRef))))"

lemma mac_trust_safe:
  assumes "mac_contract os"
  shows "safe (self_refs mac_refs) (mac_trust os certRef policy)"
proof -
  have "r \<noteq> 0" if "SecTrustCreateWithCertificates os c p w = ((0, r), w')" for c p w r w'
    using assms that unfolding mac_contract_def by (metis fst_conv snd_conv)
  then show ?thesis
    unfolding mac_trust_def by (intro owns_rules mac_evaluated_safe) simp_all
qed

lemma mac_CertificateChain_run:
  assumes "mac_chain (self s) = None" "getCertRef os s = (t, Ok certRef)"
    and "SecPolicyCreateSSL os (system t) = (policy, w)"
  shows "mac_CertificateChain os s = mac_trust os certRef policy (cf_own policy (t\<lparr>system := w\<rparr>))"
  using assms by (simp add: mac_CertificateChain_def get_op_def bind_op_def [of "getCertRef os"]
    bind_op_def [of "cf_create _"] cf_create_def mac_trust_def)

text \<open>
  \<open>CertificateChain\<close> leaves the policy it creates behind: after the identity is closed the process still
  owns a reference to it.
\<close>

theorem CertificateChain_leaks_policy:
  assumes "mac_contract os" "owned s = F + mac_refs (self s)" "\<not> misused s" "mac_chain (self s) = None"
    and "getCertRef os s = (t, Ok certRef)" "SecPolicyCreateSSL os (system t) = (policy, w)" "policy \<noteq> 0"
  shows "add_mset policy F \<subseteq># owned (mac_Close (fst (mac_CertificateChain os s)))"
proof -
  have "owned s = F + self_refs mac_refs s + {#}" using assms(2) by (simp add: self_refs_def)
  from getCertRef_tidy this assms(3,5)
  obtain x where "owned t = F + self_refs mac_refs t + x" "\<not> misused t" "case Ok certRef of Ok y \<Rightarrow> x = {#} | _ \<Rightarrow> x = {#}"
    by (rule ownsD)
  then have t: "owned (cf_own policy (t\<lparr>system := w\<rparr>)) = add_mset policy F + self_refs mac_refs (cf_own policy (t\<lparr>system := w\<rparr>)) + {#}"
    "\<not> misused (cf_own policy (t\<lparr>system := w\<rparr>))"
    using assms(7) by (simp_all add: self_refs_def)
  obtain s' r where s': "mac_CertificateChain os s = (s', r)" by fastforce
  then have "mac_trust os certRef policy (cf_own policy (t\<lparr>system := w\<rparr>)) = (s', r)"
    using mac_CertificateChain_run [OF assms(4-6)] by simp
  with mac_trust_safe [OF assms(1)] t
  obtain x where "owned s' = add_mset policy F + self_refs mac_refs s' + x" "\<not> misused s'" by (rule ownsD)
  then have "owned s' = (add_mset policy F + x) + mac_refs (self s')" "\<not> misused s'"
    by (simp_all add: self_refs_def ac_simps)
  with mac_Close_keeps(1) obtain y where "owned (mac_Close s') = (add_mset policy F + x) + mac_refs (self (mac_Close s')) + y"
    by (rule keepsD)
  then show ?thesis using s' by (simp add: subset_mset.add_increasing2 subset_mset.le_iff_add)
qed

text \<open>
  C31: For a certificate the system trusts there is no chain: the test of the evaluation's result is the wrong
  way round, so the call returns nil without an error, and a signature made with it contains no
  certificates, whatever the option says.
\<close>

theorem mac_trusted_no_chain:
  assumes "\<And>t w. fst (SecTrustEvaluateWithError os t w) = (True, 0)"
    and "mac_chain (self s) = None" "mac_CertificateChain os s = (s', Ok chain)"
  shows "chain = None \<and> certsForSignature opts (elems chain) = Ok []"
proof -
  have "certsForSignature opts [] = Ok []"
    by (auto simp: certsForSignature_def chainWithoutRoot_def subslice_def Let_def)
  moreover obtain t trustRef t' r where "mac_evaluate os trustRef t = (t', Ok r)"
    "\<exists>u. mac_evaluated os trustRef r t' = (u, Ok chain)"
    using assms(2,3) by (auto simp: mac_CertificateChain_def run_simps)
  moreover from this assms(1) [of trustRef "system t"] have "r = (True, 0)"
    by (auto simp: mac_evaluate_def split: prod.splits)
  ultimately show ?thesis by (auto simp: mac_evaluated_def cfErrorError_def run_simps)
qed

subsection \<open>Signatures\<close>

text \<open>
  The algorithms of Security for a digest that the caller has computed, by the kind of key and the hash:
  X9.62 for a key on an elliptic curve, PKCS#1 v1.5 for an RSA key.
\<close>

inductive signs_with :: "public_key \<Rightarrow> crypto_hash \<Rightarrow> sec_key_algorithm \<Rightarrow> bool" where
  "signs_with (ECDSAPublicKey c q) SHA1 kSecKeyAlgorithmECDSASignatureDigestX962SHA1"
| "signs_with (ECDSAPublicKey c q) SHA256 kSecKeyAlgorithmECDSASignatureDigestX962SHA256"
| "signs_with (ECDSAPublicKey c q) SHA384 kSecKeyAlgorithmECDSASignatureDigestX962SHA384"
| "signs_with (ECDSAPublicKey c q) SHA512 kSecKeyAlgorithmECDSASignatureDigestX962SHA512"
| "signs_with (RSAPublicKey n) SHA1 kSecKeyAlgorithmRSASignatureDigestPKCS1v15SHA1"
| "signs_with (RSAPublicKey n) SHA256 kSecKeyAlgorithmRSASignatureDigestPKCS1v15SHA256"
| "signs_with (RSAPublicKey n) SHA384 kSecKeyAlgorithmRSASignatureDigestPKCS1v15SHA384"
| "signs_with (RSAPublicKey n) SHA512 kSecKeyAlgorithmRSASignatureDigestPKCS1v15SHA512"

lemma mac_algorithm_signs_with: "mac_algorithm pub hash = Ok algo \<longleftrightarrow> signs_with pub hash algo"
  by (auto simp: mac_algorithm_def signs_with.simps split: public_key.splits crypto_hash.splits)

text \<open>The key of an identity: the one it keeps, or the one the system copies for it, which it keeps then.\<close>

definition key_of :: "'w mac_os \<Rightarrow> ('w, cfref, macIdentity) call \<Rightarrow> cfref \<Rightarrow> bool" where
  "key_of os s kref \<longleftrightarrow>
     (if mac_kref (self s) \<noteq> 0 then kref = mac_kref (self s)
      else \<exists>w. SecIdentityCopyPrivateKey os (mac_ref (self s)) (system s) = ((0, kref), w))"

lemma getKeyRef_key:
  assumes "getKeyRef os s = (t, Ok kref)"
  shows "key_of os s kref" "mac_kref (self t) = kref" "mac_ref (self t) = mac_ref (self s)" "mac_cref (self t) = mac_cref (self s)"
  using assms by (auto simp: getKeyRef_def key_of_def cf_copy_def cf_own_def osStatusError_def run_simps
    split: if_splits prod.splits)

text \<open>The certificate of an identity: parsed from the data of the certificate the system gives for it.\<close>

definition certificate_of :: "'w mac_os \<Rightarrow> macIdentity \<Rightarrow> macIdentity \<Rightarrow> certificate \<Rightarrow> bool" where
  "certificate_of os i i' crt \<longleftrightarrow>
     (if mac_cref i \<noteq> 0 then mac_cref i' = mac_cref i
      else \<exists>w w'. SecIdentityCopyCertificate os (mac_ref i) w = ((0, mac_cref i'), w')) \<and>
     (\<exists>der w w' bs. SecCertificateCopyData os (mac_cref i') w = (der, w') \<and> der \<noteq> 0 \<and>
        GoBytes (CFData_bytes os der w') = Ok bs \<and> mac_ParseCertificate os bs = Ok crt)"

lemma self_cf_own [simp]: "self (cf_own r s) = self s"
  by (simp add: cf_own_def)

lemma system_cf_own [simp]: "system (cf_own r s) = system s"
  by (simp add: cf_own_def)

lemma exportCertRef_parses:
  fixes s :: "('w, cfref, macIdentity) call"
  assumes "exportCertRef os certRef s = (t, Ok crt)"
  shows "self t = self s" "\<exists>der w w' bs. SecCertificateCopyData os certRef w = (der, w') \<and> der \<noteq> 0 \<and>
    GoBytes (CFData_bytes os der w') = Ok bs \<and> mac_ParseCertificate os bs = Ok crt"
proof -
  obtain der w' where c: "SecCertificateCopyData os certRef (system s) = (der, w')" by fastforce
  then show "self t = self s" using assms
    by (auto simp: exportCertRef_def cf_create_def cfDataToBytes_def run_simps split: if_splits)
  show "\<exists>der w w' bs. SecCertificateCopyData os certRef w = (der, w') \<and> der \<noteq> 0 \<and>
    GoBytes (CFData_bytes os der w') = Ok bs \<and> mac_ParseCertificate os bs = Ok crt"
    using assms c
    by (intro exI [of _ der] exI [of _ "system s"] exI [of _ w'])
      (auto simp: exportCertRef_def cf_create_def cfDataToBytes_def run_simps split: if_splits)
qed

lemma mac_Certificate_of:
  assumes "mac_Certificate os s = (t, Ok crt)"
  shows "certificate_of os (self s) (self t) crt" "mac_kref (self t) = mac_kref (self s)"
proof -
  obtain u certRef v where run: "getCertRef os s = (u, Ok certRef)" "exportCertRef os certRef u = (v, Ok crt)"
    "t = set_self (\<lambda>i. i\<lparr>mac_crt := Some crt\<rparr>) v"
    using assms by (auto simp: mac_Certificate_def run_simps)
  have u: "mac_cref (self u) = certRef" "mac_kref (self u) = mac_kref (self s)"
    "if mac_cref (self s) \<noteq> 0 then certRef = mac_cref (self s)
     else \<exists>w w'. SecIdentityCopyCertificate os (mac_ref (self s)) w = ((0, certRef), w')"
    using run(1) by (auto simp: getCertRef_def cf_copy_def osStatusError_def run_simps split: if_splits prod.splits)
  then show "certificate_of os (self s) (self t) crt" "mac_kref (self t) = mac_kref (self s)"
    using exportCertRef_parses [OF run(2)] run(3) by (simp_all add: certificate_of_def)
qed

text \<open>
  C30: A signature on macOS is what the system returned, without an error, for the key of the identity and a
  data object made of the digest, which has the length of the hash. The algorithm is the one that
  belongs to the hash and to the kind of the key in the identity's certificate.
\<close>

theorem mac_Sign_algorithm:
  assumes "mac_Sign os digest (Some opts) s = (s', Ok sig)"
  shows "\<exists>crt algo kref cdigest v v' csig w w'. Hash_Size (HashFunc opts) = Ok (length digest) \<and>
    key_of os s kref \<and> mac_kref (self s') = kref \<and>
    CFDataCreate os digest v = (cdigest, v') \<and> cdigest \<noteq> 0 \<and>
    certificate_of os (self s) (self s') crt \<and> signs_with (PublicKey crt) (HashFunc opts) algo \<and>
    SecKeyCreateSignature os kref algo cdigest w = ((csig, 0), w') \<and> csig \<noteq> 0 \<and>
    GoBytes (CFData_bytes os csig w') = Ok sig"
proof -
  obtain kref cdigest algo t0 t t1 r t2 where run: "Hash_Size (HashFunc opts) = Ok (length digest)"
    "getKeyRef os s = (t0, Ok kref)" "bytesToCFData os digest t0 = (t, Ok cdigest)"
    "getAlgo os (HashFunc opts) t = (t1, Ok algo)"
    "mac_create_signature os kref algo cdigest t1 = (t2, Ok r)"
    "\<exists>u. mac_signed os r t2 = (u, Ok sig) \<and> self s' = self u"
    using assms by (auto simp: mac_Sign_def run_simps Let_def split: if_splits)
  obtain v' where digest: "CFDataCreate os digest (system t0) = (cdigest, v')" "cdigest \<noteq> 0" "self t = self t0"
    using run(3) by (auto simp: bytesToCFData_def cf_create_def run_simps split: if_splits prod.splits)
  obtain crt where crt: "mac_Certificate os t = (t1, Ok crt)" "signs_with (PublicKey crt) (HashFunc opts) algo"
    using run(4) by (auto simp: getAlgo_def run_simps mac_algorithm_signs_with)
  obtain csig cerr w' where r: "r = (csig, cerr)"
    "SecKeyCreateSignature os kref algo cdigest (system t1) = ((csig, cerr), w')"
    "system t2 = w'" "self t2 = self t1"
    using run(5) by (auto simp: mac_create_signature_def split: prod.splits)
  obtain u where u: "mac_signed os (csig, cerr) t2 = (u, Ok sig)" "self s' = self u" using run(6) r(1) by auto
  have "cerr = 0"
  proof (rule ccontr)
    assume "cerr \<noteq> 0"
    then show False using u(1)
      by (auto simp: mac_signed_def cfErrorError_def run_simps Let_def split: if_splits option.splits)
  qed
  moreover from this u have "csig \<noteq> 0" "GoBytes (CFData_bytes os csig w') = Ok sig" "self s' = self t1"
    using r(3,4) by (auto simp: mac_signed_def cfErrorError_def cfDataToBytes_def run_simps split: if_splits)
  moreover note getKeyRef_key [OF run(2)] mac_Certificate_of [OF crt(1)]
  moreover from this have "certificate_of os (self s) (self t1) crt" "mac_kref (self t1) = kref"
    using digest(3) by (auto simp: certificate_of_def split: if_splits)
  ultimately show ?thesis using run(1) digest(1,2) crt(2) r(2) by metis
qed

subsection \<open>A concrete system\<close>

text \<open>New references are numbered; every identity has the same RSA certificate.\<close>

definition example_mac :: "nat mac_os" where
  "example_mac =
     (let new = (\<lambda>w. (Suc w, Suc w)); copy = (\<lambda>w. ((0, Suc w), Suc w)) in
     \<lparr>CFDictionaryCreate = (\<lambda>_. new), CFArrayCreate = (\<lambda>_. new), CFArrayGetCount = (\<lambda>_ _. 1),
      CFArrayGetValueAtIndex = (\<lambda>_ _ _. 90), CFDataCreate = (\<lambda>_. new), CFData_bytes = (\<lambda>_ _. [5]),
      CFStringCreateWithCString = (\<lambda>_. new), CFStringGetCStringPtr = (\<lambda>_ _. None),
      CFErrorGetCode = (\<lambda>_ _. 1), CFErrorCopyDescription = (\<lambda>_. new), SecItemCopyMatching = (\<lambda>_. copy),
      SecItemDelete = (\<lambda>_ w. (0, w)), SecPKCS12Import = (\<lambda>_ _. copy), SecIdentityCopyCertificate = (\<lambda>_. copy),
      SecIdentityCopyPrivateKey = (\<lambda>_. copy), SecCertificateCopyData = (\<lambda>_. new), SecPolicyCreateSSL = new,
      SecTrustCreateWithCertificates = (\<lambda>_ _. copy), SecTrustEvaluateWithError = (\<lambda>_ w. ((True, 0), w)),
      SecTrustGetCertificateCount = (\<lambda>_ _. 1), SecTrustCopyCertificateChain = (\<lambda>_. new),
      SecKeyCreateSignature = (\<lambda>_ _ _ w. ((Suc w, 0), Suc w)),
      mac_ParseCertificate = (\<lambda>_. Ok (example_certificate\<lparr>PublicKey := RSAPublicKey [3]\<rparr>))\<rparr>)"

lemma example_mac_contract: "mac_contract example_mac"
  by (simp add: mac_contract_def example_mac_def Let_def)

definition example_process :: "(nat, cfref) process" where
  "example_process = \<lparr>system = 0, owned = {#}, misused = False\<rparr>"

text \<open>The identities are listed, a certificate is read, and an identity is closed twice.\<close>

definition example_mac_run :: "(nat, cfref) process \<times> macIdentity list" where
  "example_mac_run =
     (let opened = mac_Identities example_mac example_process in
      on_object 0 mac_Close (on_object 0 mac_Close
        (on_object 0 (\<lambda>s. fst (mac_Certificate example_mac s)) (fst opened, [] @ made (snd opened)))))"

lemma example_opened: "made (snd (mac_Identities example_mac example_process)) =
    [\<lparr>mac_ref = 90, mac_kref = 0, mac_cref = 0, mac_crt = None, mac_chain = None\<rparr>]"
  by (simp add: mac_Identities_def mapToCFDictionary_def cf_create_def cf_copy_def cf_own_def acquire_def
    release_def bind_op_def defer_op_def done_op_def do_op_def ask_op_def mac_items_def osStatusError_def
    errSecItemNotFound_def newMacIdentity_def example_mac_def example_process_def made_def Let_def)

lemma example_runs: "runs (mac_tidy_calls example_mac) (mac_opens example_mac) (example_process, []) example_mac_run"
proof -
  have open_it: "runs (mac_tidy_calls example_mac) (mac_opens example_mac) (example_process, [])
      (fst (mac_Identities example_mac example_process), [] @ made (snd (mac_Identities example_mac example_process)))"
    by (rule runs.Open, rule runs.Start) (simp add: mac_opens_def)
  show ?thesis
    unfolding example_mac_run_def Let_def
    by (intro runs.Call open_it) (simp_all add: mac_tidy_calls_def example_opened)
qed

theorem mac_no_double_release_witness: "\<not> misused (fst example_mac_run)"
proof (rule mac_no_double_release [OF example_mac_contract])
  have "runs (mac_calls example_mac) (mac_uses example_mac UNIV) (example_process, []) example_mac_run"
    using example_runs by (rule runs_mono) (auto simp: mac_calls_def mac_opens_def mac_uses_def)
  then show "runs (mac_calls example_mac) (mac_uses example_mac UNIV) (example_process, [])
    (fst example_mac_run, snd example_mac_run)" by simp
qed (simp_all add: example_process_def mac_string_def example_mac_def Let_def)

text \<open>A system that makes no string of a password.\<close>

theorem mac_Import_nil_password_witness:
  "misused (fst (mac_Import (example_mac\<lparr>CFStringCreateWithCString := \<lambda>_ w. (0, w)\<rparr>) [1] [CHR 0xFF] example_process))"
  by (rule mac_Import_nil_password [where cdata = 1 and w = 1 and w' = 1])
    (simp_all add: example_mac_def example_process_def Let_def)

theorem mac_all_released_witness:
  "owned (fst (close_all mac_Close example_mac_run)) = {#} \<and> \<not> misused (fst (close_all mac_Close example_mac_run))"
  using mac_all_released [OF example_mac_contract example_runs, of "fst (close_all mac_Close example_mac_run)"
    "snd (close_all mac_Close example_mac_run)"]
  by (simp add: example_process_def)

definition example_call :: "(nat, cfref, macIdentity) call" where
  "example_call = \<lparr>system = 0, owned = {#90#}, misused = False,
     self = \<lparr>mac_ref = 90, mac_kref = 0, mac_cref = 0, mac_crt = None, mac_chain = None\<rparr>\<rparr>"

lemmas mac_run_defs = getCertRef_def getKeyRef_def get_op_def bind_op_def done_op_def do_op_def defer_op_def
  ask_op_def cf_copy_def cf_create_def cf_own_def acquire_def release_def set_self_def osStatusError_def
  example_mac_def example_call_def Let_def

lemma example_getCertRef: "getCertRef example_mac example_call = (example_call\<lparr>system := 1, owned := {#1, 90#},
    self := \<lparr>mac_ref = 90, mac_kref = 0, mac_cref = 1, mac_crt = None, mac_chain = None\<rparr>\<rparr>, Ok 1)"
  by (simp add: mac_run_defs del: One_nat_def)

theorem CertificateChain_leaks_policy_witness:
  "{#2#} \<subseteq># owned (mac_Close (fst (mac_CertificateChain example_mac example_call)))"
  using CertificateChain_leaks_policy [OF example_mac_contract _ _ _ example_getCertRef,
    where F = "{#}" and policy = 2 and w = 2]
  by (simp add: example_call_def example_mac_def mac_refs_def Let_def)

theorem mac_trusted_no_chain_witness:
  "snd (mac_CertificateChain example_mac example_call) = Ok None \<and>
    certsForSignature example_options' (elems (None :: certificate slice)) = Ok []"
proof -
  have r: "snd (mac_CertificateChain example_mac example_call) = Ok None"
    by (simp add: mac_run_defs mac_CertificateChain_def mac_evaluate_def mac_evaluated_def cfErrorError_def)
  then have "mac_CertificateChain example_mac example_call =
      (fst (mac_CertificateChain example_mac example_call), Ok None)" by (simp add: prod_eq_iff)
  moreover have "fst (SecTrustEvaluateWithError example_mac t w) = (True, 0)" for t w
    by (simp add: example_mac_def Let_def)
  moreover have "mac_chain (self example_call) = None" by (simp add: example_call_def)
  ultimately have "certsForSignature example_options' (elems (None :: certificate slice)) = Ok []"
    using mac_trusted_no_chain [of example_mac example_call] by blast
  with r show ?thesis by simp
qed

theorem mac_Sign_algorithm_witness:
  "snd (mac_Sign example_mac (replicate 32 1) (Some (HashOpts SHA256)) example_call) = Ok [5] \<and>
   (\<exists>algo kref cdigest v v' csig w w'. key_of example_mac example_call kref \<and>
     CFDataCreate example_mac (replicate 32 1) v = (cdigest, v') \<and>
     signs_with (RSAPublicKey [3]) SHA256 algo \<and>
     SecKeyCreateSignature example_mac kref algo cdigest w = ((csig, 0), w') \<and>
     GoBytes (CFData_bytes example_mac csig w') = Ok [5])"
proof -
  have r: "snd (mac_Sign example_mac (replicate 32 1) (Some (HashOpts SHA256)) example_call) = Ok [5]"
    by (simp add: mac_run_defs mac_Sign_def getAlgo_def mac_Certificate_def exportCertRef_def
      cfDataToBytes_def GoBytes_def C_int_def bytesToCFData_def mac_algorithm_def mac_create_signature_def
      mac_signed_def cfErrorError_def)
  then have run: "mac_Sign example_mac (replicate 32 1) (Some (HashOpts SHA256)) example_call =
      (fst (mac_Sign example_mac (replicate 32 1) (Some (HashOpts SHA256)) example_call), Ok [5])"
    by (simp add: prod_eq_iff)
  have key: "PublicKey crt = RSAPublicKey [3]" if "certificate_of example_mac i i' crt" for i i' crt
    using that by (auto simp: certificate_of_def example_mac_def Let_def)
  from mac_Sign_algorithm [OF run] show ?thesis unfolding HashFunc.simps using r key by metis
qed

end
