(* ===== verification/Win_Store.thy ===== *)
theory Win_Store
  imports Resources
begin

text \<open>
  The certificate store of Windows (certstore/certstore_windows.go).  The functions of the CryptoAPI and
  of CNG are the fields of \<open>win_os\<close>; a handle or a context is a number, 0 the nil pointer, and the ledger
  of the process tells them apart by their kind.  What the documentation says about ownership is part of
  the model: the functions that continue a search free the context they are given, deleting a
  certificate frees its context, and deleting a CNG key frees its handle.
\<close>

datatype win_ref = CertContext nat | ChainContext nat | CertStore nat | CngKey nat | CapiProv nat | CapiHash nat

datatype capi_algorithm = CALG_SHA1 | CALG_SHA_256 | CALG_SHA_384 | CALG_SHA_512

datatype provider_param = PP_CONTAINER | PP_NAME | PP_PROVTYPE

type_synonym dword = "32 word"

text \<open>What is read of a \<open>CERT_CHAIN_CONTEXT\<close>: the number of chains, and the elements of the first.\<close>

record win_chain =
  cChain :: nat
  rgpElement :: "nat list"

text \<open>
  What the code calls.  A \<open>BOOL\<close> is a \<open>bool\<close>; a buffer that is passed is given by its length, \<open>None\<close> for
  a nil buffer, and what is written to it is returned.
\<close>

record 'w win_os =
  GetLastError :: "'w \<Rightarrow> dword"
  FormatMessage :: "dword \<Rightarrow> 'w \<Rightarrow> string option"
  CertOpenStore :: "nat list \<Rightarrow> 'w \<Rightarrow> nat \<times> 'w"
  CertFindChainInStore :: "nat \<Rightarrow> nat \<Rightarrow> 'w \<Rightarrow> nat \<times> 'w"
  chain_context :: "nat \<Rightarrow> 'w \<Rightarrow> win_chain"
  PFXImportCertStore :: "bytes \<Rightarrow> nat list \<Rightarrow> dword \<Rightarrow> 'w \<Rightarrow> nat \<times> 'w"
  CertFindCertificateInStore :: "nat \<Rightarrow> nat \<Rightarrow> 'w \<Rightarrow> nat \<times> 'w"
  CertAddCertificateContextToStore :: "nat \<Rightarrow> nat \<Rightarrow> 'w \<Rightarrow> bool \<times> 'w"
  CertDeleteCertificateFromStore :: "nat \<Rightarrow> 'w \<Rightarrow> bool \<times> 'w"
  cert_encoded :: "nat \<Rightarrow> 'w \<Rightarrow> bytes"
  CryptAcquireCertificatePrivateKey :: "nat \<Rightarrow> dword \<Rightarrow> 'w \<Rightarrow> (bool \<times> nat \<times> dword \<times> bool) \<times> 'w"
  NCryptSignHash :: "nat \<Rightarrow> string option \<Rightarrow> bytes \<Rightarrow> nat option \<Rightarrow> dword \<Rightarrow> 'w \<Rightarrow> (dword \<times> bytes \<times> nat) \<times> 'w"
  NCryptDeleteKey :: "nat \<Rightarrow> 'w \<Rightarrow> dword \<times> 'w"
  CryptCreateHash :: "nat \<Rightarrow> capi_algorithm \<Rightarrow> 'w \<Rightarrow> (bool \<times> nat) \<times> 'w"
  CryptGetHashParam :: "nat \<Rightarrow> 'w \<Rightarrow> (bool \<times> nat) \<times> 'w"
  CryptSetHashParam :: "nat \<Rightarrow> bytes \<Rightarrow> 'w \<Rightarrow> bool \<times> 'w"
  CryptSignHash :: "nat \<Rightarrow> dword \<Rightarrow> nat option \<Rightarrow> 'w \<Rightarrow> (bool \<times> bytes \<times> nat) \<times> 'w"
  CryptGetProvParam :: "nat \<Rightarrow> provider_param \<Rightarrow> nat option \<Rightarrow> 'w \<Rightarrow> (bool \<times> bytes \<times> nat) \<times> 'w"
  CryptDeleteKeySet :: "bytes \<Rightarrow> bytes \<Rightarrow> dword \<Rightarrow> 'w \<Rightarrow> bool \<times> 'w"
  win_ParseCertificate :: "bytes \<Rightarrow> certificate outcome"

type_synonym ('w, 'z, 'a) win_op = "(('w, win_ref, 'z) process_scheme, 'a) op"

subsection \<open>Constants\<close>

definition CRYPT_E_NOT_FOUND :: "64 word" where "CRYPT_E_NOT_FOUND = 0x80092004"
definition NTE_BAD_ALGID :: "64 word" where "NTE_BAD_ALGID = 0x80090008"
definition CRYPT_ACQUIRE_PREFER_NCRYPT_KEY_FLAG :: dword where "CRYPT_ACQUIRE_PREFER_NCRYPT_KEY_FLAG = 0x00020000"
definition CRYPT_ACQUIRE_ONLY_NCRYPT_KEY_FLAG :: dword where "CRYPT_ACQUIRE_ONLY_NCRYPT_KEY_FLAG = 0x00040000"
definition CERT_NCRYPT_KEY_SPEC :: dword where "CERT_NCRYPT_KEY_SPEC = 0xFFFFFFFF"
definition CRYPT_USER_KEYSET :: dword where "CRYPT_USER_KEYSET = 0x00001000"
definition PKCS12_PREFER_CNG_KSP :: dword where "PKCS12_PREFER_CNG_KSP = 0x00000100"
definition PKCS12_ALWAYS_CNG_KSP :: dword where "PKCS12_ALWAYS_CNG_KSP = 0x00000200"
definition BCRYPT_PAD_PKCS1 :: dword where "BCRYPT_PAD_PKCS1 = 0x00000002"

subsection \<open>Errors\<close>

text \<open>\<open>errors.Cause\<close>: the error at the bottom of all wrappings.\<close>

fun Cause :: "go_error \<Rightarrow> go_error" where
  "Cause (Wrapped msg e) = Cause e"
| "Cause e = e"

definition checkError :: "'w win_os \<Rightarrow> string \<Rightarrow> 'w \<Rightarrow> go_error option" where
  "checkError os msg w =
     (let code = ucast (GetLastError os w) :: 64 word in
      if code \<noteq> 0 then Some (Wrapped msg (errCode code)) else None)"

definition lastError :: "'w win_os \<Rightarrow> string \<Rightarrow> 'w \<Rightarrow> go_error" where
  "lastError os msg w = (case checkError os msg w of Some e \<Rightarrow> e | None \<Rightarrow> ErrorString msg)"

definition fail_last :: "'w win_os \<Rightarrow> string \<Rightarrow> ('w, 'z, 'a) win_op" where
  "fail_last os msg = bind_op (ask_op (lastError os msg)) (\<lambda>e. done_op (Err e))"

text \<open>
  A \<open>SECURITY_STATUS\<close> is a signed number of 32 bits, which the conversion to \<open>uint64\<close> extends with its sign.
\<close>

definition checkStatus :: "dword \<Rightarrow> unit outcome" where
  "checkStatus s =
     (let ss = scast s :: 64 word in
      if ss = 0 then Ok ()
      else if ss = NTE_BAD_ALGID then Err ErrUnsupportedHash
      else Err (securityStatus ss))"

definition hex_digit_upper :: "nat \<Rightarrow> char" where
  "hex_digit_upper n = (if n < 10 then char_of (48 + n) else char_of (55 + n))"

fun hex_upper :: "nat \<Rightarrow> string" where
  "hex_upper n = (if n < 16 then [hex_digit_upper n] else hex_upper (n div 16) @ [hex_digit_upper (n mod 16)])"

declare hex_upper.simps [simp del]

text \<open>\<open>%X\<close> of an \<open>int\<close>.\<close>

definition hex_int_upper :: "int \<Rightarrow> string" where
  "hex_int_upper i = (if i < 0 then ''-'' @ hex_upper (nat (- i)) else hex_upper (nat i))"

definition errCode_Error :: "'w win_os \<Rightarrow> 64 word \<Rightarrow> 'w \<Rightarrow> string" where
  "errCode_Error os c w =
     (case FormatMessage os (ucast c) w of
        None \<Rightarrow> ''Error '' @ hex_int_upper (sint c)
      | Some gomsg \<Rightarrow> ''Error: '' @ hex_int_upper (sint c) @ '' '' @ gomsg)"

definition securityStatus_Error :: "64 word \<Rightarrow> string" where
  "securityStatus_Error ss = ''SECURITY_STATUS '' @ show_int (sint ss)"

subsection \<open>Conversions\<close>

text \<open>\<open>utf16.Encode\<close> of runes; surrogates and what is out of range become the replacement character.\<close>

definition utf16_encode :: "nat \<Rightarrow> nat list" where
  "utf16_encode r =
     (if r < 0xD800 \<or> (0xE000 \<le> r \<and> r < 0x10000) then [r]
      else if 0x10000 \<le> r \<and> r \<le> 0x10FFFF
      then [0xD800 + (r - 0x10000) div 1024 mod 1024, 0xDC00 + (r - 0x10000) mod 1024]
      else [0xFFFD])"

text \<open>The units, ended by 0; the copy is limited to \<open>maxUint16Array\<close> units.\<close>

definition stringToUTF16 :: "string \<Rightarrow> nat list outcome" where
  "stringToUTF16 s =
     (if length s > 2 ^ 29 then Panic (PanicMsg ''string too long'')
      else let wstr = concat (map (utf16_encode \<circ> fst) (runes s)) in
        Ok (take (2 ^ 29) wstr @ replicate (Suc (length wstr) - min (2 ^ 29) (length wstr)) 0))"

definition exportCertCtx :: "'w win_os \<Rightarrow> nat \<Rightarrow> ('w, 'z, certificate) win_op" where
  "exportCertCtx os ctx =
     bind_op (ask_op (cert_encoded os ctx)) (\<lambda>bs.
     bind_op (done_op (GoBytes bs)) (\<lambda>bs.
       wrap_op ''certificate parsing failed'' (done_op (win_ParseCertificate os bs))))"

subsection \<open>The private key\<close>

record winPrivateKey =
  publicKey :: public_key
  capiProv :: nat
  cngHandle :: nat
  keySpec :: dword

definition newWinPrivateKey :: "'w win_os \<Rightarrow> dword \<Rightarrow> nat \<Rightarrow> public_key option \<Rightarrow> ('w, 'z, winPrivateKey) win_op" where
  "newWinPrivateKey os winAPIFlag certCtx pub =
     (case pub of
        None \<Rightarrow> done_op (Err (ErrorString ''nil public key''))
      | Some pub \<Rightarrow>
          bind_op (sys_op (CryptAcquireCertificatePrivateKey os certCtx winAPIFlag))
            (\<lambda>(ok, provOrKey, spec, mustFree).
             if \<not> ok then fail_last os ''failed to get private key for certificate''
             else if \<not> mustFree
             then done_op (Err (ErrorString ''CryptAcquireCertificatePrivateKey set mustFree''))
             else if spec = CERT_NCRYPT_KEY_SPEC
             then do_op (if provOrKey = 0 then id else acquire (CngKey provOrKey))
               (done_op (Ok \<lparr>publicKey = pub, capiProv = 0, cngHandle = provOrKey, keySpec = 0\<rparr>))
             else do_op (if provOrKey = 0 then id else acquire (CapiProv provOrKey))
               (done_op (Ok \<lparr>publicKey = pub, capiProv = provOrKey, cngHandle = 0, keySpec = spec\<rparr>))))"

definition wpk_Public :: "winPrivateKey \<Rightarrow> public_key" where
  "wpk_Public wpk = publicKey wpk"

text \<open>What a call writes to a buffer replaces its beginning.\<close>

definition overwrite :: "bytes \<Rightarrow> bytes \<Rightarrow> bytes" where
  "overwrite out buf = take (length buf) (out @ drop (length out) buf)"

definition cng_padding :: "public_key \<Rightarrow> crypto_hash \<Rightarrow> string option outcome" where
  "cng_padding pub hash =
     (case pub of
        RSAPublicKey _ \<Rightarrow>
          (case hash of
             SHA1 \<Rightarrow> Ok (Some ''SHA1'')
           | SHA256 \<Rightarrow> Ok (Some ''SHA256'')
           | SHA384 \<Rightarrow> Ok (Some ''SHA384'')
           | SHA512 \<Rightarrow> Ok (Some ''SHA512'')
           | _ \<Rightarrow> Err ErrUnsupportedHash)
      | _ \<Rightarrow> Ok None)"

text \<open>The two halves of a raw signature become a SEQUENCE of two INTEGERs.\<close>

definition cng_encode :: "public_key \<Rightarrow> bytes \<Rightarrow> bytes outcome" where
  "cng_encode pub sig =
     (case pub of
        ECDSAPublicKey _ _ \<Rightarrow>
          if length sig mod 2 \<noteq> 0 then Err (ErrorString ''bad ecdsa signature from CNG'')
          else Ok (seq_tlv (int_tlv (int (be_value (subslice sig 0 (length sig div 2)))) @
                 int_tlv (int (be_value (subslice sig (length sig div 2) (length sig))))))
      | _ \<Rightarrow> Ok sig)"

definition cngSignHash :: "'w win_os \<Rightarrow> winPrivateKey \<Rightarrow> crypto_hash \<Rightarrow> bytes \<Rightarrow> ('w, 'z, bytes) win_op" where
  "cngSignHash os wpk hash digest =
     bind_op (done_op (Hash_Size hash)) (\<lambda>size.
     if length digest \<noteq> size then done_op (Err (ErrorString ''bad digest for hash''))
     else
       bind_op (done_op (byte_at digest 0)) (\<lambda>_.
       bind_op (done_op (cng_padding (publicKey wpk) hash)) (\<lambda>pad.
       let flags = (if pad = None then 0 else BCRYPT_PAD_PKCS1) in
       bind_op (sys_op (NCryptSignHash os (cngHandle wpk) pad digest None flags)) (\<lambda>(status, _, sigLen).
       bind_op (wrap_op ''failed to get signature length'' (done_op (checkStatus status))) (\<lambda>_.
       let sig = replicate sigLen 0 in
       bind_op (done_op (byte_at sig 0)) (\<lambda>_.
       bind_op (sys_op (NCryptSignHash os (cngHandle wpk) pad digest (Some sigLen) flags)) (\<lambda>(status, out, _).
       bind_op (wrap_op ''failed to sign digest'' (done_op (checkStatus status))) (\<lambda>_.
         done_op (cng_encode (publicKey wpk) (overwrite out sig))))))))))"

definition capi_hash :: "crypto_hash \<Rightarrow> capi_algorithm outcome" where
  "capi_hash hash =
     (case hash of
        SHA1 \<Rightarrow> Ok CALG_SHA1
      | SHA256 \<Rightarrow> Ok CALG_SHA_256
      | SHA384 \<Rightarrow> Ok CALG_SHA_384
      | SHA512 \<Rightarrow> Ok CALG_SHA_512
      | _ \<Rightarrow> Err ErrUnsupportedHash)"

text \<open>The loop that reverses in place, with \<open>i\<close> from the middle down to 0.\<close>

fun reverse_loop :: "nat \<Rightarrow> 'a list \<Rightarrow> 'a list" where
  "reverse_loop 0 sig = sig"
| "reverse_loop (Suc i) sig =
     (let opp = length sig - 1 - i in reverse_loop i (sig[i := sig ! opp, opp := sig ! i]))"

text \<open>Everything after the hash object is made.\<close>

definition capi_sign :: "'w win_os \<Rightarrow> winPrivateKey \<Rightarrow> nat \<Rightarrow> bytes \<Rightarrow> nat \<Rightarrow> ('w, 'z, bytes) win_op" where
  "capi_sign os wpk sz digest chash =
     bind_op (sys_op (CryptGetHashParam os chash)) (\<lambda>(ok, hashSize).
     if \<not> ok then fail_last os ''failed to get hash size''
     else if int sz \<noteq> int hashSize then done_op (Err (ErrorString ''invalid CryptoAPI hash''))
     else
       bind_op (done_op (byte_at digest 0)) (\<lambda>_.
       bind_op (sys_op (CryptSetHashParam os chash digest)) (\<lambda>ok.
       if \<not> ok then fail_last os ''failed to set hash digest''
       else bind_op (sys_op (CryptSignHash os chash (keySpec wpk) None)) (\<lambda>(ok, _, sigLen).
       if \<not> ok then fail_last os ''failed to get signature length''
       else let sig = replicate sigLen 0 in
       bind_op (done_op (byte_at sig 0)) (\<lambda>_.
       bind_op (sys_op (CryptSignHash os chash (keySpec wpk) (Some sigLen))) (\<lambda>(ok, out, _).
       if \<not> ok then fail_last os ''failed to sign digest''
       else let sig = overwrite out sig in done_op (Ok (reverse_loop (length sig div 2) sig))))))))"

definition capiSignHash :: "'w win_os \<Rightarrow> winPrivateKey \<Rightarrow> crypto_hash \<Rightarrow> bytes \<Rightarrow> ('w, 'z, bytes) win_op" where
  "capiSignHash os wpk hash digest =
     bind_op (done_op (Hash_Size hash)) (\<lambda>sz.
     if length digest \<noteq> sz then done_op (Err (ErrorString ''bad digest for hash''))
     else
       bind_op (done_op (capi_hash hash)) (\<lambda>hash_alg.
       bind_op (sys_op (CryptCreateHash os (capiProv wpk) hash_alg)) (\<lambda>(ok, chash).
       if \<not> ok
       then bind_op (ask_op (lastError os ''failed to create hash'')) (\<lambda>err.
         done_op (Err (if Cause err = errCode NTE_BAD_ALGID then ErrUnsupportedHash else err)))
       else do_op (acquire (CapiHash chash))
         (defer_op (release (CapiHash chash)) (capi_sign os wpk sz digest chash)))))"

definition wpk_Sign :: "'w win_os \<Rightarrow> winPrivateKey \<Rightarrow> bytes \<Rightarrow> signer_opts option \<Rightarrow> ('w, 'z, bytes) win_op" where
  "wpk_Sign os wpk digest opts =
     (if capiProv wpk \<noteq> 0 then
        (case opts of None \<Rightarrow> done_op (Panic NilDereference) | Some opts \<Rightarrow> capiSignHash os wpk (HashFunc opts) digest)
      else if cngHandle wpk \<noteq> 0 then
        (case opts of None \<Rightarrow> done_op (Panic NilDereference) | Some opts \<Rightarrow> cngSignHash os wpk (HashFunc opts) digest)
      else done_op (Err (ErrorString ''bad private key'')))"

text \<open>The copy the function returns in C memory is never freed; such memory is not in the ledger.\<close>

definition getProviderParam :: "'w win_os \<Rightarrow> winPrivateKey \<Rightarrow> provider_param \<Rightarrow> ('w, 'z, bytes) win_op" where
  "getProviderParam os wpk param =
     bind_op (sys_op (CryptGetProvParam os (capiProv wpk) param None)) (\<lambda>(ok, _, dataLen).
     if \<not> ok then fail_last os ''failed to get provider parameter size''
     else let data = replicate dataLen 0 in
       bind_op (done_op (byte_at data 0)) (\<lambda>_.
       bind_op (sys_op (CryptGetProvParam os (capiProv wpk) param (Some dataLen))) (\<lambda>(ok, out, _).
       if \<not> ok then fail_last os ''failed to get provider parameter''
       else done_op (Ok (overwrite out data)))))"

text \<open>\<open>NCryptDeleteKey\<close> frees the handle when it succeeds.\<close>

definition cng_delete :: "'w win_os \<Rightarrow> nat \<Rightarrow> ('w, 'z, dword) win_op" where
  "cng_delete os handle =
     bind_op (sys_op (NCryptDeleteKey os handle)) (\<lambda>status.
       do_op (if status = 0 then release (CngKey handle) else id) (done_op (Ok status)))"

definition wpk_Delete :: "'w win_os \<Rightarrow> winPrivateKey \<Rightarrow> ('w, 'z, unit) win_op" where
  "wpk_Delete os wpk =
     (if cngHandle wpk \<noteq> 0
      then bind_op (cng_delete os (cngHandle wpk)) (\<lambda>status. done_op (checkStatus status))
      else if capiProv wpk \<noteq> 0
      then bind_op (wrap_op ''failed to get PP_CONTAINER'' (getProviderParam os wpk PP_CONTAINER)) (\<lambda>containerName.
           bind_op (wrap_op ''failed to get PP_NAME'' (getProviderParam os wpk PP_NAME)) (\<lambda>providerName.
           bind_op (wrap_op ''failed to get PP_PROVTYPE'' (getProviderParam os wpk PP_PROVTYPE)) (\<lambda>providerType.
           bind_op (sys_op (CryptDeleteKeySet os containerName providerName (word_rcat (rev (take 4 providerType)))))
             (\<lambda>ok. if \<not> ok then fail_last os ''failed to delete key set'' else done_op (Ok ())))))
      else done_op (Err (ErrorString ''bad private key'')))"

text \<open>\<open>Close\<close> of a key, on the process and the key.\<close>

definition wpk_Close :: "winPrivateKey \<Rightarrow> ('w, win_ref, 'z) process_scheme \<Rightarrow> ('w, win_ref, 'z) process_scheme" where
  "wpk_Close wpk s =
     (let s = (if cngHandle wpk \<noteq> 0 then release (CngKey (cngHandle wpk)) s else s) in
      if capiProv wpk \<noteq> 0 then release (CapiProv (capiProv wpk)) s else s)"

subsection \<open>The identity\<close>

record winIdentity =
  win_chain_contexts :: "nat list"
  win_signer :: "winPrivateKey option"

type_synonym ('w, 'a) win_method = "(('w, win_ref, winIdentity) call, 'a) op"

definition duplicate_contexts :: "nat list \<Rightarrow> ('w, win_ref, 'z) process_scheme \<Rightarrow> ('w, win_ref, 'z) process_scheme" where
  "duplicate_contexts ctxs s = fold (\<lambda>ctx. acquire (CertContext ctx)) ctxs s"

definition newWinIdentity :: "nat list \<Rightarrow> ('w, 'z, winIdentity) win_op" where
  "newWinIdentity ctxs =
     do_op (duplicate_contexts ctxs) (done_op (Ok \<lparr>win_chain_contexts = ctxs, win_signer = None\<rparr>))"

definition win_Certificate :: "'w win_os \<Rightarrow> ('w, certificate) win_method" where
  "win_Certificate os = get_op (\<lambda>s.
     bind_op (done_op (byte_at (win_chain_contexts (self s)) 0)) (exportCertCtx os))"

definition win_CertificateChain :: "'w win_os \<Rightarrow> ('w, certificate list) win_method" where
  "win_CertificateChain os = get_op (\<lambda>s. traverse_op (exportCertCtx os) (win_chain_contexts (self s)))"

definition win_getPrivateKey :: "'w win_os \<Rightarrow> dword \<Rightarrow> ('w, winPrivateKey) win_method" where
  "win_getPrivateKey os winAPIFlag = get_op (\<lambda>s.
     case win_signer (self s) of
       Some wpk \<Rightarrow> done_op (Ok wpk)
     | None \<Rightarrow>
         bind_op (wrap_op ''failed to get identity certificate'' (win_Certificate os)) (\<lambda>cert.
         bind_op (done_op (byte_at (win_chain_contexts (self s)) 0)) (\<lambda>ctx.
         bind_op (wrap_op ''failed to load identity private key''
             (newWinPrivateKey os winAPIFlag ctx (Some (PublicKey cert)))) (\<lambda>wpk.
           do_op (set_self (\<lambda>i. i\<lparr>win_signer := Some wpk\<rparr>)) (done_op (Ok wpk))))))"

definition win_Signer :: "'w win_os \<Rightarrow> dword \<Rightarrow> ('w, winPrivateKey) win_method" where
  "win_Signer os winAPIFlag = win_getPrivateKey os winAPIFlag"

text \<open>\<open>CertDeleteCertificateFromStore\<close> frees the context it is given, also when it fails.\<close>

definition delete_certificate :: "'w win_os \<Rightarrow> nat \<Rightarrow> ('w, 'z, bool) win_op" where
  "delete_certificate os ctx =
     do_op (acquire (CertContext ctx))
       (bind_op (sys_op (CertDeleteCertificateFromStore os ctx)) (\<lambda>ok.
          do_op (release (CertContext ctx)) (done_op (Ok ok))))"

definition win_Delete :: "'w win_os \<Rightarrow> dword \<Rightarrow> ('w, unit) win_method" where
  "win_Delete os winAPIFlag = get_op (\<lambda>s.
     bind_op (done_op (byte_at (win_chain_contexts (self s)) 0)) (\<lambda>ctx.
     bind_op (delete_certificate os ctx) (\<lambda>ok.
     if \<not> ok then fail_last os ''failed to delete certificate from store''
     else bind_op (wrap_op ''failed to get identity private key'' (win_getPrivateKey os winAPIFlag)) (\<lambda>wpk.
       wrap_op ''failed to delete identity private key'' (wpk_Delete os wpk)))))"

text \<open>The loop sets the chain to nil in every round; the contexts are those of the slice it ranges over.\<close>

definition win_Close :: "('w, win_ref, winIdentity) call \<Rightarrow> ('w, win_ref, winIdentity) call" where
  "win_Close s =
     (let s = (case win_signer (self s) of
                 Some wpk \<Rightarrow> set_self (\<lambda>i. i\<lparr>win_signer := None\<rparr>) (wpk_Close wpk s)
               | None \<Rightarrow> s) in
      fold (\<lambda>ctx s. set_self (\<lambda>i. i\<lparr>win_chain_contexts := []\<rparr>) (release (CertContext ctx) s))
        (win_chain_contexts (self s)) s)"

subsection \<open>The store\<close>

definition win_openStore :: "'w win_os \<Rightarrow> ('w, 'z, nat) win_op" where
  "win_openStore os =
     bind_op (done_op (stringToUTF16 ''MY'')) (\<lambda>storeName.
     bind_op (sys_op (CertOpenStore os storeName)) (\<lambda>st.
       if st = 0 then fail_last os ''failed to open system cert store''
       else do_op (acquire (CertStore st)) (done_op (Ok st))))"

definition winStore_Close :: "nat \<Rightarrow> ('w, win_ref, 'z) process_scheme \<Rightarrow> ('w, win_ref, 'z) process_scheme \<times> nat" where
  "winStore_Close st s = (release (CertStore st) s, 0)"

definition maxPointerArray :: nat where
  "maxPointerArray = 2 ^ 28"

text \<open>A search continued: the context it is given is freed, the one it finds is the caller's.\<close>

definition search_next :: "(nat \<Rightarrow> win_ref) \<Rightarrow> (nat \<Rightarrow> 'w \<Rightarrow> nat \<times> 'w) \<Rightarrow> nat \<Rightarrow>
    ('w, win_ref, 'z) process_scheme \<Rightarrow> ('w, win_ref, 'z) process_scheme \<times> nat" where
  "search_next kind look prev s =
     (case look prev (system s) of (ctx, w) \<Rightarrow>
        let s = (if prev = 0 then s else release (kind prev) s)\<lparr>system := w\<rparr> in
        (if ctx = 0 then s else acquire (kind ctx) s, ctx))"

text \<open>One round: the end, a chain's elements, or an error.\<close>

definition chain_elements :: "win_chain \<Rightarrow> nat list outcome" where
  "chain_elements c =
     (if cChain c < 1 then Err (ErrorString ''bad chain'')
      else if length (rgpElement c) < 1 \<or> length (rgpElement c) > maxPointerArray
      then Err (ErrorString ''bad chain'')
      else Ok (rgpElement c))"

text \<open>\<open>None\<close> is a search that does not end.\<close>

partial_function (option) find_chains ::
  "'w win_os \<Rightarrow> nat \<Rightarrow> nat \<Rightarrow> winIdentity list \<Rightarrow> ('w, win_ref) process \<Rightarrow>
     (('w, win_ref) process \<times> winIdentity list \<times> unit outcome) option" where
  "find_chains os st prev idents s =
     (case search_next ChainContext (CertFindChainInStore os st) prev s of (s, chainCtx) \<Rightarrow>
        if chainCtx = 0 then Some (s, idents, Ok ())
        else case chain_elements (chain_context os chainCtx (system s)) of
          Ok ctxs \<Rightarrow>
            (case newWinIdentity ctxs s of
               (s, Ok ident) \<Rightarrow> find_chains os st chainCtx (idents @ [ident]) s
             | (s, Err e) \<Rightarrow> Some (s, idents, Err e)
             | (s, Panic p) \<Rightarrow> Some (s, idents, Panic p))
        | Err e \<Rightarrow> Some (s, idents, Err e)
        | Panic p \<Rightarrow> Some (s, idents, Panic p))"

text \<open>\<open>fail\<close>: the identities made so far are closed.\<close>

definition close_idents :: "winIdentity list \<Rightarrow> ('w, win_ref) process \<Rightarrow> ('w, win_ref) process" where
  "close_idents idents s = fst (close_all win_Close (s, idents))"

definition iteration_error :: "'w win_os \<Rightarrow> 'w \<Rightarrow> go_error option" where
  "iteration_error os w =
     (case checkError os ''failed to iterate certs in store'' w of
        None \<Rightarrow> None
      | Some e \<Rightarrow> if Cause e \<noteq> errCode CRYPT_E_NOT_FOUND then Some e else None)"

definition win_Identities :: "'w win_os \<Rightarrow> nat \<Rightarrow> ('w, win_ref) process \<Rightarrow>
    (('w, win_ref) process \<times> winIdentity list outcome) option" where
  "win_Identities os st s =
     map_option (\<lambda>(s, idents, r).
       case r of
         Err e \<Rightarrow> (close_idents idents s, Err e)
       | Panic p \<Rightarrow> (s, Panic p)
       | Ok _ \<Rightarrow>
           (case iteration_error os (system s) of
              Some e \<Rightarrow> (close_idents idents s, Err e)
            | None \<Rightarrow> (s, Ok idents)))
       (find_chains os st 0 [] s)"

text \<open>The loop of \<open>Import\<close> over the certificates of the temporary store.\<close>

partial_function (option) import_certs ::
  "'w win_os \<Rightarrow> nat \<Rightarrow> nat \<Rightarrow> nat \<Rightarrow> ('w, win_ref, 'z) process_scheme \<Rightarrow>
     (('w, win_ref, 'z) process_scheme \<times> unit outcome) option" where
  "import_certs os to_store from_store prev s =
     (case search_next CertContext (CertFindCertificateInStore os from_store) prev s of (s, ctx) \<Rightarrow>
        if ctx = 0
        then Some (s, case iteration_error os (system s) of Some e \<Rightarrow> Err e | None \<Rightarrow> Ok ())
        else case CertAddCertificateContextToStore os to_store ctx (system s) of (ok, w) \<Rightarrow>
          if \<not> ok
          then Some (s\<lparr>system := w\<rparr>, Err (lastError os ''failed to add importerd certificate to MY store'' w))
          else import_certs os to_store from_store ctx (s\<lparr>system := w\<rparr>))"

definition import_flags :: "dword \<Rightarrow> dword" where
  "import_flags winAPIFlag =
     (if winAPIFlag AND CRYPT_ACQUIRE_PREFER_NCRYPT_KEY_FLAG > 0 then CRYPT_USER_KEYSET OR PKCS12_PREFER_CNG_KSP
      else if winAPIFlag AND CRYPT_ACQUIRE_ONLY_NCRYPT_KEY_FLAG > 0 then CRYPT_USER_KEYSET OR PKCS12_ALWAYS_CNG_KSP
      else CRYPT_USER_KEYSET)"

text \<open>The length of the data is cut to 32 bits.\<close>

definition win_Import :: "'w win_os \<Rightarrow> dword \<Rightarrow> nat \<Rightarrow> bytes \<Rightarrow> string \<Rightarrow> ('w, win_ref, 'z) process_scheme \<Rightarrow>
    (('w, win_ref, 'z) process_scheme \<times> unit outcome) option" where
  "win_Import os winAPIFlag st data password s =
     (case stringToUTF16 password of
        Ok cpw \<Rightarrow>
          (case PFXImportCertStore os (take (length data mod 2 ^ 32) data) cpw (import_flags winAPIFlag) (system s) of (pfx, w) \<Rightarrow>
             let s = s\<lparr>system := w\<rparr> in
             if pfx = 0 then Some (s, Err (lastError os ''failed to import PFX cert store'' w))
             else map_option (\<lambda>(s, r). (release (CertStore pfx) s, r))
                    (import_certs os st pfx 0 (acquire (CertStore pfx) s)))
      | Err e \<Rightarrow> Some (s, Err e)
      | Panic p \<Rightarrow> Some (s, Panic p))"

end
