(* ===== verification/Win_Store_Spec.thy ===== *)
theory Win_Store_Spec
  imports Win_Store Sign_Verify
begin

text \<open>
  Properties of the certificate store of Windows: conversions and signatures, what is owned and given
  back, and the handle that is freed twice when an identity is deleted.
\<close>

subsection \<open>Reversing in place\<close>

lemma length_reverse_loop [simp]: "length (reverse_loop n xs) = length xs"
  by (induction n arbitrary: xs) (simp_all add: Let_def)

text \<open>Outside of the middle the elements are mirrored.\<close>

lemma nth_reverse_loop:
  "2 * n \<le> length xs \<Longrightarrow> k < length xs \<Longrightarrow>
     reverse_loop n xs ! k = (if k < n \<or> length xs - n \<le> k then xs ! (length xs - 1 - k) else xs ! k)"
proof (induction n arbitrary: xs)
  case (Suc n)
  then show ?case by (auto simp: Let_def nth_list_update)
qed simp

lemma reverse_loop_rev: "reverse_loop (length sig div 2) sig = rev sig"
  by (rule nth_equalityI) (auto simp: nth_reverse_loop rev_nth intro: arg_cong [of _ _ "nth sig"])

text \<open>
  C23: A CryptoAPI signature is the reverse of what \<open>CryptSignHash\<close> wrote, big-endian where that is
  little-endian, and it was made by a key of the CryptoAPI for a digest as long as the hash.
\<close>

theorem capi_signature_reversed:
  fixes s :: "('w, win_ref, 'z) process_scheme"
  assumes "wpk_Sign os wpk digest (Some opts) s = (s', Ok sig)" "capiProv wpk \<noteq> 0"
  shows "Hash_Size (HashFunc opts) = Ok (length digest) \<and>
    (\<exists>chash w n out n' w'. CryptSignHash os chash (keySpec wpk) (Some n) w = ((True, out, n'), w') \<and> 0 < n \<and>
      sig = rev (overwrite out (replicate n 0)))"
proof -
  obtain chash and t u :: "('w, win_ref, 'z) process_scheme" where run: "Hash_Size (HashFunc opts) = Ok (length digest)"
    "capi_sign os wpk (length digest) digest chash t = (u, Ok sig)"
    using assms by (auto simp: wpk_Sign_def capiSignHash_def run_simps split: if_splits)
  then obtain n out n' w w' where "CryptSignHash os chash (keySpec wpk) (Some n) w = ((True, out, n'), w')"
    "sig = rev (overwrite out (replicate n 0))" "byte_at (replicate n (0 :: byte)) 0 = Ok 0"
    by (auto simp: capi_sign_def run_simps sys_op_def fail_last_def reverse_loop_rev Let_def
      byte_at_Ok_iff split: if_splits prod.splits)
  moreover from this(3) have "0 < n" by (simp add: byte_at_Ok_iff)
  ultimately show ?thesis using run(1) by blast
qed

subsection \<open>ECDSA signatures\<close>

lemma length_int_octets: "0 \<le> i \<Longrightarrow> i < 256 ^ k \<Longrightarrow> length (int_octets i) \<le> Suc k"
proof (induction k arbitrary: i)
  case 0
  then show ?case by (simp add: int_octets_small)
next
  case (Suc k)
  show ?case
  proof (cases "-128 \<le> i \<and> i \<le> 127")
    case True
    then show ?thesis by (simp add: int_octets_small)
  next
    case False
    have "i div 256 < 256 ^ k" using Suc.prems by (simp add: div_less_iff_less_mult mult.commute)
    then have "length (int_octets (i div 256)) \<le> Suc k" using Suc by simp
    then show ?thesis by (simp add: int_octets_large [OF False])
  qed
qed

definition parse_ecdsa_signature :: "bytes \<Rightarrow> (int \<times> int) outcome" where
  "parse_ecdsa_signature bs =
     obind (big_int_field plain bs) (\<lambda>(r, bs). obind (big_int_field plain bs) (\<lambda>(s, _). Ok (r, s)))"

text \<open>
  C22: A raw ECDSA signature of CNG is written so that decoding the SEQUENCE yields the two numbers its
  halves stand for, whatever their leading octets.
\<close>

theorem cng_encode_roundtrip:
  assumes "even (length sig)" "length sig < 2 ^ 28"
  shows "\<exists>bs. cng_encode (ECDSAPublicKey c q) sig = Ok bs \<and>
    struct_field plain parse_ecdsa_signature (0, 0) bs =
      Ok ((int (be_value (take (length sig div 2) sig)), int (be_value (drop (length sig div 2) sig))), [])"
proof -
  let ?h = "length sig div 2"
  let ?r = "int (be_value (take ?h sig))" and ?s = "int (be_value (drop ?h sig))"
  have "length (take ?h sig) = ?h" "length (drop ?h sig) = ?h" using assms(1) by auto
  then have "?r < 256 ^ ?h" "?s < 256 ^ ?h"
    using be_value_bound [of "take ?h sig"] be_value_bound [of "drop ?h sig"]
    by (metis of_nat_less_iff of_nat_numeral of_nat_power)+
  then have l: "length (int_octets ?r) \<le> Suc ?h" "length (int_octets ?s) \<le> Suc ?h"
    by (simp_all add: length_int_octets)
  have small: "length (int_tlv i) \<le> length (int_octets i) + 10" if "length (int_octets i) < 2 ^ 29" for i
    unfolding int_tlv_def by (rule length_tlv_le) (use that in simp_all)
  have "length (int_tlv ?r @ int_tlv ?s) < 2 ^ 31"
  proof -
    have "length (int_octets ?r) < 2 ^ 29" "length (int_octets ?s) < 2 ^ 29" using l assms(2) by simp_all
    from this [THEN small] have "length (int_tlv ?r) \<le> ?h + 11" "length (int_tlv ?s) \<le> ?h + 11" using l by simp_all
    moreover have "?h \<le> 2 ^ 27" using assms(2) by simp
    ultimately show ?thesis unfolding length_append by simp
  qed
  then show ?thesis
    using l assms(2) struct_field_seq [of "int_tlv ?r @ int_tlv ?s" parse_ecdsa_signature "(0, 0)" "[]"]
    by (simp add: cng_encode_def assms(1) [unfolded even_iff_mod_2_eq_zero] subslice_def parse_ecdsa_signature_def
      big_int_field_tlv [of ?s "[]", simplified])
qed

subsection \<open>Status codes\<close>

lemma scast_bad_algid: "scast (s :: dword) \<noteq> (0x80090008 :: 64 word)"
proof
  assume eq: "scast s = (0x80090008 :: 64 word)"
  have "bit (scast s :: 64 word) 31 \<longleftrightarrow> bit (scast s :: 64 word) 32" by (simp add: bit_signed_iff)
  then show False unfolding eq by simp
qed

text \<open>
  \<open>checkStatus\<close> never reports an unsupported hash: the status \<open>NTE_BAD_ALGID\<close>, a negative number of 32 bits,
  is extended with its sign and differs from the constant it is compared with.
\<close>

theorem checkStatus_never_unsupported:
  "checkStatus s \<noteq> Err ErrUnsupportedHash \<and> checkStatus 0x80090008 = Err (securityStatus 0xFFFFFFFF80090008)"
  using scast_bad_algid [of s] by (simp add: checkStatus_def NTE_BAD_ALGID_def Let_def)

subsection \<open>Text\<close>

lemma decode_rune_scalar:
  assumes "bs \<noteq> []"
  shows "(fst (decode_rune bs) < 0xD800 \<or> (0xE000 \<le> fst (decode_rune bs) \<and> fst (decode_rune bs) \<le> 0x10FFFF)) \<and>
    (0x10000 \<le> fst (decode_rune bs) \<longrightarrow> 4 \<le> snd (decode_rune bs))"
  using assms
  by (auto simp: decode_rune_def continuation_def second_octet_def split: list.splits if_splits)

lemma utf16_decode_encode:
  "r < 0xD800 \<or> (0xE000 \<le> r \<and> r \<le> 0x10FFFF) \<Longrightarrow> utf16_decode (utf16_encode r @ us) = r # utf16_decode us"
proof (cases "r < 0x10000")
  case False
  assume r: "r < 0xD800 \<or> (0xE000 \<le> r \<and> r \<le> 0x10FFFF)"
  define q where "q = r - 0x10000"
  have q: "r = 0x10000 + q" "q < 1024 * 1024" using False r by (simp_all add: q_def)
  then have "q div 1024 < 1024" by (simp add: less_mult_imp_div_less)
  moreover have "q mod 1024 < 1024" by simp
  moreover have "q div 1024 * 1024 + q mod 1024 = q" by simp
  ultimately show ?thesis using q r by (simp add: utf16_encode_def)
qed (auto simp: utf16_encode_def)

lemma decode_rune_width: "snd (decode_rune bs) \<le> length bs"
  by (auto simp: decode_rune_def split: list.splits)

lemma utf16_runes:
  "utf16_decode (concat (map (utf16_encode \<circ> fst) (runes s))) = map fst (runes s) \<and>
   length (concat (map (utf16_encode \<circ> fst) (runes s))) \<le> length s"
proof (induction s rule: runes.induct)
  case (1 s)
  show ?case
  proof (cases "s = []")
    case False
    obtain r w where d: "decode_rune (codes s) = (r, w)" by fastforce
    have rs: "runes s = (r, take w s) # runes (drop w s)" using False d by (subst runes.simps) simp
    have r: "r < 0xD800 \<or> (0xE000 \<le> r \<and> r \<le> 0x10FFFF)" "0x10000 \<le> r \<longrightarrow> 4 \<le> w" "0 < w" "w \<le> length s"
      using decode_rune_scalar [of "codes s"] width_positive [of "codes s"] decode_rune_width [of "codes s"] d False
      by (auto simp: codes_def)
    then have "length (utf16_encode r) \<le> w" by (auto simp: utf16_encode_def)
    then show ?thesis
      using 1 [OF False d [symmetric]] r by (auto simp: rs utf16_decode_encode)
  qed (simp add: runes.simps)
qed

text \<open>
  C32: A string of up to 2^29 octets is passed to Windows as the UTF-16 encoding of its runes, whole and ended by
  a NUL; decoding it yields the runes again.
\<close>

theorem stringToUTF16_runes:
  assumes "length s \<le> 2 ^ 29"
  shows "\<exists>us. stringToUTF16 s = Ok (us @ [0]) \<and> utf16_decode us = map fst (runes s) \<and> length us \<le> length s"
proof -
  let ?us = "concat (map (utf16_encode \<circ> fst) (runes s))"
  have "length ?us \<le> 2 ^ 29" using utf16_runes [of s] assms by simp
  then have "stringToUTF16 s = Ok (?us @ [0])"
    using assms by (simp add: stringToUTF16_def Let_def min_def)
  then show ?thesis using utf16_runes [of s] by blast
qed

subsection \<open>References\<close>

definition handle :: "(nat \<Rightarrow> win_ref) \<Rightarrow> nat \<Rightarrow> win_ref multiset" where
  "handle kind n = (if n = 0 then {#} else {#kind n#})"

definition wpk_refs :: "winPrivateKey \<Rightarrow> win_ref multiset" where
  "wpk_refs wpk = handle CngKey (cngHandle wpk) + handle CapiProv (capiProv wpk)"

definition win_refs :: "winIdentity \<Rightarrow> win_ref multiset" where
  "win_refs i = mset (map CertContext (win_chain_contexts i)) +
     (case win_signer i of None \<Rightarrow> {#} | Some wpk \<Rightarrow> wpk_refs wpk)"

lemma handle_simps [simp]: "handle kind 0 = {#}" "n \<noteq> 0 \<Longrightarrow> handle kind n = {#kind n#}"
  by (simp_all add: handle_def)

lemma fail_last_keeps [owns_rules]: "c a \<Longrightarrow> owns held a (fail_last os msg) b c"
  unfolding fail_last_def by (intro owns_rules) simp





text \<open>Reading a certificate does not change the state.\<close>

lemma exportCertCtx_state: "fst (exportCertCtx os ctx s) = s"
  by (simp add: exportCertCtx_def bind_op_def ask_op_def done_op_def wrap_op_def fst_attempt_same)

lemma win_Certificate_state: "fst (win_Certificate os s) = s"
  by (simp add: win_Certificate_def get_op_def bind_op_def done_op_def fst_attempt_same exportCertCtx_state)



lemma newWinPrivateKey_owns:
  "stable held \<Longrightarrow> owns held {#} (newWinPrivateKey os api ctx pub) (\<lambda>wpk x. x = wpk_refs wpk) nothing"
  unfolding newWinPrivateKey_def
  by (cases pub) (auto intro!: owns_rules owns_acquire simp: wpk_refs_def do_op_def intro: owns_done)

text \<open>The handle of a key is kept in the identity.\<close>

lemma win_getPrivateKey_tidy:
  fixes os :: "'w win_os"
  shows "tidy (self_refs win_refs) (win_getPrivateKey os api)"
proof (rule ownsI)
  fix s :: "('w, win_ref, winIdentity) call" and F
  assume s: "owned s = F + self_refs win_refs s + {#}" "\<not> misused s"
  let ?post = "\<lambda>m. \<exists>x. owned (fst (m s)) = F + self_refs win_refs (fst (m s)) + x \<and> \<not> misused (fst (m s)) \<and>
    (case snd (m s) of Ok y \<Rightarrow> nothing x | _ \<Rightarrow> nothing x)"
  show "?post (win_getPrivateKey os api)"
  proof (cases "win_signer (self s)")
    case (Some wpk)
    then show ?thesis using s by (simp add: win_getPrivateKey_def get_op_def done_op_def)
  next
    case None
    obtain q where cert: "win_Certificate os s = (s, q)" by (metis win_Certificate_state prod.collapse)
    obtain r where ctx: "byte_at (win_chain_contexts (self s)) 0 = r" by blast
    show ?thesis
    proof (cases "is_ok q \<and> is_ok r")
      case False
      then show ?thesis using s None cert ctx
        by (cases q; cases r) (auto simp: win_getPrivateKey_def get_op_def bind_op_def done_op_def wrap_op_def)
    next
      case True
      then obtain crt c where q: "q = Ok crt" and r: "r = Ok c" by (auto simp: is_ok_iff)
      obtain t k where key: "newWinPrivateKey os api c (Some (PublicKey crt)) s = (t, k)" by fastforce
      have self: "self t = self s" using key
        by (auto simp: newWinPrivateKey_def bind_op_def sys_op_def fail_last_def ask_op_def done_op_def do_op_def
          split: prod.splits if_splits)
      obtain x where t: "owned t = F + self_refs win_refs t + x" "\<not> misused t"
        "case k of Ok wpk \<Rightarrow> x = wpk_refs wpk | _ \<Rightarrow> x = {#}"
        using newWinPrivateKey_owns [OF stable_refs(1)] s key by (rule ownsD)
      then show ?thesis
        using None cert ctx q r key self
        by (cases k) (auto simp: win_getPrivateKey_def get_op_def bind_op_def done_op_def wrap_op_def do_op_def
          self_refs_def win_refs_def ac_simps)
    qed
  qed
qed

lemmas owns_bind_win_getPrivateKey = owns_bind_tidy [OF win_getPrivateKey_tidy]

text \<open>\<open>Close\<close> gives back what the identity holds.\<close>

lemma wpk_Close_simps:
  assumes "owned s = G + wpk_refs wpk" "\<not> misused s"
  shows "owned (wpk_Close wpk s) = G" "\<not> misused (wpk_Close wpk s)"
  using assms by (auto simp: wpk_Close_def wpk_refs_def Let_def handle_def)

lemma self_wpk_Close [simp]: "self (wpk_Close wpk s) = self s"
  by (simp add: wpk_Close_def Let_def)

lemma release_contexts:
  assumes "owned s = G + mset (map CertContext ctxs)" "\<not> misused s"
  shows "owned (fold (\<lambda>ctx s. set_self f (release (CertContext ctx) s)) ctxs s) = G \<and>
    \<not> misused (fold (\<lambda>ctx s. set_self f (release (CertContext ctx) s)) ctxs s)"
  using assms
proof (induction ctxs arbitrary: s)
  case (Cons ctx ctxs)
  have "owned (set_self f (release (CertContext ctx) s)) = G + mset (map CertContext ctxs)"
    "\<not> misused (set_self f (release (CertContext ctx) s))" using Cons.prems by simp_all
  then show ?case using Cons.IH by simp
qed simp

lemma self_release_contexts:
  "(\<And>i. f (f i) = f i) \<Longrightarrow> self (fold (\<lambda>ctx s. set_self f (release (CertContext ctx) s)) ctxs s) =
     (if ctxs = [] then self s else f (self s))"
  by (induction ctxs arbitrary: s) auto

lemma win_Close_empty: "win_refs (self (win_Close s)) = {#}"
  by (cases "win_signer (self s)") (auto simp: win_Close_def self_release_contexts win_refs_def Let_def)

lemma win_Close_keeps: "keeps win_refs win_Close (\<lambda>x. x = {#})"
  unfolding keeps_def
proof (intro allI impI)
  fix s :: "('w, win_ref, winIdentity) call" and F
  assume s: "owned s = F + win_refs (self s) \<and> \<not> misused s"
  let ?ctxs = "win_chain_contexts (self s)"
  define t where "t = (case win_signer (self s) of
      Some wpk \<Rightarrow> set_self (\<lambda>i. i\<lparr>win_signer := None\<rparr>) (wpk_Close wpk s) | None \<Rightarrow> s)"
  have "owned t = F + mset (map CertContext ?ctxs) \<and> \<not> misused t \<and> win_chain_contexts (self t) = ?ctxs"
  proof (cases "win_signer (self s)")
    case (Some wpk)
    then have "owned s = (F + mset (map CertContext ?ctxs)) + wpk_refs wpk"
      using s by (simp add: win_refs_def ac_simps)
    from wpk_Close_simps [OF this] s Some show ?thesis by (simp add: t_def)
  qed (use s in \<open>simp add: t_def win_refs_def\<close>)
  then have "owned (win_Close s) = F \<and> \<not> misused (win_Close s)"
    using release_contexts [of t F ?ctxs] by (simp add: win_Close_def t_def Let_def)
  then show "\<exists>x. owned (win_Close s) = F + win_refs (self (win_Close s)) + x \<and> \<not> misused (win_Close s) \<and> x = {#}"
    using win_Close_empty [of s] by simp
qed

subsection \<open>The search for identities\<close>

lemma search_next_owned:
  assumes "search_next kind look prev s = (s', ctx)" "owned s = F + handle kind prev" "\<not> misused s"
  shows "owned s' = F + handle kind ctx \<and> \<not> misused s' \<and> look prev (system s) = (ctx, system s')"
  using assms by (auto simp: search_next_def handle_def Let_def split: prod.splits if_splits)

lemma duplicate_contexts_simps [simp]:
  "owned (duplicate_contexts ctxs s) = owned s + mset (map CertContext ctxs)"
  "misused (duplicate_contexts ctxs s) = misused s" "system (duplicate_contexts ctxs s) = system s"
proof -
  have "owned (fold (\<lambda>ctx. acquire (CertContext ctx)) ctxs s) = owned s + mset (map CertContext ctxs) \<and>
      misused (fold (\<lambda>ctx. acquire (CertContext ctx)) ctxs s) = misused s \<and>
      system (fold (\<lambda>ctx. acquire (CertContext ctx)) ctxs s) = system s"
    by (induction ctxs arbitrary: s) (simp_all add: ac_simps)
  then show "owned (duplicate_contexts ctxs s) = owned s + mset (map CertContext ctxs)"
    "misused (duplicate_contexts ctxs s) = misused s" "system (duplicate_contexts ctxs s) = system s"
    by (simp_all add: duplicate_contexts_def)
qed

lemma newWinIdentity_run:
  "newWinIdentity ctxs s = (duplicate_contexts ctxs s, Ok \<lparr>win_chain_contexts = ctxs, win_signer = None\<rparr>)"
  by (simp add: newWinIdentity_def do_op_def done_op_def)

text \<open>What is left when the loop ends early is the context of the chain it stumbled over.\<close>

definition found :: "'w win_os \<Rightarrow> unit outcome \<Rightarrow> win_ref multiset \<Rightarrow> bool" where
  "found os r x \<longleftrightarrow> (case r of Ok _ \<Rightarrow> x = {#}
     | Err _ \<Rightarrow> \<exists>ctx w. x = {#ChainContext ctx#} \<and> \<not> is_ok (chain_elements (chain_context os ctx w))
     | Panic _ \<Rightarrow> False)"



text \<open>The chains the system reports have elements; otherwise a context is left behind.\<close>

definition good_chains :: "'w win_os \<Rightarrow> bool" where
  "good_chains os \<longleftrightarrow> (\<forall>ctx w. is_ok (chain_elements (chain_context os ctx w)))"

text \<open>Closing alone: the contract with no other methods.\<close>

interpretation win_close: closable win_refs "{}" "\<lambda>_ _ _. False" win_Close "\<lambda>x. x = {#}"
  by unfold_locales (simp_all add: win_Close_keeps win_Close_empty)

lemma close_idents_owned:
  assumes "owned s = F + held_by win_refs idents" "\<not> misused s"
  shows "owned (close_idents idents s) = F \<and> \<not> misused (close_idents idents s)"
proof -
  obtain t idents' where c: "close_all win_Close (s, idents) = (t, idents')" by fastforce
  then have "fold (\<lambda>k. on_object k win_Close) [0..<length idents] (s, idents) = (t, idents')"
    by (simp add: close_all_def)
  from win_close.close_first [OF assms order_refl this]
  have t: "length idents' = length idents" "owned t = F + held_by win_refs idents'" "\<not> misused t"
    "\<forall>k<length idents. win_refs (idents' ! k) = {#}" by auto
  have "held_by win_refs idents' = {#}"
    using t(1,4) by (intro held_by_empty) (auto simp: in_set_conv_nth)
  then show ?thesis using t c by (simp add: close_idents_def)
qed


subsection \<open>Importing\<close>

text \<open>A system that copies every certificate, and what is left of an import: the context it could not copy.\<close>

definition copies_certificates :: "'w win_os \<Rightarrow> bool" where
  "copies_certificates os \<longleftrightarrow> (\<forall>st ctx w. fst (CertAddCertificateContextToStore os st ctx w))"

lemma copies_certificatesD:
  "copies_certificates os \<Longrightarrow> CertAddCertificateContextToStore os st ctx w = (ok, w') \<Longrightarrow> ok"
  unfolding copies_certificates_def by (metis fst_conv)

definition uncopied :: "'w win_os \<Rightarrow> 'a outcome \<Rightarrow> win_ref multiset \<Rightarrow> bool" where
  "uncopied os r x \<longleftrightarrow> x = {#} \<or> \<not> is_ok r \<and> \<not> copies_certificates os \<and> (\<exists>ctx. x = {#CertContext ctx#})"

lemma import_certs_owned_all:
  assumes "import_certs os to_store from_store prev s = Some y"
  shows "\<forall>F. owned s = F + handle CertContext prev \<and> \<not> misused s \<longrightarrow>
    (\<exists>x. owned (fst y) = F + x \<and> \<not> misused (fst y) \<and> uncopied os (snd y) x)"
  using assms
proof (induction rule: import_certs.raw_induct [rotated, consumes 1, case_names 1])
  case (1 loop os to_store from_store prev s y)
  show ?case
  proof (intro allI impI, elim conjE)
    fix F assume s: "owned s = F + handle CertContext prev" "\<not> misused s"
    obtain t ctx where n: "search_next CertContext (CertFindCertificateInStore os from_store) prev s = (t, ctx)" by fastforce
    from search_next_owned [OF this s] have t: "owned t = F + handle CertContext ctx" "\<not> misused t" by auto
    obtain ok w where add: "CertAddCertificateContextToStore os to_store ctx (system t) = (ok, w)" by fastforce
    show "\<exists>x. owned (fst y) = F + x \<and> \<not> misused (fst y) \<and>
        uncopied os (snd y) x"
    proof (cases "ctx \<noteq> 0 \<and> ok")
      case True
      then have "loop os to_store from_store ctx (t\<lparr>system := w\<rparr>) = Some y" using 1(2) n add by simp
      with 1(1) have "\<forall>F. owned (t\<lparr>system := w\<rparr>) = F + handle CertContext ctx \<and> \<not> misused (t\<lparr>system := w\<rparr>) \<longrightarrow>
        (\<exists>x. owned (fst y) = F + x \<and> \<not> misused (fst y) \<and>
          uncopied os (snd y) x)" by blast
      then show ?thesis using t by simp
    next
      case False
      then show ?thesis using 1(2) n add t
        by (cases "ctx = 0") (auto simp: uncopied_def dest: copies_certificatesD)
    qed
  qed
qed

text \<open>
  An import gives back the temporary store and the contexts of its certificates; only when a certificate
  cannot be copied, which is an error, is its context left behind.
\<close>

theorem win_Import_releases:
  assumes "win_Import os api st data password s = Some (s', r)" "\<not> misused s"
  shows "\<not> misused s' \<and> (\<exists>x. owned s' = owned s + x \<and> uncopied os r x)"
proof (cases "stringToUTF16 password")
  case (Ok cpw)
  obtain pfx w where i: "PFXImportCertStore os (take (length data mod 2 ^ 32) data) cpw (import_flags api) (system s) = (pfx, w)" by fastforce
  show ?thesis
  proof (cases "pfx = 0")
    case False
    let ?t = "acquire (CertStore pfx) (s\<lparr>system := w\<rparr>)"
    obtain u where u: "import_certs os st pfx 0 ?t = Some (u, r)" "s' = release (CertStore pfx) u"
      using assms(1) Ok i False by (auto simp: win_Import_def Let_def)
    have "owned ?t = add_mset (CertStore pfx) (owned s) + handle CertContext 0 \<and> \<not> misused ?t"
      using assms(2) by simp
    with import_certs_owned_all [OF u(1)] obtain x where "owned u = add_mset (CertStore pfx) (owned s) + x"
      "\<not> misused u" "uncopied os r x" by (metis fst_conv snd_conv)
    then show ?thesis using u(2) by auto
  qed (use assms Ok i in \<open>auto simp: win_Import_def uncopied_def Let_def\<close>)
qed (use assms in \<open>auto simp: win_Import_def uncopied_def\<close>)

subsection \<open>No handle is given back twice, unless the identity is deleted\<close>







text \<open>What may be left: the context of a bad chain, or of a certificate that could not be copied.\<close>

definition left_over :: "'w win_os \<Rightarrow> win_ref multiset \<Rightarrow> bool" where
  "left_over os x \<longleftrightarrow> (\<forall>r \<in># x. (\<exists>ctx. r = ChainContext ctx) \<and> \<not> good_chains os \<or>
     (\<exists>ctx. r = CertContext ctx) \<and> \<not> copies_certificates os)"

lemma left_over_simps [simp]:
  "left_over os {#}" "left_over os (x + y) \<longleftrightarrow> left_over os x \<and> left_over os y"
  by (auto simp: left_over_def)







subsection \<open>Deleting an identity\<close>

lemma checkStatus_Ok: "checkStatus status = Ok y \<longleftrightarrow> status = 0"
proof -
  have "status = 0" if "(scast status :: 64 word) = 0"
  proof (rule bit_word_eqI)
    fix n assume "n < LENGTH(32)"
    then have "bit status n \<longleftrightarrow> bit (scast status :: 64 word) n"
      by (cases "n = 31") (auto simp: bit_signed_iff min_def)
    then show "bit status n \<longleftrightarrow> bit 0 n" using that by simp
  qed
  then have "(scast status :: 64 word) = 0 \<longleftrightarrow> status = 0" by auto
  then show ?thesis by (auto simp: checkStatus_def Let_def)
qed

lemma delete_certificate_tidy: "stable held \<Longrightarrow> tidy held (delete_certificate os ctx)"
  unfolding delete_certificate_def
  by (intro owns_acquire owns_bind_sys owns_release owns_done) simp_all

lemma win_getPrivateKey_signer:
  "win_getPrivateKey os api s = (s', Ok wpk) \<Longrightarrow> win_signer (self s') = Some wpk"
  by (auto simp: win_getPrivateKey_def run_simps split: option.splits)

lemma misused_release_contexts:
  "misused s \<Longrightarrow> misused (fold (\<lambda>ctx s. set_self f (release (CertContext ctx) s)) ctxs s)"
  by (induction ctxs arbitrary: s) simp_all

text \<open>
  C21: Deleting an identity with a CNG key and closing it frees the key's handle twice: \<open>NCryptDeleteKey\<close> has
  freed it and the code keeps it.
\<close>

theorem delete_frees_key_twice:
  fixes os :: "'w win_os"
  assumes "win_Delete os api s = (s', Ok ())" "win_signer (self s') = Some wpk" "cngHandle wpk = h" "h \<noteq> 0"
    and "owned s = F + win_refs (self s)" "\<not> misused s" "CngKey h \<notin># F"
  shows "\<not> misused s' \<and> misused (win_Close s')"
proof -
  obtain ctx and t u :: "('w, win_ref, winIdentity) call" and key where run: "delete_certificate os ctx s = (t, Ok True)"
    "win_getPrivateKey os api t = (u, Ok key)" "wpk_Delete os key u = (s', Ok ())"
    using assms(1) by (auto simp: win_Delete_def run_simps fail_last_def split: if_splits)
  have "owned s = F + self_refs win_refs s + {#}" using assms(5) by (simp add: self_refs_def)
  from delete_certificate_tidy [OF stable_refs(1)] this assms(6) run(1)
  obtain x where "owned t = F + self_refs win_refs t + {#}" "\<not> misused t" by (rule ownsD) auto
  from win_getPrivateKey_tidy this run(2)
  have u: "owned u = F + win_refs (self u)" "\<not> misused u" by (rule ownsD, simp add: self_refs_def)+
  have signer: "win_signer (self u) = Some key" using run(2) by (rule win_getPrivateKey_signer)
  have "self s' = self u"
    using run(3) by (auto simp: wpk_Delete_def cng_delete_def getProviderParam_def run_simps sys_op_def fail_last_def
      Let_def split: if_splits prod.splits)
  then have key: "key = wpk" using signer assms(2) by simp
  have mem: "CngKey h \<in># win_refs (self u)" using signer key assms(3,4) by (simp add: win_refs_def wpk_refs_def)
  have s': "owned s' = F + win_refs (self u) - {#CngKey h#}" "\<not> misused s'"
    using run(3) key assms(3,4) u mem
    by (auto simp: wpk_Delete_def cng_delete_def run_simps sys_op_def checkStatus_Ok split: prod.splits)
  have "CngKey h \<notin># owned s'"
    using s'(1) signer key assms(3,4,7) by (auto simp: win_refs_def wpk_refs_def handle_def)
  then have "misused (wpk_Close wpk s')" using assms(3,4) by (simp add: wpk_Close_def Let_def)
  then have "misused (win_Close s')"
    using assms(2) by (simp add: win_Close_def Let_def misused_release_contexts)
  then show ?thesis using s'(2) by simp
qed

subsection \<open>The identities of a store\<close>

text \<open>
  What is documented of the enumeration of a store with certain chain contexts: given one of them
  the system returns the next, given nil the first, nil after the last and sets then the last error to
  \<open>CRYPT_E_NOT_FOUND\<close>; a context is not changed while it is held.
\<close>

fun next_chain :: "nat \<Rightarrow> (nat \<times> win_chain) list \<Rightarrow> nat" where
  "next_chain prev [] = 0"
| "next_chain prev ((ctx, c) # listed) =
     (if prev = 0 then ctx
      else if prev = ctx then (case listed of [] \<Rightarrow> 0 | (ctx', _) # _ \<Rightarrow> ctx')
      else next_chain prev listed)"

definition enumerates :: "'w win_os \<Rightarrow> nat \<Rightarrow> (nat \<times> win_chain) list \<Rightarrow> bool" where
  "enumerates os st listed \<longleftrightarrow>
     distinct (map fst listed) \<and> 0 \<notin> fst ` set listed \<and>
     (\<forall>prev \<in> insert 0 (fst ` set listed). \<forall>w ctx w'. CertFindChainInStore os st prev w = (ctx, w') \<longrightarrow>
        ctx = next_chain prev listed \<and> (ctx = 0 \<longrightarrow> GetLastError os w' = 0x80092004)) \<and>
     (\<forall>(ctx, c) \<in> set listed. \<forall>w. chain_context os ctx w = c)"

text \<open>A chain is good when there is one, and the first has elements, but no more than an array can hold.\<close>

definition good_chain :: "win_chain \<Rightarrow> bool" where
  "good_chain c \<longleftrightarrow> 0 < cChain c \<and> rgpElement c \<noteq> [] \<and> length (rgpElement c) \<le> 2 ^ 28"

definition chain_identity :: "win_chain \<Rightarrow> winIdentity" where
  "chain_identity c = \<lparr>win_chain_contexts = rgpElement c, win_signer = None\<rparr>"

lemma chain_elements_good:
  "chain_elements c = (if good_chain c then Ok (rgpElement c) else Err (ErrorString ''bad chain''))"
  by (auto simp: chain_elements_def good_chain_def maxPointerArray_def Suc_le_eq)

lemma next_chain_split:
  assumes "distinct (map fst (before @ rest))" "0 \<notin> fst ` set (before @ rest)"
  shows "next_chain (if before = [] then 0 else fst (last before)) (before @ rest)
    = (case rest of [] \<Rightarrow> 0 | (ctx, _) # _ \<Rightarrow> ctx)"
  using assms
proof (induction before)
  case Nil
  then show ?case by (auto split: list.split)
next
  case (Cons b before)
  obtain ctx c where b: "b = (ctx, c)" by fastforce
  show ?case
  proof (cases "before = []")
    case True
    then show ?thesis using b Cons.prems by (auto split: list.split)
  next
    case False
    then have "fst (last before) \<in> fst ` set before" by simp
    moreover have "ctx \<notin> fst ` set before" "0 \<notin> fst ` set before" using Cons.prems b by auto
    ultimately have "fst (last before) \<noteq> ctx" "fst (last before) \<noteq> 0" by metis+
    then show ?thesis using Cons False b by auto
  qed
qed

lemma enumerates_next:
  assumes "enumerates os st (before @ rest)" "prev = (if before = [] then 0 else fst (last before))"
    and "CertFindChainInStore os st prev w = (ctx, w')"
  shows "ctx = next_chain prev (before @ rest)" "ctx = 0 \<Longrightarrow> GetLastError os w' = 0x80092004"
proof -
  have "prev \<in> insert 0 (fst ` set (before @ rest))" using assms(2) by simp
  then show "ctx = next_chain prev (before @ rest)" "ctx = 0 \<Longrightarrow> GetLastError os w' = 0x80092004"
    using assms(1,3) unfolding enumerates_def by blast+
qed

text \<open>
  The loop from any position on: the identities of the good chains that follow, and either the end of the
  search or the first bad chain, whose context is kept.
\<close>

lemma find_chains_run:
  assumes "enumerates os st (before @ rest)" "prev = (if before = [] then 0 else fst (last before))"
    and "owned s = F + handle ChainContext prev" "\<not> misused s"
  shows "\<exists>s'. find_chains os st prev idents s = Some (s',
      idents @ map (chain_identity \<circ> snd) (takeWhile (good_chain \<circ> snd) rest),
      case List.find (\<lambda>(ctx, c). \<not> good_chain c) rest of None \<Rightarrow> Ok () | Some _ \<Rightarrow> Err (ErrorString ''bad chain'')) \<and>
    owned s' = F + held_by win_refs (map (chain_identity \<circ> snd) (takeWhile (good_chain \<circ> snd) rest)) +
      (case List.find (\<lambda>(ctx, c). \<not> good_chain c) rest of None \<Rightarrow> {#} | Some (ctx, _) \<Rightarrow> {#ChainContext ctx#}) \<and>
    \<not> misused s' \<and> (List.find (\<lambda>(ctx, c). \<not> good_chain c) rest = None \<longrightarrow> GetLastError os (system s') = 0x80092004)"
  using assms
proof (induction rest arbitrary: before prev idents s F)
  case Nil
  obtain t ctx where n: "search_next ChainContext (CertFindChainInStore os st) prev s = (t, ctx)" by fastforce
  from search_next_owned [OF n Nil(3,4)] have t: "owned t = F + handle ChainContext ctx" "\<not> misused t"
    "CertFindChainInStore os st prev (system s) = (ctx, system t)" by auto
  note found = enumerates_next [OF Nil(1,2) t(3)]
  have "ctx = next_chain prev (before @ [])" by (rule found(1))
  also have "\<dots> = 0" using next_chain_split [of before "[]"] Nil(1,2) by (simp add: enumerates_def)
  finally have ctx: "ctx = 0" .
  then have "GetLastError os (system t) = 0x80092004" by (rule found(2))
  then show ?case using n t ctx by (subst find_chains.simps) simp
next
  case (Cons r rest)
  let ?bad = "List.find (\<lambda>(ctx, c). \<not> good_chain c)"
  let ?result = "\<lambda>xs. case ?bad xs of None \<Rightarrow> Ok () | Some _ \<Rightarrow> Err (ErrorString ''bad chain'')"
  let ?kept = "\<lambda>xs. case ?bad xs of None \<Rightarrow> {#} | Some (ctx, _) \<Rightarrow> {#ChainContext ctx#}"
  obtain ctx c where r: "r = (ctx, c)" by fastforce
  obtain t ctx' where n: "search_next ChainContext (CertFindChainInStore os st) prev s = (t, ctx')" by fastforce
  from search_next_owned [OF n Cons.prems(3,4)] have t: "owned t = F + handle ChainContext ctx'" "\<not> misused t"
    "CertFindChainInStore os st prev (system s) = (ctx', system t)" by auto
  have "ctx' = next_chain prev (before @ r # rest)" by (rule enumerates_next [OF Cons.prems(1,2) t(3)])
  also have "\<dots> = ctx" using next_chain_split [of before "r # rest"] Cons.prems(1,2) r by (simp add: enumerates_def)
  finally have ctx: "ctx' = ctx" .
  have c: "chain_context os ctx w = c" "ctx \<noteq> 0" for w
    using Cons.prems(1) r by (auto simp: enumerates_def)
  show ?case
  proof (cases "good_chain c")
    case False
    then show ?thesis using n t ctx c r
      by (subst find_chains.simps) (simp add: chain_elements_good)
  next
    case True
    let ?u = "duplicate_contexts (rgpElement c) t"
    have "owned ?u = (F + win_refs (chain_identity c)) + handle ChainContext ctx" "\<not> misused ?u"
      using t ctx by (simp_all add: win_refs_def chain_identity_def ac_simps)
    moreover have "enumerates os st ((before @ [r]) @ rest)" "ctx = (if before @ [r] = [] then 0 else fst (last (before @ [r])))"
      using Cons.prems(1) r by simp_all
    ultimately have rest: "\<exists>s'. find_chains os st ctx (idents @ [chain_identity c]) ?u = Some (s',
        (idents @ [chain_identity c]) @ map (chain_identity \<circ> snd) (takeWhile (good_chain \<circ> snd) rest), ?result rest) \<and>
      owned s' = (F + win_refs (chain_identity c)) + held_by win_refs (map (chain_identity \<circ> snd) (takeWhile (good_chain \<circ> snd) rest)) +
        ?kept rest \<and> \<not> misused s' \<and> (?bad rest = None \<longrightarrow> GetLastError os (system s') = 0x80092004)"
      by (intro Cons.IH)
    have step: "find_chains os st prev idents s = find_chains os st ctx (idents @ [chain_identity c]) ?u"
      using n ctx c True
      by (subst find_chains.simps) (simp add: chain_elements_good newWinIdentity_run chain_identity_def)
    show ?thesis using rest True unfolding step by (simp add: r add.assoc comp_def)
  qed
qed

text \<open>
  C33: Listing the identities of a store whose enumeration follows the documentation ends. When every chain
  is good, it returns one identity for each chain, in the order of the store and with the contexts of the
  chain's elements, which it has duplicated, and it holds nothing else. Otherwise it fails, has closed the
  identities made before, and what it still holds is the context of the first bad chain.
\<close>

theorem win_Identities_lists:
  assumes "enumerates os st listed" "\<not> misused p"
  shows "\<exists>p'. \<not> misused p' \<and> (case List.find (\<lambda>(ctx, c). \<not> good_chain c) listed of
      None \<Rightarrow> win_Identities os st p = Some (p', Ok (map (chain_identity \<circ> snd) listed)) \<and>
        owned p' = owned p + mset (map CertContext (concat (map (rgpElement \<circ> snd) listed)))
    | Some (ctx, c) \<Rightarrow> win_Identities os st p = Some (p', Err (ErrorString ''bad chain'')) \<and>
        owned p' = owned p + {#ChainContext ctx#})"
proof -
  let ?bad = "List.find (\<lambda>(ctx, c). \<not> good_chain c) listed"
  let ?made = "map (chain_identity \<circ> snd) (takeWhile (good_chain \<circ> snd) listed)"
  obtain s' where run: "find_chains os st 0 [] p = Some (s', ?made,
      case ?bad of None \<Rightarrow> Ok () | Some _ \<Rightarrow> Err (ErrorString ''bad chain''))"
    and s': "owned s' = owned p + held_by win_refs ?made + (case ?bad of None \<Rightarrow> {#} | Some (ctx, _) \<Rightarrow> {#ChainContext ctx#})"
      "\<not> misused s'" "?bad = None \<longrightarrow> GetLastError os (system s') = 0x80092004"
    using find_chains_run [of os st "[]" listed 0 p "owned p" "[]"] assms by auto
  show ?thesis
  proof (cases ?bad)
    case None
    then have "takeWhile (good_chain \<circ> snd) listed = listed" by (auto simp: find_None_iff takeWhile_eq_all_conv)
    then have all: "?made = map (chain_identity \<circ> snd) listed" by (rule arg_cong)
    have held: "held_by win_refs (map (chain_identity \<circ> snd) cs)
        = mset (map CertContext (concat (map (rgpElement \<circ> snd) cs)))" for cs
      by (induction cs) (auto simp: win_refs_def chain_identity_def)
    have "iteration_error os (system s') = None"
      using s'(3) None by (simp add: iteration_error_def checkError_def CRYPT_E_NOT_FOUND_def Let_def)
    with None run s'(1,2) show ?thesis unfolding all held by (simp add: win_Identities_def)
  next
    case (Some b)
    obtain ctx c where b: "b = (ctx, c)" by fastforce
    have "owned s' = (owned p + {#ChainContext ctx#}) + held_by win_refs ?made"
      using s'(1) unfolding Some b by simp
    from close_idents_owned [OF this s'(2)] show ?thesis
      using run Some b by (simp add: win_Identities_def)
  qed
qed

subsection \<open>A concrete system\<close>

text \<open>One identity with a CNG key, and a provider of the CryptoAPI; the state does not matter.\<close>

definition example_win :: "nat win_os" where
  "example_win =
     \<lparr>GetLastError = (\<lambda>_. 0x80092004), FormatMessage = (\<lambda>_ _. None), CertOpenStore = (\<lambda>_ w. (2, w)),
      CertFindChainInStore = (\<lambda>_ prev w. (if prev = 0 then 5 else 0, w)),
      chain_context = (\<lambda>_ _. \<lparr>cChain = 1, rgpElement = [7]\<rparr>), PFXImportCertStore = (\<lambda>_ _ _ w. (8, w)),
      CertFindCertificateInStore = (\<lambda>_ prev w. (if prev = 0 then 6 else 0, w)),
      CertAddCertificateContextToStore = (\<lambda>_ _ w. (True, w)), CertDeleteCertificateFromStore = (\<lambda>_ w. (True, w)),
      cert_encoded = (\<lambda>_ _. [1]), CryptAcquireCertificatePrivateKey = (\<lambda>_ _ w. ((True, 3, CERT_NCRYPT_KEY_SPEC, True), w)),
      NCryptSignHash = (\<lambda>_ _ _ _ _ w. ((0, [1, 2, 3, 4], 4), w)), NCryptDeleteKey = (\<lambda>_ w. (0, w)),
      CryptCreateHash = (\<lambda>_ _ w. ((True, 9), w)), CryptGetHashParam = (\<lambda>_ w. ((True, 32), w)),
      CryptSetHashParam = (\<lambda>_ _ w. (True, w)), CryptSignHash = (\<lambda>_ _ _ w. ((True, [1, 2, 3, 4], 4), w)),
      CryptGetProvParam = (\<lambda>_ _ _ w. ((True, [1], 1), w)), CryptDeleteKeySet = (\<lambda>_ _ _ w. (True, w)),
      win_ParseCertificate = (\<lambda>_. Ok (example_certificate\<lparr>PublicKey := RSAPublicKey [3]\<rparr>))\<rparr>"

definition example_win_process :: "(nat, win_ref) process" where
  "example_win_process = \<lparr>system = 0, owned = {#}, misused = False\<rparr>"

definition example_win_key :: winPrivateKey where
  "example_win_key = \<lparr>publicKey = RSAPublicKey [3], capiProv = 4, cngHandle = 0, keySpec = 1\<rparr>"

theorem capi_signature_reversed_witness:
  "Hash_Size SHA256 = Ok 32 \<and>
    (\<exists>chash w n out n' w'. CryptSignHash example_win chash 1 (Some n) w = ((True, out, n'), w') \<and> 0 < n \<and>
      [4, 3, 2, 1] = rev (overwrite out (replicate n 0)))"
proof -
  have eval: "overwrite [1, 2, 3, 4] (replicate 4 0) = [1, 2, 3, 4]" "reverse_loop 2 [1, 2, 3, 4 :: byte] = [4, 3, 2, 1]"
    by (simp_all add: overwrite_def numeral_eq_Suc)
  have run: "snd (wpk_Sign example_win example_win_key (replicate 32 1) (Some (HashOpts SHA256)) example_win_process)
      = Ok [4, 3, 2, 1]"
    by (simp add: wpk_Sign_def capiSignHash_def capi_hash_def capi_sign_def bind_op_def sys_op_def done_op_def do_op_def
      defer_op_def byte_at_def eval example_win_def example_win_key_def example_win_process_def Let_def)
  then obtain t where "wpk_Sign example_win example_win_key (replicate 32 1) (Some (HashOpts SHA256)) example_win_process
      = (t, Ok [4, 3, 2, 1])" by (metis prod.collapse)
  from capi_signature_reversed [OF this] show ?thesis by (simp add: example_win_key_def)
qed

theorem cng_encode_roundtrip_witness:
  "\<exists>bs. cng_encode (ECDSAPublicKey P256 [1]) [0x80, 2] = Ok bs \<and>
    struct_field plain parse_ecdsa_signature (0, 0) bs = Ok ((int (be_value [0x80]), int (be_value [2])), [])"
  using cng_encode_roundtrip [of "[0x80, 2]" P256 "[1]"] by simp

theorem stringToUTF16_runes_witness:
  "\<exists>us. stringToUTF16 ''MY'' = Ok (us @ [0]) \<and> utf16_decode us = map fst (runes ''MY'') \<and> length us \<le> 2"
proof -
  have "length ''MY'' = 2" by simp
  with stringToUTF16_runes [of "''MY''"] show ?thesis by (simp only: le_refl) simp
qed

definition example_win_identity :: winIdentity where
  "example_win_identity = \<lparr>win_chain_contexts = [7], win_signer = None\<rparr>"


text \<open>A store of two chains, the second of which may be without elements.\<close>

definition example_chains :: "bool \<Rightarrow> (nat \<times> win_chain) list" where
  "example_chains good =
     [(5, \<lparr>cChain = 1, rgpElement = [7, 8]\<rparr>), (6, \<lparr>cChain = 1, rgpElement = (if good then [9] else [])\<rparr>)]"

definition example_store :: "bool \<Rightarrow> nat win_os" where
  "example_store good = example_win
     \<lparr>CertFindChainInStore := \<lambda>_ prev w. (next_chain prev (example_chains good), w),
      chain_context := \<lambda>ctx _. \<lparr>cChain = 1, rgpElement = (if ctx = 5 then [7, 8] else if good then [9] else [])\<rparr>\<rparr>"

theorem win_Identities_lists_witness:
  "(\<exists>p. win_Identities (example_store True) 2 example_win_process
      = Some (p, Ok [\<lparr>win_chain_contexts = [7, 8], win_signer = None\<rparr>, \<lparr>win_chain_contexts = [9], win_signer = None\<rparr>]) \<and>
      owned p = {#CertContext 7, CertContext 8, CertContext 9#}) \<and>
   (\<exists>p. win_Identities (example_store False) 2 example_win_process = Some (p, Err (ErrorString ''bad chain'')) \<and>
      owned p = {#ChainContext 6#})"
proof -
  have "enumerates (example_store good) 2 (example_chains good)" for good
    by (simp add: enumerates_def example_store_def example_chains_def example_win_def)
  note lists = win_Identities_lists [OF this, of example_win_process]
  show ?thesis
    using lists [of True] lists [of False]
    by (simp add: example_chains_def good_chain_def chain_identity_def example_win_process_def) blast
qed

lemma example_Import:
  "win_Import example_win 0 2 [1] ''pw'' example_win_process = Some (example_win_process, Ok ())"
proof -
  obtain cpw where "stringToUTF16 ''pw'' = Ok cpw" by (simp add: stringToUTF16_def Let_def)
  then show ?thesis
    by (simp add: win_Import_def import_certs.simps search_next_def iteration_error_def checkError_def
      CRYPT_E_NOT_FOUND_def example_win_def example_win_process_def acquire_def release_def Let_def)
qed



theorem delete_frees_key_twice_witness:
  "misused (win_Close (fst (win_Delete example_win 0
     \<lparr>system = 0, owned = {#CertContext 7#}, misused = False, self = example_win_identity\<rparr>)))"
proof -
  let ?s = "\<lparr>system = 0 :: nat, owned = {#CertContext 7#}, misused = False, self = example_win_identity\<rparr>"
  have run: "snd (win_Delete example_win 0 ?s) = Ok ()"
    "win_signer (self (fst (win_Delete example_win 0 ?s))) =
      Some \<lparr>publicKey = RSAPublicKey [3], capiProv = 0, cngHandle = 3, keySpec = 0\<rparr>"
    by (simp_all add: win_Delete_def get_op_def bind_op_def sys_op_def ask_op_def done_op_def do_op_def wrap_op_def
      delete_certificate_def win_getPrivateKey_def win_Certificate_def exportCertCtx_def GoBytes_def C_int_def
      newWinPrivateKey_def wpk_Delete_def cng_delete_def checkStatus_def byte_at_def acquire_def release_def
      set_self_def example_win_def example_win_identity_def Let_def)
  then have "win_Delete example_win 0 ?s = (fst (win_Delete example_win 0 ?s), Ok ())" by (simp add: prod_eq_iff)
  from delete_frees_key_twice [OF this run(2) refl, of "{#}"] show ?thesis
    by (simp add: win_refs_def example_win_identity_def)
qed

theorem win_Import_releases_witness:
  "\<exists>s' r. win_Import example_win 0 2 [1] ''pw'' example_win_process = Some (s', r) \<and> \<not> misused s' \<and>
    (\<exists>x. owned s' = {#} + x \<and> uncopied example_win r x)"
proof -
  obtain s' r where run: "win_Import example_win 0 2 [1] ''pw'' example_win_process = Some (s', r)"
    using example_Import by blast
  from win_Import_releases [OF this] run show ?thesis by (simp add: example_win_process_def)
qed

end
