(* ===== verification/Spec2Isabelle.thy ===== *)
theory Spec2Isabelle
  imports Git_Round_Trip Parsed_Message Fake_Ca_Spec Mac_Store_Spec Win_Store_Spec
begin

text \<open>
  git-kmssign signs Git commits with a key held in Azure Key Vault and verifies such signatures.  This
  library models the program, a fork of smimesign, function by function, and proves what makes it
  correct.  The names of the definitions are those of the Go code where Isabelle allows it.

  \<^bold>\<open>How the program works.\<close>  main.go parses the command line, opens the certificate store and runs a
  command.  command_sign.go selects an identity of the store by email address or fingerprint, has the
  package ietf-cms build a SignedData message over the data with the identity's signer, asks a timestamp
  authority for tokens when one is configured, chooses the certificates that go into the message and
  writes it.  command_verify.go parses a message, verifies every signature with the certificates in it
  and reports to git with the status lines of status.go.  On Linux the store (certstore) holds one
  identity, whose signer forwards digests to Key Vault (azuresign).  ietf-cms rests on
  ietf-cms/protocol, the CMS data types and their ASN.1 encoding, on ietf-cms/timestamp, the timestamp
  protocol, and on ietf-cms/oid.  fakeca makes certificates for the tests.

  \<^bold>\<open>Conventions.\<close>  A byte is an \<open>8 word\<close>, a slice whose nil-ness the code looks at is a \<open>list option\<close>
  (None is nil).  A call yields an \<open>outcome\<close>: Ok, Err (a value of type error) or Panic; callers that test
  \<open>err != nil\<close> see the second and never the third.  A method that changes its receiver returns it with
  the outcome, also when it fails.  Structs are records, pointers that are shared are indices into a
  heap (fakeca only), and what a run writes is a list of writes to file descriptors.

  \<^bold>\<open>Theories and code.\<close>
    Prelude: outcomes, slices, loops that stop at the first failure, decimal printing.
    Big_Endian, Codec: base-256 numerals; the contract of an element codec (a locale).
    Go_Asn1, Go_Asn1_Fields, Go_Time, Go_Strings: what the code uses of encoding/asn1, time, strings,
      unicode/utf8 and fmt, written from the standard library: tags and lengths, struct fields with their
      tags (optional, explicit, set), times, the string types.
    Ber, Ber_Spec: ietf-cms/protocol/ber.go, the transcoder from BER to DER.
    Any_Set: ietf-cms/protocol/any_set.go.  Oid: ietf-cms/oid/oid.go.
    Protocol: ietf-cms/protocol/protocol.go.  Protocol_Codec and Protocol_Spec: its encodings and
      attributes.  Signing_Spec: AddSignerInfo and FindCertificate.
    Input_Invariant: properties of the input that pass to the elements the ASN.1 parsers find in it.
    Timestamp, Timestamp_Spec: ietf-cms/timestamp/timestamp.go.
    Cms, Token_Order, Cms_Verify: signed_data.go, sign.go, timestamp.go and verify.go of ietf-cms.
      Sign_Verify, Parsed_Message and Cms_Spec: their properties.
    User_Id, User_Id_Spec: parse_user_id.go and utils.go.
    Key_Vault, Key_Vault_Spec: azuresign/*.go, certstore/certstore.go and certstore_linux.go.
    Commands, Commands_Spec: main.go, status.go, command_sign.go, command_verify.go and
      list_keys_command.go.  Git_Round_Trip: one run of the program after another.
    Fake_Ca, Fake_Ca_Spec: fakeca/*.go.
    Resources: operations on a process that calls the operating system, with a ledger of the references
      it owns.  Mac_Store, Mac_Store_Spec: certstore/certstore_darwin.go.  Win_Store, Win_Store_Spec:
      certstore/certstore_windows.go.

  \<^bold>\<open>Interfaces.\<close>  \<open>element_codec\<close> (an encoder, a decoder that returns the rest, and the loop over it) is
  interpreted for the raw elements of a SET and for the arcs of an object identifier;
  \<open>der_transcoder\<close> for BER2DER; \<open>input_invariant\<close>, what holds of the input of a parser and of every element
  in it, for the sizes that make verification end and for DER; \<open>identity_provider\<close>, what the commands rely on when they sign with an
  identity, for the Key Vault store and for fakeca; \<open>closable\<close>, an object that holds references and is
  closed in the end, for the identities of macOS and Windows.

  \<^bold>\<open>What the lemmas show.\<close>
    Encodings: BER2DER maps the BER encodings it supports (lengths of at most four octets without leading
      zeros, elements of indefinite length that are not empty) to the DER encoding of the same tree and is
      idempotent; SETs, SignedData messages and timestamp requests survive writing and reading; every
      message that parses is well formed, can be written again and is read back the same.
    Signing and verifying: what Sign makes, Verify accepts, and a detached signature verifies against
      exactly the data of the same digest; the signed attributes are rebuilt by the verifier; a
      successful verification has checked digest, content type, signature, timestamp and chain of
      every signer; adding timestamps is all or nothing.
    The program: what one run signs with a Key Vault identity, another run accepts, whatever certificates
      are included as long as the signer's is among them, while a self-signed certificate under the
      default policy is left out and the signature is refused; a run of the
      verification command succeeds, and writes GOODSIG and TRUST_FULLY, exactly when the message has been
      verified; the identity that is selected, the certificates that
      are included, and the algorithm asked of the vault are the documented ones.
    fakeca: an abstract certificate authority that the package refines; serial numbers of an issuer are
      never repeated; chains end at a root.
    Certificate stores of macOS and Windows: in whatever order the calls are made, no reference is given
      back twice, and closing all identities gives back every reference. On macOS this is for imports with
      passwords of which Core Foundation makes a string, and for the second part without certificate
      chains, whose policy is leaked; on Windows for all calls but Delete, where contexts of bad chains and
      of certificates that cannot be copied remain. Listing the identities of a Windows store yields one
      for each chain, in order, or fails at the first bad chain. On macOS a signature is what the system
      returned for the digest, the identity's key and the algorithm that belongs to the kind of the key
      and the hash; on Windows it is encoded as Go expects it.  PSS is not supported there: an RSA signature is always
      PKCS#1 v1.5, whatever options the caller gives.
    Defects: several theorems state what the code does against its intention, for example that trailing
      bytes are accepted, that a certificate is never found by its key identifier, that the order of
      attributes can differ from the signed one, that a reply without a length makes a request panic, that
      on macOS a trusted certificate has no chain, or that on Windows a deleted key is freed twice.

  \<^bold>\<open>Bounds and termination.\<close>  encoding/asn1 refuses elements of 2^31 octets and more, so round trips
  are stated below that; int is 64 bits and BER2DER panics where an offset would leave it.  The
  recursion of BER2DER ends because every element takes at least two octets, that of Verify (a timestamp
  token is a message, whose signatures may have tokens) because a token is smaller than its message
  in the multiset order on the sizes of its elements.  Loops whose end depends on code outside the
  repository or on the shape of a heap (reading PEM blocks, following issuers, searching a store of
  Windows) are partial functions, and their end is proved from the documented behaviour or the
  invariant of the heap.  Serial numbers and clock arithmetic wrap at 64 bits as in Go.

  \<^bold>\<open>Arguments of the model.\<close>  crypto/x509 (parsing certificates, checking signatures, building chains),
  hashes, the signer's key, randomness, clocks, HTTP, files, encoding/pem, getopt, the Azure SDK, the
  libraries of macOS and Windows (records of functions on a state that is not looked into), and
  the printing of names, times and errors.  What is assumed of them are named hypotheses of the
  theorems: for instance that PEM text decodes to what was encoded, or that SHA-256 digests have 32
  octets.

  \<^bold>\<open>Not modelled.\<close>  Memory that is allocated in C (strings, copies of buffers) is not in the ledger of
  Resources, and crypt_strings_windows.go, a table of constants of the Windows headers, has no
  counterpart.
  Of errors the kind and the wrapping messages are kept, not every formatted detail: a path or value that
  is printed with the verb q is left out.  What a caller does with a key of a Windows identity after
  closing the identity is not followed; the code zeroes its handles then.  The texts of
  pkix names and of help messages are arguments.  Concurrency does not occur in the code; sync.Once
  in status.go is a flag.
\<close>

end
